theory Spec2Isabelle
  imports Complex_Main
begin

section \<open>Common infrastructure\<close>

text \<open>
  Floating-point values (C++ \<open>double\<close>) are modelled by the reals.  Every arithmetic
  operation is exact, except in the two sections whose subject is what rounding does to a
  result (the mass matrix of DG\_Modal and the matrices of UpdateMatricesMixed\_), where
  the rounding is a parameter of the model.  An operation whose floating-point result is
  not a real number (a division by zero) and a read or write outside the bounds of a
  vector are made explicit as errors.  All loops of the sources run over index ranges \<open>0 .. n-1\<close> or over
  the entities of a container; they are modelled by \<open>foreach\<close> (a loop whose body can fail)
  or by \<open>fold\<close> (a loop whose body cannot).
\<close>

datatype error =
    OutOfRange
  | DivisionByZero
  | AssertionFailed
  | NullPointer
  | FatalError string

primrec foreach :: "'i list \<Rightarrow> ('i \<Rightarrow> 's \<Rightarrow> error + 's) \<Rightarrow> 's \<Rightarrow> error + 's" where
  "foreach [] body s = Inr s"
| "foreach (i # is) body s =
     (case body i s of Inl e \<Rightarrow> Inl e | Inr s' \<Rightarrow> foreach is body s')"

text \<open>An \<open>Epetra_Vector\<close> is a list of reals; indexing is checked.\<close>

definition vec_get :: "real list \<Rightarrow> nat \<Rightarrow> error + real" where
  "vec_get v i = (if i < length v then Inr (v ! i) else Inl OutOfRange)"

definition vec_set :: "real list \<Rightarrow> nat \<Rightarrow> real \<Rightarrow> error + real list" where
  "vec_set v i x = (if i < length v then Inr (v[i := x]) else Inl OutOfRange)"

section \<open>Rounding of doubles\<close>

text \<open>
  Where a claim is about the bits of a result, the arithmetic of the doubles is not taken to
  be exact: the functions of the model take the rounding \<open>rnd\<close> as a parameter and every
  sum, difference, product and quotient of the source is \<open>rnd\<close> of the exact value.
  For exact arithmetic the rounding is the identity.  In IEEE 754 arithmetic the result of
  an operation is the exact value rounded to 53 significant bits, to the nearest such
  number and to the one with an even last bit in case of a tie (the default rounding mode;
  overflow and subnormal numbers are left out): this is \<open>round_to_double\<close>.
  For a real \<open>x\<close> that is not zero, \<open>\<lfloor>log 2 \<bar>x\<bar>\<rfloor>\<close> is the exponent of its leading bit.
\<close>

abbreviation (input) exact_arithmetic :: "real \<Rightarrow> real" where
  "exact_arithmetic \<equiv> (\<lambda>x. x)"

definition round_half_even :: "real \<Rightarrow> int" where
  "round_half_even x =
     (let f = \<lfloor>x\<rfloor>; d = x - of_int f in
      if d < 1 / 2 then f else if d > 1 / 2 then f + 1 else if even f then f else f + 1)"

definition round_to_double :: "real \<Rightarrow> real" where
  "round_to_double x =
     (if x = 0 then 0
      else (let e = \<lfloor>log 2 \<bar>x\<bar>\<rfloor> - 52
            in of_int (round_half_even (x / 2 powr of_int e)) * 2 powr of_int e))"

lemma powr_int_diff:
  "(2::real) powr of_int (int a - int b) = 2 ^ a / 2 ^ b"
proof -
  have "(2::real) powr of_int (int a - int b) = 2 powr (real a - real b)" by simp
  also have "\<dots> = 2 powr real a / 2 powr real b" by (rule powr_diff)
  also have "\<dots> = 2 ^ a / 2 ^ b" by (simp add: powr_realpow)
  finally show ?thesis .
qed

lemma round_to_double_dyadic:
  fixes N :: int
  assumes lo: "2 ^ (52 + k) \<le> N" and hi: "N < 2 ^ (53 + k)"
  shows "round_to_double (of_int N / 2 ^ s) =
           of_int (round_half_even (of_int N / 2 ^ k)) * 2 ^ k / 2 ^ s"
proof -
  let ?x = "real_of_int N / 2 ^ s"
  have Npos: "0 < N" using lo zero_less_power [of "2::int" "52 + k"] by linarith
  have xpos: "0 < ?x" using Npos by simp
  have lo': "2 powr of_int (int (52 + k) - int s) \<le> ?x"
  proof -
    have "(2::real) ^ (52 + k) \<le> real_of_int N" using lo
      by (metis of_int_le_iff of_int_numeral of_int_power)
    then show ?thesis unfolding powr_int_diff by (simp add: divide_right_mono)
  qed
  have hi': "?x < 2 powr of_int (int (52 + k) - int s + 1)"
  proof -
    have "real_of_int N < 2 ^ (53 + k)" using hi
      by (metis of_int_less_iff of_int_numeral of_int_power)
    moreover have "int (52 + k) - int s + 1 = int (53 + k) - int s" by simp
    ultimately show ?thesis unfolding \<open>int (52 + k) - int s + 1 = int (53 + k) - int s\<close>
        powr_int_diff by (simp add: divide_strict_right_mono)
  qed
  have ab: "\<bar>?x\<bar> = ?x" using xpos by (rule abs_of_pos)
  have hi'': "?x < 2 powr (of_int (int (52 + k) - int s) + 1)"
    using hi' by (simp only: of_int_add of_int_1)
  have "\<lfloor>log 2 ?x\<rfloor> = int (52 + k) - int s"
    using floor_log_eq_powr_iff [OF xpos, of 2 "int (52 + k) - int s"] lo' hi'' by fastforce
  then have fl: "\<lfloor>log 2 \<bar>?x\<bar>\<rfloor> = int (52 + k) - int s"
    unfolding ab .
  have e: "\<lfloor>log 2 \<bar>?x\<bar>\<rfloor> - 52 = int k - int s" using fl by simp
  have p: "(2::real) powr of_int (int k - int s) = 2 ^ k / 2 ^ s" by (rule powr_int_diff)
  have q: "?x / (2 ^ k / 2 ^ s) = real_of_int N / 2 ^ k" by simp
  have nz: "?x \<noteq> 0" using Npos by simp
  have "round_to_double ?x =
          of_int (round_half_even (?x / 2 powr of_int (\<lfloor>log 2 \<bar>?x\<bar>\<rfloor> - 52)))
            * 2 powr of_int (\<lfloor>log 2 \<bar>?x\<bar>\<rfloor> - 52)"
    unfolding round_to_double_def Let_def using nz by (rule if_not_P)
  also have "\<dots> = of_int (round_half_even (real_of_int N / 2 ^ k)) * (2 ^ k / 2 ^ s)"
    unfolding e p q ..
  finally show ?thesis by simp
qed

lemma round_half_even_of_int [simp]: "round_half_even (of_int n) = n"
  by (simp add: round_half_even_def Let_def)

text \<open>A number with 53 significant bits is not changed.\<close>

lemma round_to_double_exact:
  fixes N :: int
  assumes "2 ^ 52 \<le> N" and "N < 2 ^ 53"
  shows "round_to_double (of_int N / 2 ^ s) = of_int N / 2 ^ s"
  using round_to_double_dyadic [of 0 N s] assms by simp

section \<open>Richards\_PK: DeriveFaceValuesFromCellValues\<close>

text \<open>
  The mesh is an external collaborator.  \<open>face_get_cells_owned f\<close> is the list that
  \<open>mesh_->face_get_cells(f, OWNED, &cells)\<close> returns.
\<close>

text \<open>The inner loop \<open>for (n = 0; n < ncells; n++) face_value += ucells[cells[n]]\<close>.\<close>

definition add_cell_value :: "real list \<Rightarrow> nat \<Rightarrow> real \<Rightarrow> error + real" where
  "add_cell_value ucells c face_value =
     (case vec_get ucells c of Inl e \<Rightarrow> Inl e | Inr u \<Rightarrow> Inr (face_value + u))"

definition derive_face_value ::
  "(nat \<Rightarrow> nat list) \<Rightarrow> real \<Rightarrow> real list \<Rightarrow> nat \<Rightarrow> real list \<Rightarrow> error + real list" where
  "derive_face_value face_get_cells_owned atm_pressure ucells f ufaces =
     (let cells = face_get_cells_owned f; ncells = length cells in
      if ncells > 0 then
        (case foreach cells (add_cell_value ucells) 0 of
           Inl e \<Rightarrow> Inl e
         | Inr face_value \<Rightarrow> vec_set ufaces f (face_value / real ncells))
      else vec_set ufaces f atm_pressure)"

definition DeriveFaceValuesFromCellValues ::
  "nat \<Rightarrow> (nat \<Rightarrow> nat list) \<Rightarrow> real \<Rightarrow> real list \<Rightarrow> real list \<Rightarrow> error + real list" where
  "DeriveFaceValuesFromCellValues nfaces_owned face_get_cells_owned atm_pressure ucells ufaces =
     foreach [0..<nfaces_owned]
       (derive_face_value face_get_cells_owned atm_pressure ucells) ufaces"

lemma foreach_append:
  "foreach (xs @ ys) body s =
     (case foreach xs body s of Inl e \<Rightarrow> Inl e | Inr s' \<Rightarrow> foreach ys body s')"
  by (induction xs arbitrary: s) (auto split: sum.splits)

lemma sum_cells_ok:
  "\<forall>c \<in> set cells. c < length ucells \<Longrightarrow>
   foreach cells (add_cell_value ucells) acc = Inr (acc + sum_list (map ((!) ucells) cells))"
  by (induction cells arbitrary: acc) (auto simp: add_cell_value_def vec_get_def)

definition mean_or_atm :: "(nat \<Rightarrow> nat list) \<Rightarrow> real \<Rightarrow> real list \<Rightarrow> nat \<Rightarrow> real" where
  "mean_or_atm face_get_cells_owned atm_pressure ucells f =
     (let cells = face_get_cells_owned f in
      if cells = [] then atm_pressure
      else sum_list (map ((!) ucells) cells) / real (length cells))"

lemma derive_face_value_ok:
  assumes "f < length ufaces" and "\<forall>c \<in> set (face_get_cells_owned f). c < length ucells"
  shows "derive_face_value face_get_cells_owned atm ucells f ufaces =
           Inr (ufaces[f := mean_or_atm face_get_cells_owned atm ucells f])"
  using assms
  by (simp add: derive_face_value_def Let_def sum_cells_ok vec_set_def mean_or_atm_def)

lemma derive_loop_ok:
  assumes "n \<le> length ufaces"
    and "\<forall>f < n. \<forall>c \<in> set (face_get_cells_owned f). c < length ucells"
  shows "\<exists>uf'. foreach [0..<n] (derive_face_value face_get_cells_owned atm ucells) ufaces = Inr uf'
           \<and> length uf' = length ufaces
           \<and> (\<forall>f < n. uf' ! f = mean_or_atm face_get_cells_owned atm ucells f)
           \<and> (\<forall>f \<ge> n. uf' ! f = ufaces ! f)"
  using assms
proof (induction n)
  case 0
  then show ?case by simp
next
  case (Suc n)
  have p1: "n \<le> length ufaces" using Suc.prems(1) by simp
  have p2: "\<forall>f < n. \<forall>c \<in> set (face_get_cells_owned f). c < length ucells"
    using Suc.prems(2) by (meson less_SucI)
  from Suc.IH [OF p1 p2] obtain uf' where
    run: "foreach [0..<n] (derive_face_value face_get_cells_owned atm ucells) ufaces = Inr uf'"
    and len: "length uf' = length ufaces"
    and lo: "\<forall>f < n. uf' ! f = mean_or_atm face_get_cells_owned atm ucells f"
    and hi: "\<forall>f \<ge> n. uf' ! f = ufaces ! f"
    by blast
  have step: "derive_face_value face_get_cells_owned atm ucells n uf' =
                Inr (uf'[n := mean_or_atm face_get_cells_owned atm ucells n])"
    using Suc.prems len by (intro derive_face_value_ok) auto
  have "foreach [0..<Suc n] (derive_face_value face_get_cells_owned atm ucells) ufaces =
          Inr (uf'[n := mean_or_atm face_get_cells_owned atm ucells n])"
    by (simp add: foreach_append run step)
  moreover have "\<forall>f < Suc n. (uf'[n := mean_or_atm face_get_cells_owned atm ucells n]) ! f =
                   mean_or_atm face_get_cells_owned atm ucells f"
    using lo len Suc.prems(1) by (auto simp: nth_list_update less_Suc_eq)
  moreover have "\<forall>f \<ge> Suc n. (uf'[n := mean_or_atm face_get_cells_owned atm ucells n]) ! f =
                   ufaces ! f"
    using hi by auto
  ultimately show ?case using len by simp
qed

text \<open>
  Claim C7.  For every owned face \<open>f\<close>, DeriveFaceValuesFromCellValues sets the face value to
  the arithmetic mean of the cell values of the owned cells adjacent to \<open>f\<close> when there is at
  least one, and to the reference atmospheric pressure when there is none; no other entry of
  the face vector is written.  (The mesh is well formed: the face vector holds the owned
  faces and every adjacent owned cell is an entry of the cell vector.)
\<close>

theorem DeriveFaceValuesFromCellValues_mean:
  assumes "nfaces_owned \<le> length ufaces"
    and "\<forall>f < nfaces_owned. \<forall>c \<in> set (face_get_cells_owned f). c < length ucells"
  shows "\<exists>uf'. DeriveFaceValuesFromCellValues nfaces_owned face_get_cells_owned atm ucells ufaces
                 = Inr uf'
           \<and> length uf' = length ufaces
           \<and> (\<forall>f < nfaces_owned.
                 uf' ! f = (if face_get_cells_owned f = [] then atm
                            else sum_list (map ((!) ucells) (face_get_cells_owned f))
                                   / real (length (face_get_cells_owned f))))
           \<and> (\<forall>f \<ge> nfaces_owned. uf' ! f = ufaces ! f)"
  using derive_loop_ok [OF assms, of atm]
  by (simp add: DeriveFaceValuesFromCellValues_def mean_or_atm_def Let_def)

theorem DeriveFaceValuesFromCellValues_mean_witness:
  "\<exists>uf'. DeriveFaceValuesFromCellValues 3
            (\<lambda>f. if f = 0 then [0] else if f = 1 then [0, 1] else [])
            101325 [2, 4] [0, 0, 0, 7] = Inr uf'
         \<and> uf' ! 0 = 2 \<and> uf' ! 1 = 3 \<and> uf' ! 2 = 101325 \<and> uf' ! 3 = 7"
proof -
  let ?fc = "\<lambda>f::nat. if f = 0 then [0::nat] else if f = 1 then [0, 1] else []"
  have h1: "(3::nat) \<le> length [0, 0, 0, 7::real]" by simp
  have h2: "\<forall>f < 3. \<forall>c \<in> set (?fc f). c < length [2, 4::real]" by auto
  from DeriveFaceValuesFromCellValues_mean [OF h1 h2, of 101325] obtain uf' where
    run: "DeriveFaceValuesFromCellValues 3 ?fc 101325 [2, 4] [0, 0, 0, 7] = Inr uf'"
    and own: "\<forall>f < 3. uf' ! f = (if ?fc f = [] then 101325
                 else sum_list (map ((!) [2, 4]) (?fc f)) / real (length (?fc f)))"
    and rest: "\<forall>f \<ge> 3. uf' ! f = [0, 0, 0, 7] ! f"
    by blast
  have "uf' ! 0 = 2" using own [rule_format, of 0] by simp
  moreover have "uf' ! 1 = 3" using own [rule_format, of 1] by simp
  moreover have "uf' ! 2 = 101325" using own [rule_format, of 2] by simp
  moreover have "uf' ! 3 = 7" using rest [rule_format, of 3] by simp
  ultimately show ?thesis using run by blast
qed

section \<open>OperatorDiffusionMFD: local matrices and boundary conditions\<close>

text \<open>
  A \<open>WhetStone::DenseMatrix\<close>: its dimensions and its entries.  Element access
  \<open>A(i, j)\<close> is \<open>elem A i j\<close>; the C++ operator performs no bounds check and every index
  used below is smaller than the dimension the source allocates.
\<close>

record DenseMatrix =
  NumRows :: nat
  NumCols :: nat
  elem :: "nat \<Rightarrow> nat \<Rightarrow> real"

definition mat_set :: "DenseMatrix \<Rightarrow> nat \<Rightarrow> nat \<Rightarrow> real \<Rightarrow> DenseMatrix" where
  "mat_set A i j x = A\<lparr>elem := (elem A)(i := (elem A i)(j := x))\<rparr>"

text \<open>The entries of \<open>bc_model\<close>; every marker without a branch in ApplyBCs is \<open>OPERATOR_BC_NONE\<close>.\<close>

datatype bc_kind = OPERATOR_BC_NONE | OPERATOR_BC_DIRICHLET | OPERATOR_BC_NEUMANN | OPERATOR_BC_MIXED

record BCs =
  bc_model :: "nat \<Rightarrow> bc_kind"
  bc_value :: "nat \<Rightarrow> real"
  bc_mixed :: "nat \<Rightarrow> real"

text \<open>
  The state ApplyBCs works on: the local matrices and their shadow copies (indexed by
  cell; a shadow that was never saved has no rows), and the face and cell components of the
  right-hand side of the global operator (indexed by entity id).
\<close>

record bc_state =
  matrices :: "nat \<Rightarrow> DenseMatrix"
  matrices_shadow :: "nat \<Rightarrow> DenseMatrix"
  rhs_face :: "nat \<Rightarrow> real"
  rhs_cell :: "nat \<Rightarrow> real"

text \<open>
  One pass of the loop \<open>for (m = 0; m < nfaces; m++)\<close> of the Dirichlet branch:
  \<open>rhs_face[0][faces[m]] -= Acell(m, n) * value;  Acell(n, m) = Acell(m, n) = 0.0;\<close>
\<close>

definition eliminate_entry ::
  "nat list \<Rightarrow> nat \<Rightarrow> real \<Rightarrow> nat \<Rightarrow> DenseMatrix \<times> (nat \<Rightarrow> real) \<Rightarrow> DenseMatrix \<times> (nat \<Rightarrow> real)" where
  "eliminate_entry faces n val m = (\<lambda>(Acell, rhsf).
     (mat_set (mat_set Acell m n 0) n m 0,
      rhsf(faces ! m := rhsf (faces ! m) - elem Acell m n * val)))"

text \<open>The copy \<open>if (flag) { matrices_shadow[c] = Acell; flag = false; }\<close>.\<close>

definition save_shadow :: "nat \<Rightarrow> bool \<times> bc_state \<Rightarrow> bool \<times> bc_state" where
  "save_shadow c = (\<lambda>(flag, st).
     if flag then (False, st\<lparr>matrices_shadow := (matrices_shadow st)(c := matrices st c)\<rparr>)
     else (flag, st))"

text \<open>The body of the loop over the local faces \<open>n\<close> of cell \<open>c\<close>.\<close>

definition apply_bc_face ::
  "bool \<Rightarrow> BCs \<Rightarrow> (nat \<Rightarrow> real) \<Rightarrow> nat \<Rightarrow> nat list \<Rightarrow> nat \<Rightarrow> bool \<times> bc_state \<Rightarrow> bool \<times> bc_state" where
  "apply_bc_face primary bc face_area c faces n fs =
     (let nfaces = length faces; f = faces ! n; val = bc_value bc f in
      if bc_model bc f = OPERATOR_BC_DIRICHLET then
        (let (flag, st) = save_shadow c fs;
             (A1, rf1) = fold (eliminate_entry faces n val) [0..<nfaces] (matrices st c, rhs_face st);
             (A2, rf2) = (if primary then (mat_set A1 n n 1, rf1(f := val)) else (A1, rf1));
             rc = (rhs_cell st)(c := rhs_cell st c - elem A2 nfaces n * val);
             A3 = mat_set (mat_set A2 nfaces n 0) n nfaces 0
         in (flag, st\<lparr>matrices := (matrices st)(c := A3), rhs_face := rf2, rhs_cell := rc\<rparr>))
      else if bc_model bc f = OPERATOR_BC_NEUMANN then
        (let (flag, st) = fs
         in (flag, st\<lparr>rhs_face := (rhs_face st)(f := rhs_face st f - val * face_area f)\<rparr>))
      else if bc_model bc f = OPERATOR_BC_MIXED then
        (let (flag, st) = save_shadow c fs;
             area = face_area f;
             Acell = matrices st c
         in (flag, st\<lparr>rhs_face := (rhs_face st)(f := rhs_face st f - val * area),
                        matrices := (matrices st)(c := mat_set Acell n n (elem Acell n n + bc_mixed bc f * area))\<rparr>))
      else fs)"

text \<open>The body of the loop over the owned cells: \<open>flag\<close> starts as true in every cell.\<close>

definition apply_bc_cell ::
  "bool \<Rightarrow> BCs \<Rightarrow> (nat \<Rightarrow> real) \<Rightarrow> (nat \<Rightarrow> nat list) \<Rightarrow> nat \<Rightarrow> bc_state \<Rightarrow> bc_state" where
  "apply_bc_cell primary bc face_area cell_get_faces c st =
     (let faces = cell_get_faces c
      in snd (fold (apply_bc_face primary bc face_area c faces) [0..<length faces] (True, st)))"

text \<open>
  ApplyBCs for the schema CELL base with FACE and CELL degrees of freedom.  The right-hand
  side is first set to zero (\<open>PutScalarGhosted(0.)\<close>).  The final
  \<open>GatherGhostedToMaster\<close> adds the values other processes hold for the faces of this one;
  the model is that of one process.
\<close>

definition ApplyBCs ::
  "bool \<Rightarrow> BCs \<Rightarrow> (nat \<Rightarrow> real) \<Rightarrow> (nat \<Rightarrow> nat list) \<Rightarrow> nat \<Rightarrow> bc_state \<Rightarrow> bc_state" where
  "ApplyBCs primary bc face_area cell_get_faces ncells_owned st =
     fold (apply_bc_cell primary bc face_area cell_get_faces) [0..<ncells_owned]
       (st\<lparr>rhs_face := (\<lambda>f. 0), rhs_cell := (\<lambda>c. 0)\<rparr>)"

text \<open>
  The result of ApplyBCs in closed form.  For a cell with the faces \<open>faces\<close> and the
  matrix \<open>A\<close> at the call, after the passes for its first \<open>k\<close> local faces:
  \<open>bc_matrix\<close> gives the entries of the matrix (the rows and columns of the Dirichlet
  faces are eliminated, the diagonal entries of the faces with a mixed condition have
  their term added), \<open>bc_rhs_face\<close> what the passes have subtracted from the
  right-hand-side entry of the face of local row \<open>m\<close>, and \<open>bc_rhs_cell\<close> what they have
  subtracted from the entry of the cell.  The pass for a Dirichlet face \<open>n\<close> subtracts
  \<open>Acell(m, n) * value\<close> with the current matrix, in which the entry is already zero
  when \<open>m\<close> is a Dirichlet face that was eliminated before \<open>n\<close>.
\<close>

definition bc_matrix ::
  "bool \<Rightarrow> BCs \<Rightarrow> (nat \<Rightarrow> real) \<Rightarrow> nat list \<Rightarrow> nat \<Rightarrow> DenseMatrix \<Rightarrow> nat \<Rightarrow> nat \<Rightarrow> real" where
  "bc_matrix primary bc face_area faces k A i j =
     (if (i < k \<and> bc_model bc (faces ! i) = OPERATOR_BC_DIRICHLET \<and> j \<le> length faces)
         \<or> (j < k \<and> bc_model bc (faces ! j) = OPERATOR_BC_DIRICHLET \<and> i \<le> length faces)
      then (if i = j \<and> primary then 1 else 0)
      else if i = j \<and> i < k \<and> bc_model bc (faces ! i) = OPERATOR_BC_MIXED
      then elem A i i + bc_mixed bc (faces ! i) * face_area (faces ! i)
      else elem A i j)"

definition bc_rhs_face ::
  "BCs \<Rightarrow> (nat \<Rightarrow> real) \<Rightarrow> nat list \<Rightarrow> nat \<Rightarrow> DenseMatrix \<Rightarrow> nat \<Rightarrow> real" where
  "bc_rhs_face bc face_area faces k A m =
     (\<Sum>n \<leftarrow> [0..<k].
        if bc_model bc (faces ! n) = OPERATOR_BC_DIRICHLET
           \<and> \<not> (bc_model bc (faces ! m) = OPERATOR_BC_DIRICHLET \<and> m < n)
        then elem A m n * bc_value bc (faces ! n) else 0)
     + (if m < k \<and> (bc_model bc (faces ! m) = OPERATOR_BC_NEUMANN
                      \<or> bc_model bc (faces ! m) = OPERATOR_BC_MIXED)
        then bc_value bc (faces ! m) * face_area (faces ! m) else 0)"

definition bc_rhs_cell :: "BCs \<Rightarrow> nat list \<Rightarrow> nat \<Rightarrow> DenseMatrix \<Rightarrow> real" where
  "bc_rhs_cell bc faces k A =
     (\<Sum>n \<leftarrow> [0..<k].
        if bc_model bc (faces ! n) = OPERATOR_BC_DIRICHLET
        then elem A (length faces) n * bc_value bc (faces ! n) else 0)"

text \<open>
  The state after the first \<open>k\<close> local faces of cell \<open>c\<close>, in terms of the state \<open>st\<close>
  before the cell.
\<close>

definition faces_applied ::
  "bool \<Rightarrow> BCs \<Rightarrow> (nat \<Rightarrow> real) \<Rightarrow> nat \<Rightarrow> nat list \<Rightarrow> nat \<Rightarrow> bc_state \<Rightarrow> bool \<Rightarrow> bc_state \<Rightarrow> bool" where
  "faces_applied primary bc face_area c faces k st flag' st' \<longleftrightarrow>
     (\<forall>c'. c' \<noteq> c \<longrightarrow> matrices st' c' = matrices st c')
   \<and> NumRows (matrices st' c) = NumRows (matrices st c)
   \<and> NumCols (matrices st' c) = NumCols (matrices st c)
   \<and> (\<forall>i j. elem (matrices st' c) i j = bc_matrix primary bc face_area faces k (matrices st c) i j)
   \<and> (flag' \<longleftrightarrow> (\<forall>n < k. bc_model bc (faces ! n) \<noteq> OPERATOR_BC_DIRICHLET
                         \<and> bc_model bc (faces ! n) \<noteq> OPERATOR_BC_MIXED))
   \<and> (flag' \<longrightarrow> matrices st' c = matrices st c)
   \<and> matrices_shadow st' =
        (if flag' then matrices_shadow st else (matrices_shadow st)(c := matrices st c))
   \<and> rhs_cell st' = (rhs_cell st)(c := rhs_cell st c - bc_rhs_cell bc faces k (matrices st c))
   \<and> (\<forall>g. g \<notin> set faces \<longrightarrow> rhs_face st' g = rhs_face st g)
   \<and> (\<forall>m < length faces. rhs_face st' (faces ! m) =
        (if primary \<and> bc_model bc (faces ! m) = OPERATOR_BC_DIRICHLET \<and> m < k
         then bc_value bc (faces ! m)
         else rhs_face st (faces ! m) - bc_rhs_face bc face_area faces k (matrices st c) m))"

text \<open>
  What cell \<open>c\<close> subtracts from the entry of face \<open>g\<close> of the right-hand side: the value
  for the local row of \<open>g\<close>, when \<open>g\<close> is a face of \<open>c\<close>.
\<close>

definition bc_rhs_face_of_cell ::
  "BCs \<Rightarrow> (nat \<Rightarrow> real) \<Rightarrow> nat list \<Rightarrow> DenseMatrix \<Rightarrow> nat \<Rightarrow> real" where
  "bc_rhs_face_of_cell bc face_area faces A g =
     (\<Sum>m \<leftarrow> [0..<length faces].
        if faces ! m = g then bc_rhs_face bc face_area faces (length faces) A m else 0)"

text \<open>The state after the first \<open>k\<close> cells, in terms of the state \<open>st\<close> ApplyBCs is called in.\<close>

definition cells_applied ::
  "bool \<Rightarrow> BCs \<Rightarrow> (nat \<Rightarrow> real) \<Rightarrow> (nat \<Rightarrow> nat list) \<Rightarrow> nat \<Rightarrow> bc_state \<Rightarrow> bc_state \<Rightarrow> bool" where
  "cells_applied primary bc face_area cell_get_faces k st st' \<longleftrightarrow>
     (\<forall>c < k. NumRows (matrices st' c) = NumRows (matrices st c)
            \<and> NumCols (matrices st' c) = NumCols (matrices st c)
            \<and> (\<forall>i j. elem (matrices st' c) i j =
                  bc_matrix primary bc face_area (cell_get_faces c) (length (cell_get_faces c))
                    (matrices st c) i j))
   \<and> (\<forall>c \<ge> k. matrices st' c = matrices st c)
   \<and> (\<forall>c. matrices_shadow st' c =
          (if c < k \<and> (\<exists>n < length (cell_get_faces c).
                 bc_model bc (cell_get_faces c ! n) = OPERATOR_BC_DIRICHLET
               \<or> bc_model bc (cell_get_faces c ! n) = OPERATOR_BC_MIXED)
           then matrices st c else matrices_shadow st c))
   \<and> (\<forall>c. rhs_cell st' c =
          (if c < k
           then - bc_rhs_cell bc (cell_get_faces c) (length (cell_get_faces c)) (matrices st c)
           else 0))
   \<and> (\<forall>g. rhs_face st' g =
          (if primary \<and> bc_model bc g = OPERATOR_BC_DIRICHLET
              \<and> (\<exists>c < k. g \<in> set (cell_get_faces c))
           then bc_value bc g
           else - (\<Sum>c \<leftarrow> [0..<k].
                     bc_rhs_face_of_cell bc face_area (cell_get_faces c) (matrices st c) g)))"

text \<open>
  Two cells with the faces \<open>0, 1, 2\<close> and \<open>2, 3\<close>; the faces 0 and 1 of the first cell
  carry Dirichlet conditions with the values 5 and 7, face 3 a Neumann condition.
\<close>

definition two_cells :: "nat \<Rightarrow> nat list" where
  "two_cells c = (if c = 0 then [0, 1, 2] else [2, 3])"

definition two_cells_bc :: BCs where
  "two_cells_bc =
     \<lparr>bc_model = (\<lambda>f. if f = 0 \<or> f = 1 then OPERATOR_BC_DIRICHLET
                      else if f = 3 then OPERATOR_BC_NEUMANN else OPERATOR_BC_NONE),
      bc_value = (\<lambda>f. if f = 0 then 5 else if f = 1 then 7 else 2),
      bc_mixed = (\<lambda>f. 0)\<rparr>"

definition two_cells_state :: bc_state where
  "two_cells_state =
     \<lparr>matrices = (\<lambda>c. \<lparr>NumRows = 4, NumCols = 4, elem = (\<lambda>i j. real (4 * i + j + 1))\<rparr>),
      matrices_shadow = (\<lambda>c. \<lparr>NumRows = 0, NumCols = 0, elem = (\<lambda>i j. 0)\<rparr>),
      rhs_face = (\<lambda>f. 9), rhs_cell = (\<lambda>c. 9)\<rparr>"

lemma elem_mat_set [simp]:
  "elem (mat_set A i j x) k l = (if k = i \<and> l = j then x else elem A k l)"
  by (simp add: mat_set_def)

lemma NumRows_mat_set [simp]: "NumRows (mat_set A i j x) = NumRows A"
  and NumCols_mat_set [simp]: "NumCols (mat_set A i j x) = NumCols A"
  by (simp_all add: mat_set_def)

lemma eliminate_loop:
  assumes "distinct faces" and "k \<le> length faces"
  shows "\<exists>A' rf'. fold (eliminate_entry faces n val) [0..<k] (A, rf) = (A', rf')
           \<and> (\<forall>i j. elem A' i j = (if (i = n \<and> j < k) \<or> (j = n \<and> i < k) then 0 else elem A i j))
           \<and> (\<forall>m < k. rf' (faces ! m) = rf (faces ! m) - elem A m n * val)
           \<and> (\<forall>g. g \<notin> set (take k faces) \<longrightarrow> rf' g = rf g)"
  using assms(2)
proof (induction k)
  case 0
  then show ?case by simp
next
  case (Suc k)
  have kl: "k \<le> length faces" and klt: "k < length faces" using Suc.prems by simp_all
  from Suc.IH [OF kl] obtain A' rf' where
    run: "fold (eliminate_entry faces n val) [0..<k] (A, rf) = (A', rf')"
    and mat: "\<forall>i j. elem A' i j = (if (i = n \<and> j < k) \<or> (j = n \<and> i < k) then 0 else elem A i j)"
    and low: "\<forall>m < k. rf' (faces ! m) = rf (faces ! m) - elem A m n * val"
    and out: "\<forall>g. g \<notin> set (take k faces) \<longrightarrow> rf' g = rf g"
    by blast
  let ?A = "mat_set (mat_set A' k n 0) n k 0"
  let ?rf = "rf'(faces ! k := rf' (faces ! k) - elem A' k n * val)"
  have step: "fold (eliminate_entry faces n val) [0..<Suc k] (A, rf) = (?A, ?rf)"
    by (simp add: run eliminate_entry_def)
  have fresh: "faces ! k \<notin> set (take k faces)"
    using assms(1) klt by (metis distinct_take id_take_nth_drop distinct_append disjoint_iff list.set_intros(1))
  have akn: "elem A' k n = elem A k n" using mat by simp
  have m1: "\<forall>i j. elem ?A i j = (if (i = n \<and> j < Suc k) \<or> (j = n \<and> i < Suc k) then 0 else elem A i j)"
    using mat by (auto simp: less_Suc_eq)
  have m2: "\<forall>m < Suc k. ?rf (faces ! m) = rf (faces ! m) - elem A m n * val"
  proof (intro allI impI)
    fix m assume "m < Suc k"
    show "?rf (faces ! m) = rf (faces ! m) - elem A m n * val"
    proof (cases "m = k")
      case True
      then show ?thesis using out fresh akn by simp
    next
      case False
      with \<open>m < Suc k\<close> have mk: "m < k" by simp
      then have "faces ! m \<noteq> faces ! k"
        using assms(1) klt by (simp add: nth_eq_iff_index_eq)
      then show ?thesis using low mk by simp
    qed
  qed
  have m3: "\<forall>g. g \<notin> set (take (Suc k) faces) \<longrightarrow> ?rf g = rf g"
    using out klt by (auto simp: take_Suc_conv_app_nth)
  show ?case using step m1 m2 m3 by blast
qed

lemma eliminate_dims:
  "NumRows (fst (fold (eliminate_entry faces n val) xs (A, rf))) = NumRows A
   \<and> NumCols (fst (fold (eliminate_entry faces n val) xs (A, rf))) = NumCols A"
  by (induction xs arbitrary: A rf) (simp_all add: eliminate_entry_def)

text \<open>The four branches of the body of the loop over the local faces.\<close>

lemma apply_bc_face_none:
  assumes "bc_model bc (faces ! n) = OPERATOR_BC_NONE"
  shows "apply_bc_face primary bc face_area c faces n fs = fs"
  using assms by (simp add: apply_bc_face_def Let_def)

lemma apply_bc_face_neumann:
  assumes "bc_model bc (faces ! n) = OPERATOR_BC_NEUMANN"
  shows "apply_bc_face primary bc face_area c faces n (flag, st) =
     (flag, st\<lparr>rhs_face := (rhs_face st)(faces ! n :=
               rhs_face st (faces ! n) - bc_value bc (faces ! n) * face_area (faces ! n))\<rparr>)"
  using assms by (simp add: apply_bc_face_def Let_def)

lemma apply_bc_face_mixed:
  assumes "bc_model bc (faces ! n) = OPERATOR_BC_MIXED"
  shows "apply_bc_face primary bc face_area c faces n (flag, st) =
     (False,
      st\<lparr>matrices_shadow := (if flag then (matrices_shadow st)(c := matrices st c)
                              else matrices_shadow st),
         rhs_face := (rhs_face st)(faces ! n :=
               rhs_face st (faces ! n) - bc_value bc (faces ! n) * face_area (faces ! n)),
         matrices := (matrices st)(c := mat_set (matrices st c) n n
               (elem (matrices st c) n n + bc_mixed bc (faces ! n) * face_area (faces ! n)))\<rparr>)"
  using assms by (simp add: apply_bc_face_def save_shadow_def Let_def)

lemma apply_bc_face_dirichlet:
  assumes "bc_model bc (faces ! n) = OPERATOR_BC_DIRICHLET"
    and "fold (eliminate_entry faces n (bc_value bc (faces ! n))) [0..<length faces]
           (matrices st c, rhs_face st) = (A1, rf1)"
  shows "apply_bc_face primary bc face_area c faces n (flag, st) =
     (False,
      st\<lparr>matrices_shadow := (if flag then (matrices_shadow st)(c := matrices st c)
                              else matrices_shadow st),
         matrices := (matrices st)(c :=
             mat_set (mat_set (if primary then mat_set A1 n n 1 else A1) (length faces) n 0)
               n (length faces) 0),
         rhs_face := (if primary then rf1(faces ! n := bc_value bc (faces ! n)) else rf1),
         rhs_cell := (rhs_cell st)(c := rhs_cell st c
             - elem (if primary then mat_set A1 n n 1 else A1) (length faces) n
               * bc_value bc (faces ! n))\<rparr>)"
  using assms by (simp add: apply_bc_face_def save_shadow_def Let_def)

lemma bc_matrix_Suc_dirichlet:
  assumes "bc_model bc (faces ! k) = OPERATOR_BC_DIRICHLET" and "k < length faces"
  shows "bc_matrix primary bc face_area faces (Suc k) A i j =
     (if (i = k \<and> j \<le> length faces) \<or> (j = k \<and> i \<le> length faces)
      then (if i = j \<and> primary then 1 else 0)
      else bc_matrix primary bc face_area faces k A i j)"
  using assms by (auto simp: bc_matrix_def less_Suc_eq)

lemma bc_matrix_Suc_mixed:
  assumes "bc_model bc (faces ! k) = OPERATOR_BC_MIXED" and "k < length faces"
  shows "bc_matrix primary bc face_area faces (Suc k) A i j =
     (if i = k \<and> j = k then elem A k k + bc_mixed bc (faces ! k) * face_area (faces ! k)
      else bc_matrix primary bc face_area faces k A i j)"
  using assms by (auto simp: bc_matrix_def less_Suc_eq)

lemma bc_matrix_Suc_other:
  assumes "bc_model bc (faces ! k) \<noteq> OPERATOR_BC_DIRICHLET"
    and "bc_model bc (faces ! k) \<noteq> OPERATOR_BC_MIXED"
  shows "bc_matrix primary bc face_area faces (Suc k) A i j =
           bc_matrix primary bc face_area faces k A i j"
  using assms by (auto simp: bc_matrix_def less_Suc_eq)

lemma bc_matrix_column:
  assumes "k < length faces"
  shows "bc_matrix primary bc face_area faces k A m k =
     (if m < k \<and> bc_model bc (faces ! m) = OPERATOR_BC_DIRICHLET then 0 else elem A m k)"
  using assms by (auto simp: bc_matrix_def)

lemma faces_applied_0: "faces_applied primary bc face_area c faces 0 st True st"
  by (simp add: faces_applied_def bc_matrix_def bc_rhs_face_def bc_rhs_cell_def)

lemma faces_applied_none:
  assumes inv: "faces_applied primary bc face_area c faces k st flag' st'"
    and no: "bc_model bc (faces ! k) = OPERATOR_BC_NONE"
  shows "faces_applied primary bc face_area c faces (Suc k) st flag' st'"
proof -
  have nd: "bc_model bc (faces ! k) \<noteq> OPERATOR_BC_DIRICHLET"
    "bc_model bc (faces ! k) \<noteq> OPERATOR_BC_MIXED"
    "bc_model bc (faces ! k) \<noteq> OPERATOR_BC_NEUMANN"
    using no by simp_all
  have m: "bc_matrix primary bc face_area faces (Suc k) A i j =
           bc_matrix primary bc face_area faces k A i j" for A i j
    using nd(1,2) by (rule bc_matrix_Suc_other)
  have f: "bc_rhs_face bc face_area faces (Suc k) A m = bc_rhs_face bc face_area faces k A m"
    if "m < length faces" for A m
    using nd by (auto simp: bc_rhs_face_def less_Suc_eq)
  have cl: "bc_rhs_cell bc faces (Suc k) A = bc_rhs_cell bc faces k A" for A
    using nd by (simp add: bc_rhs_cell_def)
  have fl: "(\<forall>n < Suc k. bc_model bc (faces ! n) \<noteq> OPERATOR_BC_DIRICHLET
                         \<and> bc_model bc (faces ! n) \<noteq> OPERATOR_BC_MIXED)
            \<longleftrightarrow> (\<forall>n < k. bc_model bc (faces ! n) \<noteq> OPERATOR_BC_DIRICHLET
                         \<and> bc_model bc (faces ! n) \<noteq> OPERATOR_BC_MIXED)"
    using nd by (auto simp: less_Suc_eq)
  have lt: "(primary \<and> bc_model bc (faces ! m) = OPERATOR_BC_DIRICHLET \<and> m < Suc k)
            \<longleftrightarrow> (primary \<and> bc_model bc (faces ! m) = OPERATOR_BC_DIRICHLET \<and> m < k)" for m
    using nd by (auto simp: less_Suc_eq)
  show ?thesis
    using inv unfolding faces_applied_def m cl fl lt by (simp add: f)
qed

lemma faces_applied_neumann:
  assumes inv: "faces_applied primary bc face_area c faces k st flag' st'"
    and ne: "bc_model bc (faces ! k) = OPERATOR_BC_NEUMANN"
    and dist: "distinct faces" and klt: "k < length faces"
  shows "faces_applied primary bc face_area c faces (Suc k) st flag'
           (st'\<lparr>rhs_face := (rhs_face st')(faces ! k :=
               rhs_face st' (faces ! k) - bc_value bc (faces ! k) * face_area (faces ! k))\<rparr>)"
proof -
  have nd: "bc_model bc (faces ! k) \<noteq> OPERATOR_BC_DIRICHLET"
    "bc_model bc (faces ! k) \<noteq> OPERATOR_BC_MIXED"
    using ne by simp_all
  have m: "bc_matrix primary bc face_area faces (Suc k) A i j =
           bc_matrix primary bc face_area faces k A i j" for A i j
    using nd by (rule bc_matrix_Suc_other)
  have f: "bc_rhs_face bc face_area faces (Suc k) A m = bc_rhs_face bc face_area faces k A m
             + (if m = k then bc_value bc (faces ! k) * face_area (faces ! k) else 0)"
    for A m
    using nd ne by (auto simp: bc_rhs_face_def less_Suc_eq)
  have cl: "bc_rhs_cell bc faces (Suc k) A = bc_rhs_cell bc faces k A" for A
    using nd by (simp add: bc_rhs_cell_def)
  have fl: "(\<forall>n < Suc k. bc_model bc (faces ! n) \<noteq> OPERATOR_BC_DIRICHLET
                         \<and> bc_model bc (faces ! n) \<noteq> OPERATOR_BC_MIXED)
            \<longleftrightarrow> (\<forall>n < k. bc_model bc (faces ! n) \<noteq> OPERATOR_BC_DIRICHLET
                         \<and> bc_model bc (faces ! n) \<noteq> OPERATOR_BC_MIXED)"
    using nd by (auto simp: less_Suc_eq)
  have lt: "(primary \<and> bc_model bc (faces ! m) = OPERATOR_BC_DIRICHLET \<and> m < Suc k)
            \<longleftrightarrow> (primary \<and> bc_model bc (faces ! m) = OPERATOR_BC_DIRICHLET \<and> m < k)" for m
    using nd by (auto simp: less_Suc_eq)
  have neq: "faces ! m = faces ! k \<longleftrightarrow> m = k" if "m < length faces" for m
    using dist klt that by (simp add: nth_eq_iff_index_eq)
  have inset: "faces ! k \<in> set faces" using klt by simp
  show ?thesis
    using inv nd inset unfolding faces_applied_def m cl fl lt f
    by (auto simp: neq)
qed

lemma faces_applied_mixed:
  assumes inv: "faces_applied primary bc face_area c faces k st flag' st'"
    and mx: "bc_model bc (faces ! k) = OPERATOR_BC_MIXED"
    and dist: "distinct faces" and klt: "k < length faces"
  shows "faces_applied primary bc face_area c faces (Suc k) st False
     (st'\<lparr>matrices_shadow := (if flag' then (matrices_shadow st')(c := matrices st' c)
                              else matrices_shadow st'),
         rhs_face := (rhs_face st')(faces ! k :=
               rhs_face st' (faces ! k) - bc_value bc (faces ! k) * face_area (faces ! k)),
         matrices := (matrices st')(c := mat_set (matrices st' c) k k
               (elem (matrices st' c) k k + bc_mixed bc (faces ! k) * face_area (faces ! k)))\<rparr>)"
proof -
  have nd: "bc_model bc (faces ! k) \<noteq> OPERATOR_BC_DIRICHLET"
    using mx by simp
  have m: "bc_matrix primary bc face_area faces (Suc k) A i j =
     (if i = k \<and> j = k then elem A k k + bc_mixed bc (faces ! k) * face_area (faces ! k)
      else bc_matrix primary bc face_area faces k A i j)" for A i j
    using mx klt by (rule bc_matrix_Suc_mixed)
  have diag: "bc_matrix primary bc face_area faces k A k k = elem A k k" for A
    using klt by (simp add: bc_matrix_column)
  have f: "bc_rhs_face bc face_area faces (Suc k) A m = bc_rhs_face bc face_area faces k A m
             + (if m = k then bc_value bc (faces ! k) * face_area (faces ! k) else 0)"
    for A m
    using nd mx by (auto simp: bc_rhs_face_def less_Suc_eq)
  have cl: "bc_rhs_cell bc faces (Suc k) A = bc_rhs_cell bc faces k A" for A
    using nd by (simp add: bc_rhs_cell_def)
  have fl: "\<not> (\<forall>n < Suc k. bc_model bc (faces ! n) \<noteq> OPERATOR_BC_DIRICHLET
                         \<and> bc_model bc (faces ! n) \<noteq> OPERATOR_BC_MIXED)"
    using mx by auto
  have lt: "(primary \<and> bc_model bc (faces ! m) = OPERATOR_BC_DIRICHLET \<and> m < Suc k)
            \<longleftrightarrow> (primary \<and> bc_model bc (faces ! m) = OPERATOR_BC_DIRICHLET \<and> m < k)" for m
    using nd by (auto simp: less_Suc_eq)
  have neq: "faces ! m = faces ! k \<longleftrightarrow> m = k" if "m < length faces" for m
    using dist klt that by (simp add: nth_eq_iff_index_eq)
  have inset: "faces ! k \<in> set faces" using klt by simp
  have sh: "(if flag' then (matrices_shadow st')(c := matrices st' c) else matrices_shadow st')
              = (matrices_shadow st)(c := matrices st c)"
    using inv by (auto simp: faces_applied_def)
  show ?thesis
    using inv nd inset fl unfolding faces_applied_def m cl lt f sh
    by (auto simp: neq diag)
qed

lemma faces_applied_dirichlet:
  assumes inv: "faces_applied primary bc face_area c faces k st flag' st'"
    and dir: "bc_model bc (faces ! k) = OPERATOR_BC_DIRICHLET"
    and dist: "distinct faces" and klt: "k < length faces"
    and run: "fold (eliminate_entry faces k (bc_value bc (faces ! k))) [0..<length faces]
           (matrices st' c, rhs_face st') = (A1, rf1)"
  shows "faces_applied primary bc face_area c faces (Suc k) st False
     (st'\<lparr>matrices_shadow := (if flag' then (matrices_shadow st')(c := matrices st' c)
                              else matrices_shadow st'),
         matrices := (matrices st')(c :=
             mat_set (mat_set (if primary then mat_set A1 k k 1 else A1) (length faces) k 0)
               k (length faces) 0),
         rhs_face := (if primary then rf1(faces ! k := bc_value bc (faces ! k)) else rf1),
         rhs_cell := (rhs_cell st')(c := rhs_cell st' c
             - elem (if primary then mat_set A1 k k 1 else A1) (length faces) k
               * bc_value bc (faces ! k))\<rparr>)"
proof -
  let ?nf = "length faces"
  let ?v = "bc_value bc (faces ! k)"
  let ?A = "matrices st' c"
  let ?B = "matrices st c"
  from eliminate_loop [OF dist le_refl, of k ?v ?A "rhs_face st'"] run
  have mat: "\<forall>i j. elem A1 i j =
               (if (i = k \<and> j < ?nf) \<or> (j = k \<and> i < ?nf) then 0 else elem ?A i j)"
    and low: "\<forall>m < ?nf. rf1 (faces ! m) = rhs_face st' (faces ! m) - elem ?A m k * ?v"
    and out: "\<forall>g. g \<notin> set faces \<longrightarrow> rf1 g = rhs_face st' g"
    by auto
  from eliminate_dims [of faces k ?v "[0..<?nf]" ?A "rhs_face st'"] run
  have dims: "NumRows A1 = NumRows ?A" "NumCols A1 = NumCols ?A" by simp_all
  have el: "\<forall>i j. elem ?A i j = bc_matrix primary bc face_area faces k ?B i j"
    using inv by (simp add: faces_applied_def)
  have col: "elem ?A m k =
     (if m < k \<and> bc_model bc (faces ! m) = OPERATOR_BC_DIRICHLET then 0 else elem ?B m k)" for m
    using el klt by (simp add: bc_matrix_column)
  have m: "bc_matrix primary bc face_area faces (Suc k) A i j =
     (if (i = k \<and> j \<le> length faces) \<or> (j = k \<and> i \<le> length faces)
      then (if i = j \<and> primary then 1 else 0)
      else bc_matrix primary bc face_area faces k A i j)" for A i j
    using dir klt by (rule bc_matrix_Suc_dirichlet)
  have f: "bc_rhs_face bc face_area faces (Suc k) A m = bc_rhs_face bc face_area faces k A m
             + (if bc_model bc (faces ! m) = OPERATOR_BC_DIRICHLET \<and> m < k then 0
                else elem A m k * ?v)"
    for A m
    using dir by (auto simp: bc_rhs_face_def less_Suc_eq)
  have cl: "bc_rhs_cell bc faces (Suc k) A = bc_rhs_cell bc faces k A + elem A ?nf k * ?v" for A
    using dir by (simp add: bc_rhs_cell_def)
  have neq: "faces ! m = faces ! k \<longleftrightarrow> m = k" if "m < length faces" for m
    using dist klt that by (simp add: nth_eq_iff_index_eq)
  have inset: "faces ! k \<in> set faces" using klt by simp
  have sh: "(if flag' then (matrices_shadow st')(c := matrices st' c) else matrices_shadow st')
              = (matrices_shadow st)(c := matrices st c)"
    using inv by (auto simp: faces_applied_def)
  let ?C = "if primary then mat_set A1 k k 1 else A1"
  let ?D = "mat_set (mat_set ?C ?nf k 0) k ?nf 0"
  let ?r = "if primary then rf1(faces ! k := ?v) else rf1"
  have c1: "\<forall>i j. elem ?D i j = bc_matrix primary bc face_area faces (Suc k) ?B i j"
  proof (intro allI)
    fix i j
    show "elem ?D i j = bc_matrix primary bc face_area faces (Suc k) ?B i j"
      unfolding m using mat el klt by (cases primary) (auto simp: le_less)
  qed
  have c2: "elem ?C ?nf k = elem ?B ?nf k"
    using mat col klt by (cases primary) auto
  have c3: "\<forall>g. g \<notin> set faces \<longrightarrow> ?r g = rhs_face st g"
    using out inset inv by (auto simp: faces_applied_def)
  have old: "\<forall>m < ?nf. rhs_face st' (faces ! m) =
        (if primary \<and> bc_model bc (faces ! m) = OPERATOR_BC_DIRICHLET \<and> m < k
         then bc_value bc (faces ! m)
         else rhs_face st (faces ! m) - bc_rhs_face bc face_area faces k ?B m)"
    using inv by (simp add: faces_applied_def)
  have c4: "\<forall>m < ?nf. ?r (faces ! m) =
        (if primary \<and> bc_model bc (faces ! m) = OPERATOR_BC_DIRICHLET \<and> m < Suc k
         then bc_value bc (faces ! m)
         else rhs_face st (faces ! m) - bc_rhs_face bc face_area faces (Suc k) ?B m)"
  proof (intro allI impI)
    fix m assume ml: "m < ?nf"
    show "?r (faces ! m) =
        (if primary \<and> bc_model bc (faces ! m) = OPERATOR_BC_DIRICHLET \<and> m < Suc k
         then bc_value bc (faces ! m)
         else rhs_face st (faces ! m) - bc_rhs_face bc face_area faces (Suc k) ?B m)"
    proof (cases "m = k")
      case True
      show ?thesis
        using low [rule_format, OF klt] old [rule_format, OF klt] dir
        unfolding True f by (simp add: col)
    next
      case False
      then have ne: "faces ! m \<noteq> faces ! k" using neq [OF ml] by simp
      have lt: "m < Suc k \<longleftrightarrow> m < k" using False by auto
      show ?thesis
        using low [rule_format, OF ml] old [rule_format, OF ml] ne
        unfolding f lt by (simp add: col)
    qed
  qed
  have fl: "\<exists>n < Suc k. bc_model bc (faces ! n) = OPERATOR_BC_DIRICHLET
                    \<or> bc_model bc (faces ! n) = OPERATOR_BC_MIXED"
    using dir by auto
  show ?thesis
    unfolding faces_applied_def sh
    using inv dims c1 c2 c3 c4 fl
    by (simp add: faces_applied_def cl diff_diff_eq)
qed

lemma apply_bc_faces_loop:
  assumes dist: "distinct faces" and "k \<le> length faces"
  shows "\<exists>flag' st'. fold (apply_bc_face primary bc face_area c faces) [0..<k] (True, st)
                         = (flag', st')
           \<and> faces_applied primary bc face_area c faces k st flag' st'"
  using assms(2)
proof (induction k)
  case 0
  show ?case
    using faces_applied_0 [of primary bc face_area c faces st]
    by (intro exI [of _ True] exI [of _ st]) simp
next
  case (Suc k)
  have kl: "k \<le> length faces" and klt: "k < length faces" using Suc.prems by simp_all
  from Suc.IH [OF kl] obtain flag' st' where
    run: "fold (apply_bc_face primary bc face_area c faces) [0..<k] (True, st) = (flag', st')"
    and inv: "faces_applied primary bc face_area c faces k st flag' st'"
    by blast
  have step: "fold (apply_bc_face primary bc face_area c faces) [0..<Suc k] (True, st) =
                apply_bc_face primary bc face_area c faces k (flag', st')"
    by (simp add: run)
  show ?case
  proof (cases "bc_model bc (faces ! k)")
    case OPERATOR_BC_NONE
    show ?thesis
      unfolding step apply_bc_face_none [OF OPERATOR_BC_NONE]
      using faces_applied_none [OF inv OPERATOR_BC_NONE] by blast
  next
    case OPERATOR_BC_DIRICHLET
    obtain A1 rf1 where
      el: "fold (eliminate_entry faces k (bc_value bc (faces ! k))) [0..<length faces]
             (matrices st' c, rhs_face st') = (A1, rf1)"
      by (cases "fold (eliminate_entry faces k (bc_value bc (faces ! k))) [0..<length faces]
             (matrices st' c, rhs_face st')")
    show ?thesis
      unfolding step apply_bc_face_dirichlet [OF OPERATOR_BC_DIRICHLET el]
      using faces_applied_dirichlet [OF inv OPERATOR_BC_DIRICHLET dist klt el] by blast
  next
    case OPERATOR_BC_NEUMANN
    show ?thesis
      unfolding step apply_bc_face_neumann [OF OPERATOR_BC_NEUMANN]
      using faces_applied_neumann [OF inv OPERATOR_BC_NEUMANN dist klt] by blast
  next
    case OPERATOR_BC_MIXED
    show ?thesis
      unfolding step apply_bc_face_mixed [OF OPERATOR_BC_MIXED]
      using faces_applied_mixed [OF inv OPERATOR_BC_MIXED dist klt] by blast
  qed
qed

lemma apply_bc_cell_applied:
  assumes "distinct (cell_get_faces c)"
  shows "\<exists>flag'. faces_applied primary bc face_area c (cell_get_faces c)
            (length (cell_get_faces c)) st flag'
            (apply_bc_cell primary bc face_area cell_get_faces c st)"
proof -
  from apply_bc_faces_loop [OF assms le_refl, of primary bc face_area c st]
  obtain flag' st' where
    run: "fold (apply_bc_face primary bc face_area c (cell_get_faces c))
            [0..<length (cell_get_faces c)] (True, st) = (flag', st')"
    and inv: "faces_applied primary bc face_area c (cell_get_faces c)
            (length (cell_get_faces c)) st flag' st'"
    by blast
  have "apply_bc_cell primary bc face_area cell_get_faces c st = st'"
    by (simp add: apply_bc_cell_def Let_def run)
  then show ?thesis using inv by blast
qed

lemma bc_rhs_face_of_cell_outside:
  assumes "g \<notin> set faces"
  shows "bc_rhs_face_of_cell bc face_area faces A g = 0"
proof -
  let ?f = "bc_rhs_face bc face_area faces (length faces) A"
  have "(\<Sum>m \<leftarrow> [0..<length faces]. if faces ! m = g then ?f m else 0)
        = (\<Sum>m \<in> {0..<length faces}. if faces ! m = g then ?f m else 0)"
    by (simp add: interv_sum_list_conv_sum_set_nat)
  also have "\<dots> = (\<Sum>m \<in> {0..<length faces}. 0)"
    using assms by (intro sum.cong) auto
  finally show ?thesis by (simp add: bc_rhs_face_of_cell_def)
qed

lemma bc_rhs_face_of_cell_face:
  assumes "distinct faces" and "m < length faces"
  shows "bc_rhs_face_of_cell bc face_area faces A (faces ! m) =
           bc_rhs_face bc face_area faces (length faces) A m"
proof -
  let ?f = "bc_rhs_face bc face_area faces (length faces) A"
  have "(\<Sum>m' \<leftarrow> [0..<length faces]. if faces ! m' = faces ! m then ?f m' else 0)
        = (\<Sum>m' \<in> {0..<length faces}. if faces ! m' = faces ! m then ?f m' else 0)"
    by (simp add: interv_sum_list_conv_sum_set_nat)
  also have "\<dots> = (\<Sum>m' \<in> {0..<length faces}. if m' = m then ?f m' else 0)"
    using assms by (intro sum.cong) (auto simp: nth_eq_iff_index_eq)
  also have "\<dots> = ?f m"
    using assms(2) by simp
  finally show ?thesis by (simp add: bc_rhs_face_of_cell_def)
qed

lemma cells_applied_0:
  "cells_applied primary bc face_area cell_get_faces 0 st
     (st\<lparr>rhs_face := (\<lambda>f. 0), rhs_cell := (\<lambda>c. 0)\<rparr>)"
  by (simp add: cells_applied_def)

lemma cells_applied_step:
  assumes inv: "cells_applied primary bc face_area cell_get_faces k st stk"
    and fa: "faces_applied primary bc face_area k (cell_get_faces k)
               (length (cell_get_faces k)) stk flag st'"
    and dist: "distinct (cell_get_faces k)"
  shows "cells_applied primary bc face_area cell_get_faces (Suc k) st st'"
proof -
  let ?fs = "cell_get_faces k"
  let ?nf = "length ?fs"
  have mk: "matrices stk k = matrices st k"
    using inv by (simp add: cells_applied_def)
  have other: "\<forall>c. c \<noteq> k \<longrightarrow> matrices st' c = matrices stk c"
    using fa by (simp add: faces_applied_def)
  have c1: "\<forall>c < Suc k. NumRows (matrices st' c) = NumRows (matrices st c)
            \<and> NumCols (matrices st' c) = NumCols (matrices st c)
            \<and> (\<forall>i j. elem (matrices st' c) i j =
                  bc_matrix primary bc face_area (cell_get_faces c) (length (cell_get_faces c))
                    (matrices st c) i j)"
  proof (intro allI impI)
    fix c assume c: "c < Suc k"
    show "NumRows (matrices st' c) = NumRows (matrices st c)
            \<and> NumCols (matrices st' c) = NumCols (matrices st c)
            \<and> (\<forall>i j. elem (matrices st' c) i j =
                  bc_matrix primary bc face_area (cell_get_faces c) (length (cell_get_faces c))
                    (matrices st c) i j)"
    proof (cases "c = k")
      case True
      show ?thesis unfolding True using fa mk by (simp add: faces_applied_def)
    next
      case False
      with c have "c < k" by simp
      then show ?thesis using inv other False by (simp add: cells_applied_def)
    qed
  qed
  have c2: "\<forall>c \<ge> Suc k. matrices st' c = matrices st c"
    using inv other by (simp add: cells_applied_def)
  have fl: "flag \<longleftrightarrow> \<not> (\<exists>n < ?nf. bc_model bc (?fs ! n) = OPERATOR_BC_DIRICHLET
                              \<or> bc_model bc (?fs ! n) = OPERATOR_BC_MIXED)"
    using fa by (auto simp: faces_applied_def)
  have sh: "matrices_shadow st' =
        (if flag then matrices_shadow stk else (matrices_shadow stk)(k := matrices st k))"
  proof (cases flag)
    case True
    then show ?thesis using fa by (simp add: faces_applied_def)
  next
    case False
    then show ?thesis using fa mk by (simp add: faces_applied_def)
  qed
  have shk: "\<forall>c. matrices_shadow stk c =
          (if c < k \<and> (\<exists>n < length (cell_get_faces c).
                 bc_model bc (cell_get_faces c ! n) = OPERATOR_BC_DIRICHLET
               \<or> bc_model bc (cell_get_faces c ! n) = OPERATOR_BC_MIXED)
           then matrices st c else matrices_shadow st c)"
    using inv by (simp add: cells_applied_def)
  have c3: "\<forall>c. matrices_shadow st' c =
          (if c < Suc k \<and> (\<exists>n < length (cell_get_faces c).
                 bc_model bc (cell_get_faces c ! n) = OPERATOR_BC_DIRICHLET
               \<or> bc_model bc (cell_get_faces c ! n) = OPERATOR_BC_MIXED)
           then matrices st c else matrices_shadow st c)"
  proof (intro allI)
    fix c
    show "matrices_shadow st' c =
          (if c < Suc k \<and> (\<exists>n < length (cell_get_faces c).
                 bc_model bc (cell_get_faces c ! n) = OPERATOR_BC_DIRICHLET
               \<or> bc_model bc (cell_get_faces c ! n) = OPERATOR_BC_MIXED)
           then matrices st c else matrices_shadow st c)"
    proof (cases "c = k")
      case True
      show ?thesis
        unfolding True sh using fl shk [rule_format, of k] by (cases flag) auto
    next
      case False
      then have "c < Suc k \<longleftrightarrow> c < k" by auto
      then show ?thesis
        unfolding sh using shk [rule_format, of c] False by (cases flag) auto
    qed
  qed
  have rck: "\<forall>c. rhs_cell stk c =
          (if c < k
           then - bc_rhs_cell bc (cell_get_faces c) (length (cell_get_faces c)) (matrices st c)
           else 0)"
    using inv by (simp add: cells_applied_def)
  have rc: "rhs_cell st' = (rhs_cell stk)(k := rhs_cell stk k - bc_rhs_cell bc ?fs ?nf (matrices st k))"
    using fa mk by (simp add: faces_applied_def)
  have c4: "\<forall>c. rhs_cell st' c =
          (if c < Suc k
           then - bc_rhs_cell bc (cell_get_faces c) (length (cell_get_faces c)) (matrices st c)
           else 0)"
    unfolding rc using rck by (auto simp: less_Suc_eq)
  have rfk: "\<forall>g. rhs_face stk g =
          (if primary \<and> bc_model bc g = OPERATOR_BC_DIRICHLET
              \<and> (\<exists>c < k. g \<in> set (cell_get_faces c))
           then bc_value bc g
           else - (\<Sum>c \<leftarrow> [0..<k].
                     bc_rhs_face_of_cell bc face_area (cell_get_faces c) (matrices st c) g))"
    using inv by (simp add: cells_applied_def)
  have out: "\<forall>g. g \<notin> set ?fs \<longrightarrow> rhs_face st' g = rhs_face stk g"
    using fa by (simp add: faces_applied_def)
  have inn: "\<forall>m < ?nf. rhs_face st' (?fs ! m) =
        (if primary \<and> bc_model bc (?fs ! m) = OPERATOR_BC_DIRICHLET
         then bc_value bc (?fs ! m)
         else rhs_face stk (?fs ! m) - bc_rhs_face bc face_area ?fs ?nf (matrices st k) m)"
    using fa mk by (simp add: faces_applied_def)
  have c5: "\<forall>g. rhs_face st' g =
          (if primary \<and> bc_model bc g = OPERATOR_BC_DIRICHLET
              \<and> (\<exists>c < Suc k. g \<in> set (cell_get_faces c))
           then bc_value bc g
           else - (\<Sum>c \<leftarrow> [0..<Suc k].
                     bc_rhs_face_of_cell bc face_area (cell_get_faces c) (matrices st c) g))"
  proof (intro allI)
    fix g
    show "rhs_face st' g =
          (if primary \<and> bc_model bc g = OPERATOR_BC_DIRICHLET
              \<and> (\<exists>c < Suc k. g \<in> set (cell_get_faces c))
           then bc_value bc g
           else - (\<Sum>c \<leftarrow> [0..<Suc k].
                     bc_rhs_face_of_cell bc face_area (cell_get_faces c) (matrices st c) g))"
    proof (cases "g \<in> set ?fs")
      case False
      then have ex: "(\<exists>c < Suc k. g \<in> set (cell_get_faces c))
                     \<longleftrightarrow> (\<exists>c < k. g \<in> set (cell_get_faces c))"
        by (auto simp: less_Suc_eq)
      show ?thesis
        unfolding ex using out False rfk [rule_format, of g]
        by (auto simp: bc_rhs_face_of_cell_outside)
    next
      case True
      then obtain m where m: "m < ?nf" and g: "g = ?fs ! m"
        by (auto simp: in_set_conv_nth)
      have ex: "\<exists>c < Suc k. g \<in> set (cell_get_faces c)" using True by auto
      show ?thesis
      proof (cases "primary \<and> bc_model bc g = OPERATOR_BC_DIRICHLET")
        case True
        then show ?thesis using ex inn [rule_format, OF m] by (simp add: g)
      next
        case False
        then have old: "rhs_face stk g =
            - (\<Sum>c \<leftarrow> [0..<k].
                  bc_rhs_face_of_cell bc face_area (cell_get_faces c) (matrices st c) g)"
          using rfk [rule_format, of g] by auto
        have new: "rhs_face st' g =
            rhs_face stk g - bc_rhs_face bc face_area ?fs ?nf (matrices st k) m"
          using False inn [rule_format, OF m] by (auto simp: g)
        have "bc_rhs_face_of_cell bc face_area ?fs (matrices st k) g =
                bc_rhs_face bc face_area ?fs ?nf (matrices st k) m"
          unfolding g by (rule bc_rhs_face_of_cell_face [OF dist m])
        then show ?thesis using False old new by auto
      qed
    qed
  qed
  show ?thesis
    unfolding cells_applied_def using c1 c2 c3 c4 c5 by blast
qed

lemma ApplyBCs_loop:
  assumes "\<forall>c < k. distinct (cell_get_faces c)"
  shows "cells_applied primary bc face_area cell_get_faces k st
           (fold (apply_bc_cell primary bc face_area cell_get_faces) [0..<k]
              (st\<lparr>rhs_face := (\<lambda>f. 0), rhs_cell := (\<lambda>c. 0)\<rparr>))"
  using assms
proof (induction k)
  case 0
  show ?case by (simp add: cells_applied_0)
next
  case (Suc k)
  let ?stk = "fold (apply_bc_cell primary bc face_area cell_get_faces) [0..<k]
              (st\<lparr>rhs_face := (\<lambda>f. 0), rhs_cell := (\<lambda>c. 0)\<rparr>)"
  have inv: "cells_applied primary bc face_area cell_get_faces k st ?stk"
    using Suc by simp
  have dist: "distinct (cell_get_faces k)" using Suc.prems by simp
  from apply_bc_cell_applied [where cell_get_faces = cell_get_faces and c = k, OF dist,
      of primary bc face_area ?stk] obtain flag where
    fa: "faces_applied primary bc face_area k (cell_get_faces k)
               (length (cell_get_faces k)) ?stk flag
               (apply_bc_cell primary bc face_area cell_get_faces k ?stk)"
    by blast
  have "fold (apply_bc_cell primary bc face_area cell_get_faces) [0..<Suc k]
              (st\<lparr>rhs_face := (\<lambda>f. 0), rhs_cell := (\<lambda>c. 0)\<rparr>)
        = apply_bc_cell primary bc face_area cell_get_faces k ?stk"
    by simp
  then show ?case using cells_applied_step [OF inv fa dist] by simp
qed

lemma ApplyBCs_applied:
  assumes "\<forall>c < ncells_owned. distinct (cell_get_faces c)"
  shows "cells_applied primary bc face_area cell_get_faces ncells_owned st
           (ApplyBCs primary bc face_area cell_get_faces ncells_owned st)"
  unfolding ApplyBCs_def using assms by (rule ApplyBCs_loop)

text \<open>
  Claim C1.  ApplyBCs, for the schema with face and cell unknowns, on a mesh whose cells
  have no face twice.  Let \<open>st\<close> be the state at the call and \<open>st'\<close> the state at the
  return, let \<open>c\<close> be an owned cell with faces \<open>faces\<close> and \<open>n\<close> a local face of \<open>c\<close>
  whose face \<open>f\<close> carries a Dirichlet condition with value \<open>v\<close>.

  \<^item> Row and column \<open>n\<close> of the matrix of \<open>c\<close> are zero at the return, the entries coupling
    \<open>n\<close> with the cell row and the cell column included; the diagonal entry is 1 when
    \<open>primary\<close> holds and 0 otherwise.  Every other entry of the matrix is as it was at
    the call, up to the term a mixed condition adds to its diagonal entry
    (\<open>bc_matrix\<close>); matrices of other cells than the owned ones are not touched.

  \<^item> The right-hand side is set to zero first and then only subtracted from, or overwritten
    with \<open>v\<close>.  The pass for \<open>(c, n)\<close> subtracts \<open>Acell(m, n) * v\<close> from the entry of every
    local row \<open>m\<close>, with the matrix as the earlier passes have left it: for a row whose
    face carries a Dirichlet condition and comes before \<open>n\<close> in the cell the entry
    is already zero, for every other row it is the entry at the call.  So the entry of the
    cell row ends as minus the sum of \<open>Acell(nfaces, n) * v\<close> over the Dirichlet faces of
    the cell (\<open>bc_rhs_cell\<close>), and the entry of a face as minus the sum, over the owned
    cells it belongs to, of these terms for its row and of the term of its own Neumann or
    mixed condition (\<open>bc_rhs_face\<close>).

  \<^item> When \<open>primary\<close> holds, the entry of \<open>f\<close> is overwritten with \<open>v\<close>, and it is \<open>v\<close> at
    the return.  When it does not, nothing is overwritten: the entry of \<open>f\<close> is the sum
    just described, which for the row of \<open>f\<close> contains the term of its own diagonal entry.

  \<^item> The matrix of a cell with a Dirichlet or mixed face is saved, as it was at the
    call, in the shadow matrices.
\<close>

theorem ApplyBCs_dirichlet:
  assumes dist: "\<forall>c < ncells_owned. distinct (cell_get_faces c)"
    and st': "st' = ApplyBCs primary bc face_area cell_get_faces ncells_owned st"
  shows "(\<forall>c < ncells_owned. \<forall>n < length (cell_get_faces c).
            bc_model bc (cell_get_faces c ! n) = OPERATOR_BC_DIRICHLET \<longrightarrow>
              (\<forall>m \<le> length (cell_get_faces c). m \<noteq> n \<longrightarrow>
                  elem (matrices st' c) n m = 0 \<and> elem (matrices st' c) m n = 0)
            \<and> elem (matrices st' c) n n = (if primary then 1 else 0)
            \<and> (primary \<longrightarrow>
                  rhs_face st' (cell_get_faces c ! n) = bc_value bc (cell_get_faces c ! n)))
       \<and> (\<forall>c < ncells_owned.
            NumRows (matrices st' c) = NumRows (matrices st c)
          \<and> NumCols (matrices st' c) = NumCols (matrices st c)
          \<and> (\<forall>i j. elem (matrices st' c) i j =
                bc_matrix primary bc face_area (cell_get_faces c) (length (cell_get_faces c))
                  (matrices st c) i j))
       \<and> (\<forall>c \<ge> ncells_owned. matrices st' c = matrices st c)
       \<and> (\<forall>c. rhs_cell st' c =
            (if c < ncells_owned
             then - bc_rhs_cell bc (cell_get_faces c) (length (cell_get_faces c)) (matrices st c)
             else 0))
       \<and> (\<forall>g. rhs_face st' g =
            (if primary \<and> bc_model bc g = OPERATOR_BC_DIRICHLET
                \<and> (\<exists>c < ncells_owned. g \<in> set (cell_get_faces c))
             then bc_value bc g
             else - (\<Sum>c \<leftarrow> [0..<ncells_owned].
                       bc_rhs_face_of_cell bc face_area (cell_get_faces c) (matrices st c) g)))
       \<and> (\<forall>c. matrices_shadow st' c =
            (if c < ncells_owned \<and> (\<exists>n < length (cell_get_faces c).
                   bc_model bc (cell_get_faces c ! n) = OPERATOR_BC_DIRICHLET
                 \<or> bc_model bc (cell_get_faces c ! n) = OPERATOR_BC_MIXED)
             then matrices st c else matrices_shadow st c))"
proof -
  have inv: "cells_applied primary bc face_area cell_get_faces ncells_owned st st'"
    unfolding st' using dist by (rule ApplyBCs_applied)
  have mats: "\<forall>c < ncells_owned.
            NumRows (matrices st' c) = NumRows (matrices st c)
          \<and> NumCols (matrices st' c) = NumCols (matrices st c)
          \<and> (\<forall>i j. elem (matrices st' c) i j =
                bc_matrix primary bc face_area (cell_get_faces c) (length (cell_get_faces c))
                  (matrices st c) i j)"
    using inv by (simp add: cells_applied_def)
  have rest: "\<forall>c \<ge> ncells_owned. matrices st' c = matrices st c"
    using inv by (simp add: cells_applied_def)
  have rc: "\<forall>c. rhs_cell st' c =
            (if c < ncells_owned
             then - bc_rhs_cell bc (cell_get_faces c) (length (cell_get_faces c)) (matrices st c)
             else 0)"
    using inv by (simp add: cells_applied_def)
  have rf: "\<forall>g. rhs_face st' g =
            (if primary \<and> bc_model bc g = OPERATOR_BC_DIRICHLET
                \<and> (\<exists>c < ncells_owned. g \<in> set (cell_get_faces c))
             then bc_value bc g
             else - (\<Sum>c \<leftarrow> [0..<ncells_owned].
                       bc_rhs_face_of_cell bc face_area (cell_get_faces c) (matrices st c) g))"
    using inv by (simp add: cells_applied_def)
  have sh: "\<forall>c. matrices_shadow st' c =
            (if c < ncells_owned \<and> (\<exists>n < length (cell_get_faces c).
                   bc_model bc (cell_get_faces c ! n) = OPERATOR_BC_DIRICHLET
                 \<or> bc_model bc (cell_get_faces c ! n) = OPERATOR_BC_MIXED)
             then matrices st c else matrices_shadow st c)"
    using inv by (simp add: cells_applied_def)
  have dir: "\<forall>c < ncells_owned. \<forall>n < length (cell_get_faces c).
            bc_model bc (cell_get_faces c ! n) = OPERATOR_BC_DIRICHLET \<longrightarrow>
              (\<forall>m \<le> length (cell_get_faces c). m \<noteq> n \<longrightarrow>
                  elem (matrices st' c) n m = 0 \<and> elem (matrices st' c) m n = 0)
            \<and> elem (matrices st' c) n n = (if primary then 1 else 0)
            \<and> (primary \<longrightarrow>
                  rhs_face st' (cell_get_faces c ! n) = bc_value bc (cell_get_faces c ! n))"
  proof (intro allI impI)
    fix c n
    assume c: "c < ncells_owned" and n: "n < length (cell_get_faces c)"
      and d: "bc_model bc (cell_get_faces c ! n) = OPERATOR_BC_DIRICHLET"
    have el: "\<forall>i j. elem (matrices st' c) i j =
                bc_matrix primary bc face_area (cell_get_faces c) (length (cell_get_faces c))
                  (matrices st c) i j"
      using mats c by simp
    have a: "\<forall>m \<le> length (cell_get_faces c). m \<noteq> n \<longrightarrow>
                  elem (matrices st' c) n m = 0 \<and> elem (matrices st' c) m n = 0"
      using n d by (simp add: el bc_matrix_def)
    have b: "elem (matrices st' c) n n = (if primary then 1 else 0)"
      using n d by (simp add: el bc_matrix_def)
    have "\<exists>c' < ncells_owned. cell_get_faces c ! n \<in> set (cell_get_faces c')"
      using c n nth_mem by blast
    then have e: "primary \<longrightarrow>
                  rhs_face st' (cell_get_faces c ! n) = bc_value bc (cell_get_faces c ! n)"
      using d rf by simp
    show "(\<forall>m \<le> length (cell_get_faces c). m \<noteq> n \<longrightarrow>
                  elem (matrices st' c) n m = 0 \<and> elem (matrices st' c) m n = 0)
            \<and> elem (matrices st' c) n n = (if primary then 1 else 0)
            \<and> (primary \<longrightarrow>
                  rhs_face st' (cell_get_faces c ! n) = bc_value bc (cell_get_faces c ! n))"
      using a b e by blast
  qed
  show ?thesis using dir mats rest rc rf sh by blast
qed

theorem ApplyBCs_dirichlet_witness:
  "(let st' = ApplyBCs True two_cells_bc (\<lambda>f. 1) two_cells 2 two_cells_state
    in rhs_face st' 0 = 5 \<and> rhs_face st' 1 = 7 \<and> rhs_face st' 2 = - 115
     \<and> rhs_face st' 3 = - 2 \<and> rhs_cell st' 0 = - 163 \<and> rhs_cell st' 1 = 0
     \<and> elem (matrices st' 0) 0 0 = 1 \<and> elem (matrices st' 0) 0 1 = 0
     \<and> elem (matrices st' 0) 1 0 = 0 \<and> elem (matrices st' 0) 1 1 = 1
     \<and> elem (matrices st' 0) 2 0 = 0 \<and> elem (matrices st' 0) 3 1 = 0
     \<and> elem (matrices st' 0) 2 2 = 11 \<and> elem (matrices st' 0) 3 2 = 15)
   \<and> (let st' = ApplyBCs False two_cells_bc (\<lambda>f. 1) two_cells 2 two_cells_state
      in rhs_face st' 0 = - 5 \<and> rhs_face st' 1 = - 67 \<and> rhs_face st' 2 = - 115
       \<and> rhs_cell st' 0 = - 163
       \<and> elem (matrices st' 0) 0 0 = 0 \<and> elem (matrices st' 0) 0 1 = 0
       \<and> elem (matrices st' 0) 1 1 = 0 \<and> elem (matrices st' 0) 3 0 = 0
       \<and> elem (matrices st' 0) 3 3 = 16)"
proof -
  define st' where "st' = ApplyBCs True two_cells_bc (\<lambda>f. 1) two_cells 2 two_cells_state"
  define st'' where "st'' = ApplyBCs False two_cells_bc (\<lambda>f. 1) two_cells 2 two_cells_state"
  have dist: "\<forall>c < (2::nat). distinct (two_cells c)"
    by (simp add: two_cells_def)
  note th = ApplyBCs_dirichlet [OF dist st'_def]
  note dir = th [THEN conjunct1, rule_format]
  note mat = th [THEN conjunct2, THEN conjunct1, rule_format, THEN conjunct2, THEN conjunct2,
      rule_format]
  note rc = th [THEN conjunct2, THEN conjunct2, THEN conjunct2, THEN conjunct1, rule_format]
  note rf = th [THEN conjunct2, THEN conjunct2, THEN conjunct2, THEN conjunct2, THEN conjunct1,
      rule_format]
  note th2 = ApplyBCs_dirichlet [OF dist st''_def]
  note dir2 = th2 [THEN conjunct1, rule_format]
  note mat2 = th2 [THEN conjunct2, THEN conjunct1, rule_format, THEN conjunct2, THEN conjunct2,
      rule_format]
  note rc2 = th2 [THEN conjunct2, THEN conjunct2, THEN conjunct2, THEN conjunct1, rule_format]
  note rf2 = th2 [THEN conjunct2, THEN conjunct2, THEN conjunct2, THEN conjunct2, THEN conjunct1,
      rule_format]
  have u2: "[0..<2] = [0, Suc 0]" and u3: "[0..<3] = [0, Suc 0, 2]"
    by (simp_all add: upt_rec)
  have f0: "rhs_face st' 0 = 5"
    using dir [of 0 0] by (simp add: two_cells_def two_cells_bc_def)
  have f1: "rhs_face st' 1 = 7"
    using dir [of 0 1] by (simp add: two_cells_def two_cells_bc_def)
  have f2: "rhs_face st' 2 = - 115"
    unfolding rf [of 2]
    by (simp add: two_cells_def two_cells_bc_def two_cells_state_def bc_rhs_face_of_cell_def
        bc_rhs_face_def u2 u3)
  have f3: "rhs_face st' 3 = - 2"
    unfolding rf [of 3]
    by (simp add: two_cells_def two_cells_bc_def two_cells_state_def bc_rhs_face_of_cell_def
        bc_rhs_face_def u2 u3)
  have c0: "rhs_cell st' 0 = - 163"
    unfolding rc [of 0]
    by (simp add: two_cells_def two_cells_bc_def two_cells_state_def bc_rhs_cell_def u3)
  have c1: "rhs_cell st' 1 = 0"
    unfolding rc [of 1]
    by (simp add: two_cells_def two_cells_bc_def two_cells_state_def bc_rhs_cell_def u2)
  have m: "elem (matrices st' 0) 0 0 = 1" "elem (matrices st' 0) 0 1 = 0"
    "elem (matrices st' 0) 1 0 = 0" "elem (matrices st' 0) 1 1 = 1"
    "elem (matrices st' 0) 2 0 = 0" "elem (matrices st' 0) 3 1 = 0"
    "elem (matrices st' 0) 2 2 = 11" "elem (matrices st' 0) 3 2 = 15"
    by (simp_all add: mat [of 0] bc_matrix_def two_cells_def two_cells_bc_def
        two_cells_state_def)
  have g0: "rhs_face st'' 0 = - 5"
    unfolding rf2 [of 0]
    by (simp add: two_cells_def two_cells_bc_def two_cells_state_def bc_rhs_face_of_cell_def
        bc_rhs_face_def u2 u3)
  have g1: "rhs_face st'' 1 = - 67"
    unfolding rf2 [of 1]
    by (simp add: two_cells_def two_cells_bc_def two_cells_state_def bc_rhs_face_of_cell_def
        bc_rhs_face_def u2 u3)
  have g2: "rhs_face st'' 2 = - 115"
    unfolding rf2 [of 2]
    by (simp add: two_cells_def two_cells_bc_def two_cells_state_def bc_rhs_face_of_cell_def
        bc_rhs_face_def u2 u3)
  have d0: "rhs_cell st'' 0 = - 163"
    unfolding rc2 [of 0]
    by (simp add: two_cells_def two_cells_bc_def two_cells_state_def bc_rhs_cell_def u3)
  have m2: "elem (matrices st'' 0) 0 0 = 0" "elem (matrices st'' 0) 0 1 = 0"
    "elem (matrices st'' 0) 1 1 = 0" "elem (matrices st'' 0) 3 0 = 0"
    "elem (matrices st'' 0) 3 3 = 16"
    by (simp_all add: mat2 [of 0] bc_matrix_def two_cells_def two_cells_bc_def
        two_cells_state_def)
  show ?thesis
    unfolding Let_def st'_def [symmetric] st''_def [symmetric]
    using f0 f1 f2 f3 c0 c1 m g0 g1 g2 d0 m2 by simp
qed

section \<open>OperatorDiffusionMFD: UpdateFlux\<close>

text \<open>
  \<open>DenseMatrix::Multiply(v, av, false)\<close> is the product of the matrix with a vector:
  entry \<open>i\<close> of the result is the sum over the columns \<open>j\<close> of \<open>A(i,j) * v(j)\<close>.
  A \<open>DenseVector\<close> is a map from indices to values.
\<close>

definition Multiply :: "DenseMatrix \<Rightarrow> (nat \<Rightarrow> real) \<Rightarrow> nat \<Rightarrow> real" where
  "Multiply A v i = sum_list (map (\<lambda>j. elem A i j * v j) [0..<NumCols A])"

text \<open>
  The vector \<open>v\<close> of cell \<open>c\<close>: the face values of its faces, then its cell value.
\<close>

definition cell_vector :: "(nat \<Rightarrow> real) \<Rightarrow> (nat \<Rightarrow> real) \<Rightarrow> nat list \<Rightarrow> nat \<Rightarrow> nat \<Rightarrow> real" where
  "cell_vector u_cell u_face faces c n =
     (if n < length faces then u_face (faces ! n) else u_cell c)"

text \<open>
  \<open>av\<close> for cell \<open>c\<close>: the product with the shadow matrix when one was saved (it has rows),
  with the local matrix otherwise.
\<close>

definition cell_av ::
  "(nat \<Rightarrow> DenseMatrix) \<Rightarrow> (nat \<Rightarrow> DenseMatrix) \<Rightarrow> (nat \<Rightarrow> real) \<Rightarrow> (nat \<Rightarrow> real)
     \<Rightarrow> nat list \<Rightarrow> nat \<Rightarrow> nat \<Rightarrow> real" where
  "cell_av mats shadows u_cell u_face faces c =
     (if NumRows (shadows c) = 0
      then Multiply (mats c) (cell_vector u_cell u_face faces c)
      else Multiply (shadows c) (cell_vector u_cell u_face faces c))"

text \<open>
  The body of the last loop over the local faces:
  \<open>if (f < nfaces_owned && !flag[f]) { flux_data[0][f] -= av(n) * dirs[n]; flag[f] = 1; }\<close>
\<close>

definition flux_face ::
  "nat \<Rightarrow> nat list \<Rightarrow> int list \<Rightarrow> (nat \<Rightarrow> real) \<Rightarrow> nat
     \<Rightarrow> (nat \<Rightarrow> real) \<times> (nat \<Rightarrow> bool) \<Rightarrow> (nat \<Rightarrow> real) \<times> (nat \<Rightarrow> bool)" where
  "flux_face nfaces_owned faces dirs av n = (\<lambda>(flux_data, flag).
     (let f = faces ! n in
      if f < nfaces_owned \<and> \<not> flag f
      then (flux_data(f := flux_data f - av n * real_of_int (dirs ! n)), flag(f := True))
      else (flux_data, flag)))"

definition flux_cell ::
  "nat \<Rightarrow> (nat \<Rightarrow> nat list) \<Rightarrow> (nat \<Rightarrow> int list) \<Rightarrow> (nat \<Rightarrow> DenseMatrix) \<Rightarrow> (nat \<Rightarrow> DenseMatrix)
     \<Rightarrow> (nat \<Rightarrow> real) \<Rightarrow> (nat \<Rightarrow> real) \<Rightarrow> nat
     \<Rightarrow> (nat \<Rightarrow> real) \<times> (nat \<Rightarrow> bool) \<Rightarrow> (nat \<Rightarrow> real) \<times> (nat \<Rightarrow> bool)" where
  "flux_cell nfaces_owned cell_get_faces cell_get_dirs mats shadows u_cell u_face c fs =
     (let faces = cell_get_faces c; dirs = cell_get_dirs c;
          av = cell_av mats shadows u_cell u_face faces c
      in fold (flux_face nfaces_owned faces dirs av) [0..<length faces] fs)"

text \<open>
  UpdateFlux: the flux is set to zero, no face is flagged, and the owned cells are visited
  in ascending order.  The result is the face component of the flux.
\<close>

definition UpdateFlux ::
  "nat \<Rightarrow> nat \<Rightarrow> (nat \<Rightarrow> nat list) \<Rightarrow> (nat \<Rightarrow> int list) \<Rightarrow> (nat \<Rightarrow> DenseMatrix) \<Rightarrow> (nat \<Rightarrow> DenseMatrix)
     \<Rightarrow> (nat \<Rightarrow> real) \<Rightarrow> (nat \<Rightarrow> real) \<Rightarrow> nat \<Rightarrow> real" where
  "UpdateFlux ncells_owned nfaces_owned cell_get_faces cell_get_dirs mats shadows u_cell u_face =
     fst (fold (flux_cell nfaces_owned cell_get_faces cell_get_dirs mats shadows u_cell u_face)
            [0..<ncells_owned] (\<lambda>f. 0, \<lambda>f. False))"

lemma flux_face_loop:
  assumes "j \<le> length faces"
  shows "\<exists>fl' fg'. fold (flux_face nfo faces dirs av) [0..<j] (fl, fg) = (fl', fg')
     \<and> (\<forall>g. fg' g = (fg g \<or> (g < nfo \<and> g \<in> set (take j faces))))
     \<and> (\<forall>g. fg g \<or> \<not> g < nfo \<or> g \<notin> set (take j faces) \<longrightarrow> fl' g = fl g)
     \<and> (\<forall>n < j. \<not> fg (faces ! n) \<and> faces ! n < nfo \<and> (\<forall>n' < n. faces ! n' \<noteq> faces ! n)
            \<longrightarrow> fl' (faces ! n) = fl (faces ! n) - av n * real_of_int (dirs ! n))"
  using assms
proof (induction j)
  case 0
  then show ?case by simp
next
  case (Suc j)
  have jl: "j \<le> length faces" and jlt: "j < length faces" using Suc.prems by simp_all
  from Suc.IH [OF jl] obtain fl' fg' where
    run: "fold (flux_face nfo faces dirs av) [0..<j] (fl, fg) = (fl', fg')"
    and flg: "\<forall>g. fg' g = (fg g \<or> (g < nfo \<and> g \<in> set (take j faces)))"
    and keep: "\<forall>g. fg g \<or> \<not> g < nfo \<or> g \<notin> set (take j faces) \<longrightarrow> fl' g = fl g"
    and first: "\<forall>n < j. \<not> fg (faces ! n) \<and> faces ! n < nfo \<and> (\<forall>n' < n. faces ! n' \<noteq> faces ! n)
            \<longrightarrow> fl' (faces ! n) = fl (faces ! n) - av n * real_of_int (dirs ! n)"
    by blast
  have tk: "set (take (Suc j) faces) = insert (faces ! j) (set (take j faces))"
    using jlt by (simp add: take_Suc_conv_app_nth)
  have intake: "\<And>g. g \<in> set (take j faces) \<longleftrightarrow> (\<exists>n < j. faces ! n = g)"
    using jl by (auto simp: in_set_conv_nth)
  show ?case
  proof (cases "faces ! j < nfo \<and> \<not> fg' (faces ! j)")
    case True
    let ?fl = "fl'(faces ! j := fl' (faces ! j) - av j * real_of_int (dirs ! j))"
    let ?fg = "fg'(faces ! j := True)"
    have step: "fold (flux_face nfo faces dirs av) [0..<Suc j] (fl, fg) = (?fl, ?fg)"
      using True by (simp add: run flux_face_def Let_def)
    have notin: "faces ! j \<notin> set (take j faces)" and nfg: "\<not> fg (faces ! j)"
      using True flg by auto
    have a: "\<forall>g. ?fg g = (fg g \<or> (g < nfo \<and> g \<in> set (take (Suc j) faces)))"
      using flg True by (auto simp: tk)
    have b: "\<forall>g. fg g \<or> \<not> g < nfo \<or> g \<notin> set (take (Suc j) faces) \<longrightarrow> ?fl g = fl g"
      using keep nfg True by (auto simp: tk)
    have c: "\<forall>n < Suc j. \<not> fg (faces ! n) \<and> faces ! n < nfo \<and> (\<forall>n' < n. faces ! n' \<noteq> faces ! n)
            \<longrightarrow> ?fl (faces ! n) = fl (faces ! n) - av n * real_of_int (dirs ! n)"
    proof (intro allI impI)
      fix n assume n: "n < Suc j"
        and h: "\<not> fg (faces ! n) \<and> faces ! n < nfo \<and> (\<forall>n' < n. faces ! n' \<noteq> faces ! n)"
      show "?fl (faces ! n) = fl (faces ! n) - av n * real_of_int (dirs ! n)"
      proof (cases "n = j")
        case True
        have "fl' (faces ! j) = fl (faces ! j)" using keep notin by blast
        then show ?thesis using True by simp
      next
        case False
        then have nj: "n < j" using n by simp
        then have "faces ! n \<in> set (take j faces)" using intake by blast
        then have "faces ! n \<noteq> faces ! j" using notin by metis
        then show ?thesis using first nj h by simp
      qed
    qed
    show ?thesis using step a b c by blast
  next
    case False
    have step: "fold (flux_face nfo faces dirs av) [0..<Suc j] (fl, fg) = (fl', fg')"
      using False by (auto simp: run flux_face_def Let_def)
    have a: "\<forall>g. fg' g = (fg g \<or> (g < nfo \<and> g \<in> set (take (Suc j) faces)))"
      using flg False by (auto simp: tk)
    have b: "\<forall>g. fg g \<or> \<not> g < nfo \<or> g \<notin> set (take (Suc j) faces) \<longrightarrow> fl' g = fl g"
      using keep by (auto simp: tk)
    have c: "\<forall>n < Suc j. \<not> fg (faces ! n) \<and> faces ! n < nfo \<and> (\<forall>n' < n. faces ! n' \<noteq> faces ! n)
            \<longrightarrow> fl' (faces ! n) = fl (faces ! n) - av n * real_of_int (dirs ! n)"
    proof (intro allI impI)
      fix n assume n: "n < Suc j"
        and h: "\<not> fg (faces ! n) \<and> faces ! n < nfo \<and> (\<forall>n' < n. faces ! n' \<noteq> faces ! n)"
      show "fl' (faces ! n) = fl (faces ! n) - av n * real_of_int (dirs ! n)"
      proof (cases "n = j")
        case True
        with h have "\<not> fg (faces ! j)" "faces ! j < nfo" "\<forall>n' < j. faces ! n' \<noteq> faces ! j" by auto
        then have "\<not> fg' (faces ! j)" using flg intake by metis
        with False \<open>faces ! j < nfo\<close> show ?thesis by simp
      next
        case False
        then have nj: "n < j" using n by simp
        then show ?thesis using first h by simp
      qed
    qed
    show ?thesis using step a b c by blast
  qed
qed

lemma flux_cell_loop:
  fixes cgf :: "nat \<Rightarrow> nat list" and cgd :: "nat \<Rightarrow> int list"
    and nfo mats shadows u_cell u_face
  defines "B \<equiv> flux_cell nfo cgf cgd mats shadows u_cell u_face"
    and "lf \<equiv> \<lambda>c n. cell_av mats shadows u_cell u_face (cgf c) c n * real_of_int (cgd c ! n)"
  shows "\<exists>fl fg. fold B [0..<k] (\<lambda>f. 0, \<lambda>f. False) = (fl, fg)
     \<and> (\<forall>g. fg g = (g < nfo \<and> (\<exists>c < k. g \<in> set (cgf c))))
     \<and> (\<forall>g. \<not> g < nfo \<or> (\<forall>c < k. g \<notin> set (cgf c)) \<longrightarrow> fl g = 0)
     \<and> (\<forall>c < k. \<forall>n < length (cgf c).
           cgf c ! n < nfo \<and> (\<forall>c' < c. cgf c ! n \<notin> set (cgf c')) \<and> (\<forall>n' < n. cgf c ! n' \<noteq> cgf c ! n)
           \<longrightarrow> fl (cgf c ! n) = - lf c n)"
proof (induction k)
  case 0
  then show ?case by simp
next
  case (Suc k)
  then obtain fl fg where
    run: "fold B [0..<k] (\<lambda>f. 0, \<lambda>f. False) = (fl, fg)"
    and i1: "\<forall>g. fg g = (g < nfo \<and> (\<exists>c < k. g \<in> set (cgf c)))"
    and i2: "\<forall>g. \<not> g < nfo \<or> (\<forall>c < k. g \<notin> set (cgf c)) \<longrightarrow> fl g = 0"
    and i3: "\<forall>c < k. \<forall>n < length (cgf c).
           cgf c ! n < nfo \<and> (\<forall>c' < c. cgf c ! n \<notin> set (cgf c')) \<and> (\<forall>n' < n. cgf c ! n' \<noteq> cgf c ! n)
           \<longrightarrow> fl (cgf c ! n) = - lf c n"
    by blast
  let ?av = "cell_av mats shadows u_cell u_face (cgf k) k"
  from flux_face_loop [OF le_refl, of nfo "cgf k" "cgd k" ?av fl fg] obtain fl' fg' where
    inner: "fold (flux_face nfo (cgf k) (cgd k) ?av) [0..<length (cgf k)] (fl, fg) = (fl', fg')"
    and flg: "\<forall>g. fg' g = (fg g \<or> (g < nfo \<and> g \<in> set (cgf k)))"
    and keep: "\<forall>g. fg g \<or> \<not> g < nfo \<or> g \<notin> set (cgf k) \<longrightarrow> fl' g = fl g"
    and first: "\<forall>n < length (cgf k). \<not> fg (cgf k ! n) \<and> cgf k ! n < nfo
            \<and> (\<forall>n' < n. cgf k ! n' \<noteq> cgf k ! n)
            \<longrightarrow> fl' (cgf k ! n) = fl (cgf k ! n) - ?av n * real_of_int (cgd k ! n)"
    by auto
  have step: "fold B [0..<Suc k] (\<lambda>f. 0, \<lambda>f. False) = (fl', fg')"
    by (simp add: run [unfolded B_def] B_def flux_cell_def Let_def inner)
  have a: "\<forall>g. fg' g = (g < nfo \<and> (\<exists>c < Suc k. g \<in> set (cgf c)))"
    using flg i1 by (auto simp: less_Suc_eq)
  have b: "\<forall>g. \<not> g < nfo \<or> (\<forall>c < Suc k. g \<notin> set (cgf c)) \<longrightarrow> fl' g = 0"
  proof (intro allI impI)
    fix g assume h: "\<not> g < nfo \<or> (\<forall>c < Suc k. g \<notin> set (cgf c))"
    then have "\<not> g < nfo \<or> g \<notin> set (cgf k)" by auto
    then have "fl' g = fl g" using keep by blast
    moreover have "fl g = 0" using i2 h by (auto simp: less_Suc_eq)
    ultimately show "fl' g = 0" by simp
  qed
  have c: "\<forall>c < Suc k. \<forall>n < length (cgf c).
           cgf c ! n < nfo \<and> (\<forall>c' < c. cgf c ! n \<notin> set (cgf c')) \<and> (\<forall>n' < n. cgf c ! n' \<noteq> cgf c ! n)
           \<longrightarrow> fl' (cgf c ! n) = - lf c n"
  proof (intro allI impI)
    fix c n assume ck: "c < Suc k" and n: "n < length (cgf c)"
      and h: "cgf c ! n < nfo \<and> (\<forall>c' < c. cgf c ! n \<notin> set (cgf c')) \<and> (\<forall>n' < n. cgf c ! n' \<noteq> cgf c ! n)"
    show "fl' (cgf c ! n) = - lf c n"
    proof (cases "c = k")
      case True
      have nfg: "\<not> fg (cgf k ! n)" using i1 h True by auto
      have "fl (cgf k ! n) = 0" using i2 h True by auto
      moreover have "fl' (cgf k ! n) = fl (cgf k ! n) - ?av n * real_of_int (cgd k ! n)"
        using first n h nfg True by auto
      ultimately show ?thesis using True by (simp add: lf_def)
    next
      case False
      then have ck': "c < k" using ck by simp
      have "cgf c ! n \<in> set (cgf c)" using n by simp
      then have "fg (cgf c ! n)" using i1 h ck' by auto
      then have "fl' (cgf c ! n) = fl (cgf c ! n)" using keep by blast
      then show ?thesis using i3 ck' n h by simp
    qed
  qed
  show ?case using step a b c by blast
qed

text \<open>
  Claim C10.  UpdateFlux computes the flux of an owned face \<open>f\<close> once: from the first owned
  cell \<open>c\<close>, in ascending order, that contains \<open>f\<close> (at its first local position \<open>n\<close>), as
  minus \<open>av(n) * dirs[n]\<close> where \<open>av\<close> is the product of the cell's shadow matrix, if one was
  saved, and of its local matrix otherwise, with the cell's vector of face and cell values.
  Cells visited later do not change the entry.  A face that is not owned, or that no owned
  cell contains, keeps the initial zero.  The result is a function of the inputs only.
\<close>

theorem UpdateFlux_first_cell:
  fixes cell_get_faces :: "nat \<Rightarrow> nat list" and cell_get_dirs :: "nat \<Rightarrow> int list"
    and ncells_owned nfaces_owned mats shadows u_cell u_face
  defines "flux \<equiv> UpdateFlux ncells_owned nfaces_owned cell_get_faces cell_get_dirs
                      mats shadows u_cell u_face"
  shows "(\<forall>c < ncells_owned. \<forall>n < length (cell_get_faces c).
            cell_get_faces c ! n < nfaces_owned
          \<and> (\<forall>c' < c. cell_get_faces c ! n \<notin> set (cell_get_faces c'))
          \<and> (\<forall>n' < n. cell_get_faces c ! n' \<noteq> cell_get_faces c ! n)
          \<longrightarrow> flux (cell_get_faces c ! n) =
                - (Multiply (if NumRows (shadows c) = 0 then mats c else shadows c)
                     (cell_vector u_cell u_face (cell_get_faces c) c) n
                   * real_of_int (cell_get_dirs c ! n)))
       \<and> (\<forall>f. \<not> f < nfaces_owned \<or> (\<forall>c < ncells_owned. f \<notin> set (cell_get_faces c))
            \<longrightarrow> flux f = 0)"
  using flux_cell_loop [of nfaces_owned cell_get_faces cell_get_dirs mats shadows u_cell u_face
      ncells_owned]
  unfolding flux_def UpdateFlux_def cell_av_def
  by (auto simp: if_distrib [of "\<lambda>A. Multiply A _ _"] cong: if_cong)

theorem UpdateFlux_first_cell_witness:
  "(let flux = UpdateFlux 2 3
        (\<lambda>c. if c = 0 then [0, 1] else [1, 2])
        (\<lambda>c. [- 1, 1])
        (\<lambda>c. \<lparr>NumRows = 3, NumCols = 3, elem = (\<lambda>i j. if i = j then 2 else - 1)\<rparr>)
        (\<lambda>c. if c = 0 then \<lparr>NumRows = 3, NumCols = 3, elem = (\<lambda>i j. if i = j then 4 else - 2)\<rparr>
             else \<lparr>NumRows = 0, NumCols = 0, elem = (\<lambda>i j. 0)\<rparr>)
        (\<lambda>c. 1) (\<lambda>f. real f)
    in flux 1 = - 2 \<and> flux 2 = - 2 \<and> flux 5 = 0)"
proof -
  let ?cgf = "\<lambda>c::nat. if c = 0 then [0, 1::nat] else [1, 2]"
  let ?cgd = "\<lambda>c::nat. [- 1, 1::int]"
  let ?mats = "\<lambda>c::nat. \<lparr>NumRows = 3, NumCols = 3, elem = (\<lambda>i j::nat. if i = j then 2 else - 1 :: real)\<rparr>"
  let ?sh = "\<lambda>c::nat. if c = 0
             then \<lparr>NumRows = 3, NumCols = 3, elem = (\<lambda>i j::nat. if i = j then 4 else - 2 :: real)\<rparr>
             else \<lparr>NumRows = 0, NumCols = 0, elem = (\<lambda>i j. 0)\<rparr>"
  note th = UpdateFlux_first_cell [where ncells_owned = 2 and nfaces_owned = 3
      and cell_get_faces = ?cgf and cell_get_dirs = ?cgd and mats = ?mats and shadows = ?sh
      and u_cell = "\<lambda>c. 1" and u_face = "\<lambda>f. real f"]
  have upt3: "[0..<3] = [0, 1, 2]" by (simp add: upt_rec)
  have f1: "UpdateFlux 2 3 ?cgf ?cgd ?mats ?sh (\<lambda>c. 1) (\<lambda>f. real f) 1 = - 2"
    using th [THEN conjunct1, rule_format, of 0 1]
    by (simp add: Multiply_def cell_vector_def upt3)
  have f2: "UpdateFlux 2 3 ?cgf ?cgd ?mats ?sh (\<lambda>c. 1) (\<lambda>f. real f) 2 = - 2"
    using th [THEN conjunct1, rule_format, of 1 1]
    by (simp add: Multiply_def cell_vector_def upt3)
  have f5: "UpdateFlux 2 3 ?cgf ?cgd ?mats ?sh (\<lambda>c. 1) (\<lambda>f. real f) 5 = 0"
    using th [THEN conjunct2, rule_format, of 5] by simp
  show ?thesis using f1 f2 f5 by (simp add: Let_def)
qed

section \<open>OperatorDiffusionMFD: UpdateMatricesMixed\_ and UpdateMatricesMixedWithGrad\_\<close>

datatype upwind_method =
    OPERATOR_UPWIND_NONE
  | OPERATOR_UPWIND_FLUX
  | OPERATOR_UPWIND_AMANZI_ARTIFICIAL_DIFFUSION
  | OPERATOR_UPWIND_AMANZI_DIVK
  | OPERATOR_UPWIND_AMANZI_SECOND_ORDER

text \<open>
  The nonlinear coefficient \<open>k_\<close>, a composite vector: each component is present or not
  (\<open>HasComponent\<close>).  \<open>k_\<close> itself is a pointer that can be null (\<open>None\<close> below).
\<close>

record coefficient =
  comp_cell :: "(nat \<Rightarrow> real) option"
  comp_face :: "(nat \<Rightarrow> real) option"
  comp_twin :: "(nat \<Rightarrow> real) option"
  comp_grad :: "(nat \<Rightarrow> nat \<Rightarrow> real) option"

text \<open>
  \<open>ASSERT\<close> is a macro of \<open>dbc.hh\<close>; with \<open>dbc\<close> the check is compiled in and a false
  condition stops the program, without it the macro is empty.
\<close>

definition ASSERT :: "bool \<Rightarrow> bool \<Rightarrow> error + unit" where
  "ASSERT dbc cond = (if dbc \<and> \<not> cond then Inl AssertionFailed else Inr ())"

text \<open>
  The claim about these two functions is about exact equalities between sums of entries, so
  the arithmetic is not taken to be exact here: every function takes the rounding \<open>rnd\<close>
  and each sum, difference, product and quotient of the source is \<open>rnd\<close> of the exact
  value, in the order of the source (a product inside a sum is rounded before the sum is;
  the compiler is taken not to contract them).  A change of sign is exact.

  The double loops that fill the local matrix have one shape in all four variants:
  \<^verbatim>\<open>
  double matsum = 0.0;
  for (int n = 0; n < nfaces; n++) {
    double rowsum = 0.0;
    for (int m = 0; m < nfaces; m++) {
      double tmp = <entry n m>;
      rowsum += tmp;
      Acell(n, m) = tmp;
    }
    Acell(n, nfaces) = -rowsum;
    [ Acell(nfaces, n) = -rowsum; ]        // divk and second-order variants only
    matsum += <weight n rowsum>;
  }
  Acell(nfaces, nfaces) = matsum;
  \<close>
  \<open>row_entries\<close> is the inner loop, \<open>assemble_rows\<close> the outer loop with the final assignment.
\<close>

definition row_entry ::
  "(real \<Rightarrow> real) \<Rightarrow> (nat \<Rightarrow> nat \<Rightarrow> real) \<Rightarrow> nat \<Rightarrow> nat
     \<Rightarrow> real \<times> DenseMatrix \<Rightarrow> real \<times> DenseMatrix" where
  "row_entry rnd entry n m = (\<lambda>(rowsum, A).
     let tmp = entry n m in (rnd (rowsum + tmp), mat_set A n m tmp))"

definition row_entries ::
  "(real \<Rightarrow> real) \<Rightarrow> (nat \<Rightarrow> nat \<Rightarrow> real) \<Rightarrow> nat \<Rightarrow> nat \<Rightarrow> DenseMatrix
     \<Rightarrow> real \<times> DenseMatrix" where
  "row_entries rnd entry nfaces n Acell = fold (row_entry rnd entry n) [0..<nfaces] (0, Acell)"

definition assemble_row ::
  "(real \<Rightarrow> real) \<Rightarrow> (nat \<Rightarrow> nat \<Rightarrow> real) \<Rightarrow> (nat \<Rightarrow> real \<Rightarrow> real) \<Rightarrow> bool \<Rightarrow> nat \<Rightarrow> nat
     \<Rightarrow> real \<times> DenseMatrix \<Rightarrow> real \<times> DenseMatrix" where
  "assemble_row rnd entry weight mirror nfaces n = (\<lambda>(matsum, A).
     let (rowsum, A1) = row_entries rnd entry nfaces n A;
         A2 = mat_set A1 n nfaces (- rowsum);
         A3 = (if mirror then mat_set A2 nfaces n (- rowsum) else A2)
     in (rnd (matsum + weight n rowsum), A3))"

definition assemble_rows ::
  "(real \<Rightarrow> real) \<Rightarrow> (nat \<Rightarrow> nat \<Rightarrow> real) \<Rightarrow> (nat \<Rightarrow> real \<Rightarrow> real) \<Rightarrow> bool \<Rightarrow> nat
     \<Rightarrow> DenseMatrix \<Rightarrow> DenseMatrix" where
  "assemble_rows rnd entry weight mirror nfaces Acell =
     (let (matsum, A) =
            fold (assemble_row rnd entry weight mirror nfaces) [0..<nfaces] (0, Acell)
      in mat_set A nfaces nfaces matsum)"

text \<open>
  The loop that fills the cell row from the columns:
  \<^verbatim>\<open>
  for (int n = 0; n < nfaces; n++) {
    double colsum = 0.0;
    for (int m = 0; m < nfaces; m++) colsum += <term m Acell(m, n)>;
    Acell(nfaces, n) = -colsum;
  }
  \<close>
\<close>

definition column_sum ::
  "(real \<Rightarrow> real) \<Rightarrow> (nat \<Rightarrow> real \<Rightarrow> real) \<Rightarrow> nat \<Rightarrow> nat \<Rightarrow> DenseMatrix \<Rightarrow> DenseMatrix" where
  "column_sum rnd colterm nfaces n A =
     (let colsum = fold (\<lambda>m colsum. rnd (colsum + colterm m (elem A m n))) [0..<nfaces] 0
      in mat_set A nfaces n (- colsum))"

definition column_sums ::
  "(real \<Rightarrow> real) \<Rightarrow> (nat \<Rightarrow> real \<Rightarrow> real) \<Rightarrow> nat \<Rightarrow> DenseMatrix \<Rightarrow> DenseMatrix" where
  "column_sums rnd colterm nfaces Acell =
     fold (column_sum rnd colterm nfaces) [0..<nfaces] Acell"

text \<open>
  Amanzi's first upwind (artificial diffusion):
  \<^verbatim>\<open>
  double alpha = (*k_face)[0][f] - kc;
  if (alpha > 0) {
    alpha *= Wff(n, n);
    Acell(n, n) += alpha;            Acell(n, nfaces) -= alpha;
    Acell(nfaces, n) -= alpha;       Acell(nfaces, nfaces) += alpha;
  }
  \<close>
\<close>

definition add_artificial_diffusion ::
  "(real \<Rightarrow> real) \<Rightarrow> DenseMatrix \<Rightarrow> (nat \<Rightarrow> real) \<Rightarrow> real \<Rightarrow> nat list \<Rightarrow> nat \<Rightarrow> DenseMatrix
     \<Rightarrow> DenseMatrix" where
  "add_artificial_diffusion rnd Wff kface kc faces n Acell =
     (let nfaces = length faces; f = faces ! n; alpha = rnd (kface f - kc) in
      if alpha > 0 then
        (let alpha = rnd (alpha * elem Wff n n);
             A1 = mat_set Acell n n (rnd (elem Acell n n + alpha));
             A2 = mat_set A1 n nfaces (rnd (elem A1 n nfaces - alpha));
             A3 = mat_set A2 nfaces n (rnd (elem A2 nfaces n - alpha))
         in mat_set A3 nfaces nfaces (rnd (elem A3 nfaces nfaces + alpha)))
      else Acell)"

text \<open>
  The upwinded values \<open>kc\<close> and \<open>kf\<close> of cell \<open>c\<close>, in the order of the source's
  \<open>if\<close> chain.  \<open>kcell\<close>, \<open>kface\<close> and \<open>ktwin\<close> are the views the function holds (null
  when not set); reading through a null view is an error, and so is \<open>cells[0]\<close> for a face
  without cells.
\<close>

definition upwind_coefficients ::
  "upwind_method \<Rightarrow> (nat \<Rightarrow> real) option \<Rightarrow> (nat \<Rightarrow> real) option \<Rightarrow> (nat \<Rightarrow> real) option
     \<Rightarrow> (nat \<Rightarrow> nat list) \<Rightarrow> nat \<Rightarrow> nat list \<Rightarrow> error + real \<times> (nat \<Rightarrow> real)" where
  "upwind_coefficients upwind kcell kface ktwin face_get_cells c faces =
     (let kc = (case kcell of Some kcv \<Rightarrow> kcv c | None \<Rightarrow> 1) in
      if upwind = OPERATOR_UPWIND_AMANZI_ARTIFICIAL_DIFFUSION then Inr (kc, \<lambda>n. kc)
      else if upwind = OPERATOR_UPWIND_AMANZI_DIVK \<and> ktwin = None then
        (case kface of None \<Rightarrow> Inl NullPointer
         | Some kfv \<Rightarrow> Inr (kc, \<lambda>n. kfv (faces ! n)))
      else if upwind = OPERATOR_UPWIND_AMANZI_DIVK \<and> ktwin \<noteq> None then
        (case (kface, ktwin) of
           (Some kfv, Some ktv) \<Rightarrow>
             if list_ex (\<lambda>f. face_get_cells f = []) faces then Inl OutOfRange
             else Inr (kc, \<lambda>n. let f = faces ! n in
                                if c = face_get_cells f ! 0 then kfv f else ktv f)
         | _ \<Rightarrow> Inl NullPointer)
      else if upwind = OPERATOR_UPWIND_NONE \<and> kcell \<noteq> None then Inr (kc, \<lambda>n. kc)
      else if upwind = OPERATOR_UPWIND_FLUX then
        (case kface of None \<Rightarrow> Inl NullPointer
         | Some kfv \<Rightarrow> Inr (1, \<lambda>n. kfv (faces ! n)))
      else Inr (1, \<lambda>n. 1))"

text \<open>
  The body of the loop over the owned cells of UpdateMatricesMixed\_.  \<open>Wff\<close> is
  \<open>Wff_cells_[c]\<close>; \<open>Acell0\<close> is the freshly allocated, not initialised, matrix of
  dimension \<open>nfaces + 1\<close>.  The division by \<open>kc\<close> of the divk variant has no real value for
  \<open>kc = 0\<close>; it is evaluated once per entry of the face block.
\<close>

definition mixed_cell ::
  "(real \<Rightarrow> real) \<Rightarrow> bool \<Rightarrow> upwind_method \<Rightarrow> bool \<Rightarrow> (nat \<Rightarrow> real) option
     \<Rightarrow> (nat \<Rightarrow> real) option \<Rightarrow> (nat \<Rightarrow> real) option \<Rightarrow> (nat \<Rightarrow> nat list) \<Rightarrow> nat \<Rightarrow> nat list
     \<Rightarrow> DenseMatrix \<Rightarrow> (nat \<Rightarrow> nat \<Rightarrow> real) \<Rightarrow> error + DenseMatrix" where
  "mixed_cell rnd dbc upwind scaled_constraint kcell kface ktwin face_get_cells c faces Wff
       junk =
     (let nfaces = length faces;
          Acell0 = \<lparr>NumRows = nfaces + 1, NumCols = nfaces + 1, elem = junk\<rparr> in
      case upwind_coefficients upwind kcell kface ktwin face_get_cells c faces of
        Inl e \<Rightarrow> Inl e
      | Inr (kc, kf) \<Rightarrow>
        (let Acell1 =
               (if upwind \<noteq> OPERATOR_UPWIND_AMANZI_DIVK then
                  (if \<not> scaled_constraint then
                     column_sums rnd (\<lambda>m x. x) nfaces
                       (assemble_rows rnd (\<lambda>n m. rnd (elem Wff n m * kf n))
                          (\<lambda>n rowsum. rowsum) False nfaces Acell0)
                   else
                     column_sums rnd (\<lambda>m x. rnd (x * kf m)) nfaces
                       (assemble_rows rnd (\<lambda>n m. elem Wff n m)
                          (\<lambda>n rowsum. rnd (rowsum * kf n)) False nfaces Acell0))
                else Acell0) in
         case (if upwind = OPERATOR_UPWIND_AMANZI_ARTIFICIAL_DIFFUSION then
                 (case ASSERT dbc (\<not> scaled_constraint) of
                    Inl e \<Rightarrow> Inl e
                  | Inr _ \<Rightarrow>
                    (case kface of None \<Rightarrow> Inl NullPointer
                     | Some kfv \<Rightarrow>
                         Inr (fold (add_artificial_diffusion rnd Wff kfv kc faces) [0..<nfaces]
                                Acell1)))
               else Inr Acell1) of
           Inl e \<Rightarrow> Inl e
         | Inr Acell2 \<Rightarrow>
           (if upwind = OPERATOR_UPWIND_AMANZI_DIVK then
              (case ASSERT dbc (\<not> scaled_constraint) of
                 Inl e \<Rightarrow> Inl e
               | Inr _ \<Rightarrow>
                   if kc = 0 \<and> nfaces > 0 then Inl DivisionByZero
                   else Inr (assemble_rows rnd
                               (\<lambda>n m. rnd (rnd (rnd (elem Wff n m * kf n) * kf m) / kc))
                               (\<lambda>n rowsum. rowsum) True nfaces Acell2))
            else Inr Acell2)))"

text \<open>
  UpdateMatricesMixed\_: the views are taken from \<open>k_\<close> (the face view is taken, through
  the pointer, for the three upwind methods that read it), then every owned cell gets its
  matrix.
\<close>

definition store_cell ::
  "(nat \<Rightarrow> error + DenseMatrix) \<Rightarrow> nat \<Rightarrow> (nat \<Rightarrow> DenseMatrix) \<Rightarrow> error + (nat \<Rightarrow> DenseMatrix)" where
  "store_cell cell c mats = (case cell c of Inl e \<Rightarrow> Inl e | Inr Acell \<Rightarrow> Inr (mats(c := Acell)))"

definition UpdateMatricesMixed ::
  "(real \<Rightarrow> real) \<Rightarrow> bool \<Rightarrow> upwind_method \<Rightarrow> bool \<Rightarrow> coefficient option \<Rightarrow> (nat \<Rightarrow> nat list)
     \<Rightarrow> (nat \<Rightarrow> nat list) \<Rightarrow> nat \<Rightarrow> (nat \<Rightarrow> DenseMatrix) \<Rightarrow> (nat \<Rightarrow> nat \<Rightarrow> nat \<Rightarrow> real)
     \<Rightarrow> (nat \<Rightarrow> DenseMatrix) \<Rightarrow> error + (nat \<Rightarrow> DenseMatrix)" where
  "UpdateMatricesMixed rnd dbc upwind scaled_constraint k face_get_cells cell_get_faces
       ncells_owned Wff_cells junk mats =
     (let kcell = (case k of None \<Rightarrow> None | Some kk \<Rightarrow> comp_cell kk);
          ktwin = (case k of None \<Rightarrow> None | Some kk \<Rightarrow> comp_twin kk) in
      case (if upwind = OPERATOR_UPWIND_FLUX
               \<or> upwind = OPERATOR_UPWIND_AMANZI_ARTIFICIAL_DIFFUSION
               \<or> upwind = OPERATOR_UPWIND_AMANZI_DIVK
            then (case k of None \<Rightarrow> Inl NullPointer
                  | Some kk \<Rightarrow> (case comp_face kk of
                       None \<Rightarrow> Inl (FatalError ''no component face'')
                     | Some kfv \<Rightarrow> Inr (Some kfv)))
            else Inr None) of
        Inl e \<Rightarrow> Inl e
      | Inr kface \<Rightarrow>
          foreach [0..<ncells_owned]
            (store_cell (\<lambda>c. mixed_cell rnd dbc upwind scaled_constraint kcell kface ktwin
                               face_get_cells c (cell_get_faces c) (Wff_cells c) (junk c)))
            mats)"

text \<open>
  UpdateMatricesMixedWithGrad\_ (second-order upwind).  The inverse mass matrix \<open>Wff\<close> of the
  cell is the output of \<open>MassMatrixInverseDivKScaled\<close>, a routine of the discretization
  library; here it is given, and so the gradient component of \<open>k_\<close> is only required
  to be present.  All views are read through \<open>k_\<close>.
\<close>

definition grad_cell ::
  "(real \<Rightarrow> real) \<Rightarrow> (nat \<Rightarrow> real) \<Rightarrow> (nat \<Rightarrow> real) option \<Rightarrow> (nat \<Rightarrow> nat list) \<Rightarrow> nat
     \<Rightarrow> nat list \<Rightarrow> DenseMatrix \<Rightarrow> (nat \<Rightarrow> nat \<Rightarrow> real) \<Rightarrow> error + DenseMatrix" where
  "grad_cell rnd kfv ktwin face_get_cells c faces Wff junk =
     (let nfaces = length faces;
          Acell0 = \<lparr>NumRows = nfaces + 1, NumCols = nfaces + 1, elem = junk\<rparr> in
      case (case ktwin of
              None \<Rightarrow> Inr (\<lambda>n. kfv (faces ! n))
            | Some ktv \<Rightarrow>
                if list_ex (\<lambda>f. face_get_cells f = []) faces then Inl OutOfRange
                else Inr (\<lambda>n. let f = faces ! n in
                                if c = face_get_cells f ! 0 then kfv f else ktv f)) of
        Inl e \<Rightarrow> Inl e
      | Inr kf \<Rightarrow>
          Inr (assemble_rows rnd (\<lambda>n m. rnd (rnd (elem Wff n m * kf n) * kf m))
                 (\<lambda>n rowsum. rowsum) True nfaces Acell0))"

definition UpdateMatricesMixedWithGrad ::
  "(real \<Rightarrow> real) \<Rightarrow> bool \<Rightarrow> bool \<Rightarrow> coefficient option \<Rightarrow> (nat \<Rightarrow> nat list) \<Rightarrow> (nat \<Rightarrow> nat list)
     \<Rightarrow> nat \<Rightarrow> (nat \<Rightarrow> DenseMatrix) \<Rightarrow> (nat \<Rightarrow> nat \<Rightarrow> nat \<Rightarrow> real) \<Rightarrow> (nat \<Rightarrow> DenseMatrix)
     \<Rightarrow> error + (nat \<Rightarrow> DenseMatrix)" where
  "UpdateMatricesMixedWithGrad rnd dbc scaled_constraint k face_get_cells cell_get_faces
       ncells_owned Wff_cells junk mats =
     (case ASSERT dbc (\<not> scaled_constraint) of
        Inl e \<Rightarrow> Inl e
      | Inr _ \<Rightarrow>
        (case k of
           None \<Rightarrow> if ncells_owned = 0 then Inr mats else Inl NullPointer
         | Some kk \<Rightarrow>
           (case (comp_cell kk, comp_face kk, comp_grad kk) of
              (Some kcv, Some kfv, Some kgv) \<Rightarrow>
                foreach [0..<ncells_owned]
                  (store_cell (\<lambda>c. grad_cell rnd kfv (comp_twin kk) face_get_cells c
                                     (cell_get_faces c) (Wff_cells c) (junk c)))
                  mats
            | _ \<Rightarrow> Inl (FatalError ''no component''))))"

text \<open>
  How the cell row of a local matrix \<open>A\<close> with \<open>nfaces\<close> faces can be built from its face
  block: from the column sums, with row \<open>m\<close> weighted by \<open>w m\<close>, or from the row sums.
\<close>

definition cell_row_from_columns :: "(nat \<Rightarrow> real) \<Rightarrow> nat \<Rightarrow> DenseMatrix \<Rightarrow> bool" where
  "cell_row_from_columns w nfaces A \<longleftrightarrow>
     (\<forall>j < nfaces. elem A nfaces j = - (\<Sum>m < nfaces. elem A m j * w m))
   \<and> elem A nfaces nfaces = (\<Sum>n < nfaces. (\<Sum>m < nfaces. elem A n m) * w n)"

definition cell_row_from_rows :: "nat \<Rightarrow> DenseMatrix \<Rightarrow> bool" where
  "cell_row_from_rows nfaces A \<longleftrightarrow>
     (\<forall>j < nfaces. elem A nfaces j = - (\<Sum>m < nfaces. elem A j m))
   \<and> elem A nfaces nfaces = (\<Sum>n < nfaces. \<Sum>m < nfaces. elem A n m)"

text \<open>
  The values \<open>kf[n]\<close> the source takes for the upwind methods other than divk and
  artificial diffusion: the face value of \<open>k_\<close> for the upwind by the flux, the cell value
  without upwind when \<open>k_\<close> has a cell component, and 1 in every other case.
\<close>

definition upwind_weight :: "upwind_method \<Rightarrow> coefficient option \<Rightarrow> nat \<Rightarrow> nat list \<Rightarrow> nat \<Rightarrow> real" where
  "upwind_weight upwind k c faces n =
     (if upwind = OPERATOR_UPWIND_FLUX then
        (case k of
           Some kk \<Rightarrow> (case comp_face kk of Some kfv \<Rightarrow> kfv (faces ! n) | None \<Rightarrow> 1)
         | None \<Rightarrow> 1)
      else if upwind = OPERATOR_UPWIND_NONE then
        (case k of
           Some kk \<Rightarrow> (case comp_cell kk of Some kcv \<Rightarrow> kcv c | None \<Rightarrow> 1)
         | None \<Rightarrow> 1)
      else 1)"

lemma row_entries_loop:
  "\<exists>A'. fold (row_entry exact_arithmetic entry n) [0..<k] (0, Acell) = (\<Sum>m<k. entry n m, A')
      \<and> NumRows A' = NumRows Acell \<and> NumCols A' = NumCols Acell
      \<and> (\<forall>i j. elem A' i j = (if i = n \<and> j < k then entry n j else elem Acell i j))"
proof (induction k)
  case 0
  then show ?case by simp
next
  case (Suc k)
  then obtain A' where
    run: "fold (row_entry exact_arithmetic entry n) [0..<k] (0, Acell) = (\<Sum>m<k. entry n m, A')"
    and dims: "NumRows A' = NumRows Acell" "NumCols A' = NumCols Acell"
    and el: "\<forall>i j. elem A' i j = (if i = n \<and> j < k then entry n j else elem Acell i j)"
    by blast
  have "fold (row_entry exact_arithmetic entry n) [0..<Suc k] (0, Acell) =
          (\<Sum>m<Suc k. entry n m, mat_set A' n k (entry n k))"
    by (simp add: run row_entry_def Let_def)
  moreover have "\<forall>i j. elem (mat_set A' n k (entry n k)) i j =
                  (if i = n \<and> j < Suc k then entry n j else elem Acell i j)"
    using el by (auto simp: less_Suc_eq)
  ultimately show ?case using dims by (intro exI [of _ "mat_set A' n k (entry n k)"]) simp
qed

lemma row_entries_eq:
  "\<exists>A'. row_entries exact_arithmetic entry nfaces n Acell = (\<Sum>m<nfaces. entry n m, A')
      \<and> NumRows A' = NumRows Acell \<and> NumCols A' = NumCols Acell
      \<and> (\<forall>i j. elem A' i j = (if i = n \<and> j < nfaces then entry n j else elem Acell i j))"
  unfolding row_entries_def by (rule row_entries_loop)

definition rows_filled ::
  "(nat \<Rightarrow> nat \<Rightarrow> real) \<Rightarrow> bool \<Rightarrow> nat \<Rightarrow> nat \<Rightarrow> DenseMatrix \<Rightarrow> nat \<Rightarrow> nat \<Rightarrow> real" where
  "rows_filled entry mirror nfaces k Acell i j =
     (if i < k \<and> j < nfaces then entry i j
      else if i < k \<and> j = nfaces then - (\<Sum>m<nfaces. entry i m)
      else if mirror \<and> i = nfaces \<and> j < k then - (\<Sum>m<nfaces. entry j m)
      else elem Acell i j)"

lemma assemble_rows_loop:
  assumes "k \<le> nfaces"
  shows "\<exists>A'. fold (assemble_row exact_arithmetic entry weight mirror nfaces) [0..<k] (0, Acell) =
               (\<Sum>n<k. weight n (\<Sum>m<nfaces. entry n m), A')
      \<and> NumRows A' = NumRows Acell \<and> NumCols A' = NumCols Acell
      \<and> (\<forall>i j. elem A' i j = rows_filled entry mirror nfaces k Acell i j)"
  using assms
proof (induction k)
  case 0
  then show ?case by (simp add: rows_filled_def)
next
  case (Suc k)
  have kl: "k \<le> nfaces" and klt: "k < nfaces" using Suc.prems by simp_all
  from Suc.IH [OF kl] obtain A' where
    run: "fold (assemble_row exact_arithmetic entry weight mirror nfaces) [0..<k] (0, Acell) =
            (\<Sum>n<k. weight n (\<Sum>m<nfaces. entry n m), A')"
    and dims: "NumRows A' = NumRows Acell" "NumCols A' = NumCols Acell"
    and el: "\<forall>i j. elem A' i j = rows_filled entry mirror nfaces k Acell i j"
    by blast
  from row_entries_eq [of entry nfaces k A'] obtain A1 where
    r1: "row_entries exact_arithmetic entry nfaces k A' = (\<Sum>m<nfaces. entry k m, A1)"
    and d1: "NumRows A1 = NumRows A'" "NumCols A1 = NumCols A'"
    and e1: "\<forall>i j. elem A1 i j = (if i = k \<and> j < nfaces then entry k j else elem A' i j)"
    by blast
  let ?S = "\<Sum>m<nfaces. entry k m"
  let ?A2 = "mat_set A1 k nfaces (- ?S)"
  let ?A3 = "if mirror then mat_set ?A2 nfaces k (- ?S) else ?A2"
  have step: "fold (assemble_row exact_arithmetic entry weight mirror nfaces) [0..<Suc k] (0, Acell) =
                (\<Sum>n<Suc k. weight n (\<Sum>m<nfaces. entry n m), ?A3)"
    by (simp add: run assemble_row_def r1 Let_def)
  have e3: "\<forall>i j. elem ?A3 i j = rows_filled entry mirror nfaces (Suc k) Acell i j"
    using e1 el klt by (auto simp: rows_filled_def less_Suc_eq)
  have d3: "NumRows ?A3 = NumRows Acell" "NumCols ?A3 = NumCols Acell"
    using d1 dims by simp_all
  show ?case using step e3 d3 by blast
qed

lemma assemble_rows_elem:
  "elem (assemble_rows exact_arithmetic entry weight mirror nfaces Acell) i j =
     (if i = nfaces \<and> j = nfaces then (\<Sum>n<nfaces. weight n (\<Sum>m<nfaces. entry n m))
      else rows_filled entry mirror nfaces nfaces Acell i j)"
  and assemble_rows_NumRows: "NumRows (assemble_rows exact_arithmetic entry weight mirror nfaces Acell) = NumRows Acell"
  and assemble_rows_NumCols: "NumCols (assemble_rows exact_arithmetic entry weight mirror nfaces Acell) = NumCols Acell"
proof -
  from assemble_rows_loop [OF le_refl, where entry = entry and mirror = mirror
      and weight = weight and Acell = Acell and k = nfaces] obtain A' where
    run: "fold (assemble_row exact_arithmetic entry weight mirror nfaces) [0..<nfaces] (0, Acell) =
            (\<Sum>n<nfaces. weight n (\<Sum>m<nfaces. entry n m), A')"
    and dims: "NumRows A' = NumRows Acell" "NumCols A' = NumCols Acell"
    and el: "\<forall>i j. elem A' i j = rows_filled entry mirror nfaces nfaces Acell i j"
    by blast
  have eq: "assemble_rows exact_arithmetic entry weight mirror nfaces Acell =
          mat_set A' nfaces nfaces (\<Sum>n<nfaces. weight n (\<Sum>m<nfaces. entry n m))"
    unfolding assemble_rows_def run by simp
  show "elem (assemble_rows exact_arithmetic entry weight mirror nfaces Acell) i j =
     (if i = nfaces \<and> j = nfaces then (\<Sum>n<nfaces. weight n (\<Sum>m<nfaces. entry n m))
      else rows_filled entry mirror nfaces nfaces Acell i j)"
    using el by (simp add: eq)
  show "NumRows (assemble_rows exact_arithmetic entry weight mirror nfaces Acell) = NumRows Acell"
    using dims by (simp add: eq)
  show "NumCols (assemble_rows exact_arithmetic entry weight mirror nfaces Acell) = NumCols Acell"
    using dims by (simp add: eq)
qed

lemma colsum_fold:
  "fold (\<lambda>m colsum. colsum + g m) [0..<k] (s::real) = s + (\<Sum>m<k. g m)"
  by (induction k) simp_all

lemma column_sums_loop:
  assumes "k \<le> nfaces"
  shows "\<exists>A'. fold (column_sum exact_arithmetic colterm nfaces) [0..<k] Acell = A'
      \<and> NumRows A' = NumRows Acell \<and> NumCols A' = NumCols Acell
      \<and> (\<forall>i j. elem A' i j = (if i = nfaces \<and> j < k
                                then - (\<Sum>m<nfaces. colterm m (elem Acell m j))
                                else elem Acell i j))"
  using assms
proof (induction k)
  case 0
  then show ?case by simp
next
  case (Suc k)
  have kl: "k \<le> nfaces" using Suc.prems by simp
  from Suc.IH [OF kl] obtain A' where
    run: "fold (column_sum exact_arithmetic colterm nfaces) [0..<k] Acell = A'"
    and dims: "NumRows A' = NumRows Acell" "NumCols A' = NumCols Acell"
    and el: "\<forall>i j. elem A' i j = (if i = nfaces \<and> j < k
                                then - (\<Sum>m<nfaces. colterm m (elem Acell m j))
                                else elem Acell i j)"
    by blast
  have same: "(\<Sum>m<nfaces. colterm m (elem A' m k)) = (\<Sum>m<nfaces. colterm m (elem Acell m k))"
    using el by (intro sum.cong) auto
  have step: "fold (column_sum exact_arithmetic colterm nfaces) [0..<Suc k] Acell =
                mat_set A' nfaces k (- (\<Sum>m<nfaces. colterm m (elem Acell m k)))"
    by (simp add: run column_sum_def Let_def colsum_fold same)
  show ?case
    unfolding step using el dims by (auto simp: less_Suc_eq)
qed

lemma column_sums_elem:
  "elem (column_sums exact_arithmetic colterm nfaces Acell) i j =
     (if i = nfaces \<and> j < nfaces then - (\<Sum>m<nfaces. colterm m (elem Acell m j))
      else elem Acell i j)"
  and column_sums_NumRows: "NumRows (column_sums exact_arithmetic colterm nfaces Acell) = NumRows Acell"
  and column_sums_NumCols: "NumCols (column_sums exact_arithmetic colterm nfaces Acell) = NumCols Acell"
  using column_sums_loop [OF le_refl, of colterm nfaces Acell]
  unfolding column_sums_def by auto

definition row_sums_zero :: "nat \<Rightarrow> DenseMatrix \<Rightarrow> bool" where
  "row_sums_zero nfaces A \<longleftrightarrow> (\<forall>i \<le> nfaces. (\<Sum>j \<le> nfaces. elem A i j) = 0)"

lemma sum_atMost_split: "(\<Sum>j \<le> n. f j) = (\<Sum>j < n. f j) + (f (n::nat) :: real)"
  using sum.lessThan_Suc [of f n] by (simp add: lessThan_Suc_atMost)

lemma sum_delta_guarded:
  "c \<le> N \<Longrightarrow> (\<Sum>j \<le> (N::nat). if P \<and> j = c then a else 0) = (if P then a else (0::real))"
  by (cases P) simp_all

lemma rows_then_columns_zero:
  assumes ct: "\<And>m x. colterm m x = x * cw m" and wt: "\<And>n r. weight n r = r * cw n"
  shows "row_sums_zero nfaces
           (column_sums exact_arithmetic colterm nfaces (assemble_rows exact_arithmetic entry weight False nfaces Acell0))"
  unfolding row_sums_zero_def
proof (intro allI impI)
  fix i assume "i \<le> nfaces"
  let ?B = "assemble_rows exact_arithmetic entry weight False nfaces Acell0"
  let ?C = "column_sums exact_arithmetic colterm nfaces ?B"
  show "(\<Sum>j \<le> nfaces. elem ?C i j) = 0"
  proof (cases "i = nfaces")
    case False
    with \<open>i \<le> nfaces\<close> have il: "i < nfaces" by simp
    have "(\<Sum>j < nfaces. elem ?C i j) = (\<Sum>j < nfaces. entry i j)"
      using il by (intro sum.cong)
        (auto simp: column_sums_elem assemble_rows_elem rows_filled_def)
    moreover have "elem ?C i nfaces = - (\<Sum>j < nfaces. entry i j)"
      using il by (simp add: column_sums_elem assemble_rows_elem rows_filled_def)
    ultimately show ?thesis by (simp add: sum_atMost_split)
  next
    case True
    have col: "\<And>j. j < nfaces \<Longrightarrow> elem ?C nfaces j = - (\<Sum>m < nfaces. entry m j * cw m)"
    proof -
      fix j assume j: "j < nfaces"
      have "(\<Sum>m < nfaces. colterm m (elem ?B m j)) = (\<Sum>m < nfaces. entry m j * cw m)"
        using j by (intro sum.cong) (auto simp: ct assemble_rows_elem rows_filled_def)
      then show "elem ?C nfaces j = - (\<Sum>m < nfaces. entry m j * cw m)"
        using j by (simp add: column_sums_elem)
    qed
    have "(\<Sum>j < nfaces. elem ?C nfaces j) = (\<Sum>j < nfaces. - (\<Sum>m < nfaces. entry m j * cw m))"
      by (intro sum.cong) (auto simp: col)
    also have "\<dots> = - (\<Sum>j < nfaces. \<Sum>m < nfaces. entry m j * cw m)"
      by (simp add: sum_negf)
    also have "\<dots> = - (\<Sum>m < nfaces. \<Sum>j < nfaces. entry m j * cw m)"
      by (subst sum.swap) simp
    finally have cellrow: "(\<Sum>j < nfaces. elem ?C nfaces j) =
                   - (\<Sum>m < nfaces. \<Sum>j < nfaces. entry m j * cw m)" .
    have diag: "elem ?C nfaces nfaces = (\<Sum>n < nfaces. (\<Sum>m < nfaces. entry n m * cw n))"
      by (simp add: column_sums_elem assemble_rows_elem wt sum_distrib_right)
    show ?thesis unfolding True by (simp add: sum_atMost_split cellrow diag)
  qed
qed

lemma mirrored_rows_zero:
  "row_sums_zero nfaces (assemble_rows exact_arithmetic entry (\<lambda>n rowsum. rowsum) True nfaces Acell0)"
  unfolding row_sums_zero_def
proof (intro allI impI)
  fix i assume "i \<le> nfaces"
  let ?B = "assemble_rows exact_arithmetic entry (\<lambda>n rowsum. rowsum) True nfaces Acell0"
  show "(\<Sum>j \<le> nfaces. elem ?B i j) = 0"
  proof (cases "i = nfaces")
    case False
    with \<open>i \<le> nfaces\<close> have il: "i < nfaces" by simp
    have "(\<Sum>j < nfaces. elem ?B i j) = (\<Sum>j < nfaces. entry i j)"
      using il by (intro sum.cong) (auto simp: assemble_rows_elem rows_filled_def)
    moreover have "elem ?B i nfaces = - (\<Sum>j < nfaces. entry i j)"
      using il by (simp add: assemble_rows_elem rows_filled_def)
    ultimately show ?thesis by (simp add: sum_atMost_split)
  next
    case True
    have "(\<Sum>j < nfaces. elem ?B nfaces j) = (\<Sum>j < nfaces. - (\<Sum>m < nfaces. entry j m))"
      by (intro sum.cong) (auto simp: assemble_rows_elem rows_filled_def)
    then have cellrow: "(\<Sum>j < nfaces. elem ?B nfaces j) = - (\<Sum>j < nfaces. \<Sum>m < nfaces. entry j m)"
      by (simp add: sum_negf)
    have diag: "elem ?B nfaces nfaces = (\<Sum>n < nfaces. \<Sum>m < nfaces. entry n m)"
      by (simp add: assemble_rows_elem)
    show ?thesis unfolding True by (simp add: sum_atMost_split cellrow diag)
  qed
qed

lemma add_artificial_diffusion_elem:
  assumes "n < length faces"
  shows "\<exists>a. \<forall>i j. elem (add_artificial_diffusion exact_arithmetic Wff kface kc faces n Acell) i j =
           elem Acell i j
           + (if i = n \<and> j = n then a else 0) - (if i = n \<and> j = length faces then a else 0)
           - (if i = length faces \<and> j = n then a else 0)
           + (if i = length faces \<and> j = length faces then a else 0)"
proof (cases "kface (faces ! n) - kc > 0")
  case True
  then show ?thesis using assms
    by (intro exI [of _ "(kface (faces ! n) - kc) * elem Wff n n"])
       (auto simp: add_artificial_diffusion_def Let_def)
next
  case False
  then show ?thesis
    by (intro exI [of _ 0]) (simp add: add_artificial_diffusion_def Let_def)
qed

lemma add_artificial_diffusion_rows:
  assumes "n < length faces" and "row_sums_zero (length faces) Acell"
  shows "row_sums_zero (length faces) (add_artificial_diffusion exact_arithmetic Wff kface kc faces n Acell)"
proof -
  from add_artificial_diffusion_elem [OF assms(1), of Wff kface kc Acell] obtain a where
    el: "\<forall>i j. elem (add_artificial_diffusion exact_arithmetic Wff kface kc faces n Acell) i j =
           elem Acell i j
           + (if i = n \<and> j = n then a else 0) - (if i = n \<and> j = length faces then a else 0)
           - (if i = length faces \<and> j = n then a else 0)
           + (if i = length faces \<and> j = length faces then a else 0)"
    by blast
  show ?thesis
    unfolding row_sums_zero_def
  proof (intro allI impI)
    fix i assume i: "i \<le> length faces"
    have z: "(\<Sum>j \<le> length faces. elem Acell i j) = 0"
      using assms(2) i by (simp add: row_sums_zero_def)
    have "(\<Sum>j \<le> length faces. elem (add_artificial_diffusion exact_arithmetic Wff kface kc faces n Acell) i j) =
          (\<Sum>j \<le> length faces. elem Acell i j)
          + (\<Sum>j \<le> length faces. if i = n \<and> j = n then a else 0)
          - (\<Sum>j \<le> length faces. if i = n \<and> j = length faces then a else 0)
          - (\<Sum>j \<le> length faces. if i = length faces \<and> j = n then a else 0)
          + (\<Sum>j \<le> length faces. if i = length faces \<and> j = length faces then a else 0)"
      by (simp add: el sum.distrib sum_subtractf)
    also have "\<dots> = 0"
      using assms(1) by (simp add: z sum_delta_guarded)
    finally show "(\<Sum>j \<le> length faces.
        elem (add_artificial_diffusion exact_arithmetic Wff kface kc faces n Acell) i j) = 0" .
  qed
qed

lemma add_artificial_diffusion_loop:
  assumes "k \<le> length faces" and "row_sums_zero (length faces) Acell"
  shows "row_sums_zero (length faces)
           (fold (add_artificial_diffusion exact_arithmetic Wff kface kc faces) [0..<k] Acell)"
  using assms(1)
proof (induction k)
  case 0
  then show ?case using assms(2) by simp
next
  case (Suc k)
  then show ?case by (simp add: add_artificial_diffusion_rows)
qed

lemma add_artificial_diffusion_dims [simp]:
  "NumRows (add_artificial_diffusion exact_arithmetic Wff kface kc faces n Acell) = NumRows Acell"
  "NumCols (add_artificial_diffusion exact_arithmetic Wff kface kc faces n Acell) = NumCols Acell"
  by (simp_all add: add_artificial_diffusion_def Let_def)

lemma add_artificial_diffusion_loop_dims [simp]:
  "NumRows (fold (add_artificial_diffusion exact_arithmetic Wff kface kc faces) [0..<k] Acell) = NumRows Acell"
  "NumCols (fold (add_artificial_diffusion exact_arithmetic Wff kface kc faces) [0..<k] Acell) = NumCols Acell"
  by (induction k) simp_all

definition local_matrix_ok :: "nat \<Rightarrow> DenseMatrix \<Rightarrow> bool" where
  "local_matrix_ok nfaces A \<longleftrightarrow>
     NumRows A = nfaces + 1 \<and> NumCols A = nfaces + 1 \<and> row_sums_zero nfaces A"

lemma mixed_cell_ok:
  assumes run: "mixed_cell exact_arithmetic dbc upwind scaled_constraint kcell kface ktwin face_get_cells c faces
                  Wff junk = Inr Acell"
  shows "local_matrix_ok (length faces) Acell"
proof -
  let ?nf = "length faces"
  let ?A0 = "\<lparr>NumRows = ?nf + 1, NumCols = ?nf + 1, elem = junk\<rparr>"
  from run obtain kc kf where
    uc: "upwind_coefficients upwind kcell kface ktwin face_get_cells c faces = Inr (kc, kf)"
    by (cases "upwind_coefficients upwind kcell kface ktwin face_get_cells c faces")
       (auto simp: mixed_cell_def Let_def)
  define A1 where "A1 =
    (if \<not> scaled_constraint then
       column_sums exact_arithmetic (\<lambda>m x. x) ?nf
         (assemble_rows exact_arithmetic (\<lambda>n m. elem Wff n m * kf n) (\<lambda>n rowsum. rowsum) False ?nf ?A0)
     else
       column_sums exact_arithmetic (\<lambda>m x. x * kf m) ?nf
         (assemble_rows exact_arithmetic (\<lambda>n m. elem Wff n m) (\<lambda>n rowsum. rowsum * kf n) False ?nf ?A0))"
  have A1ok: "local_matrix_ok ?nf A1"
  proof (cases scaled_constraint)
    case False
    have "row_sums_zero ?nf (column_sums exact_arithmetic (\<lambda>m x. x) ?nf
         (assemble_rows exact_arithmetic (\<lambda>n m. elem Wff n m * kf n) (\<lambda>n rowsum. rowsum) False ?nf ?A0))"
      by (rule rows_then_columns_zero [where cw = "\<lambda>m. 1"]) simp_all
    then show ?thesis using False
      by (simp add: A1_def local_matrix_ok_def column_sums_NumRows column_sums_NumCols
          assemble_rows_NumRows assemble_rows_NumCols)
  next
    case True
    have "row_sums_zero ?nf (column_sums exact_arithmetic (\<lambda>m x. x * kf m) ?nf
         (assemble_rows exact_arithmetic (\<lambda>n m. elem Wff n m) (\<lambda>n rowsum. rowsum * kf n) False ?nf ?A0))"
      by (rule rows_then_columns_zero [where cw = kf]) simp_all
    then show ?thesis using True
      by (simp add: A1_def local_matrix_ok_def column_sums_NumRows column_sums_NumCols
          assemble_rows_NumRows assemble_rows_NumCols)
  qed
  show ?thesis
  proof (cases "upwind = OPERATOR_UPWIND_AMANZI_DIVK")
    case True
    from run uc have "Acell = assemble_rows exact_arithmetic (\<lambda>n m. elem Wff n m * kf n * kf m / kc)
                               (\<lambda>n rowsum. rowsum) True ?nf ?A0"
      by (auto simp: mixed_cell_def Let_def True split: sum.splits if_splits)
    then show ?thesis
      by (simp add: local_matrix_ok_def mirrored_rows_zero assemble_rows_NumRows
          assemble_rows_NumCols)
  next
    case notdivk: False
    show ?thesis
    proof (cases "upwind = OPERATOR_UPWIND_AMANZI_ARTIFICIAL_DIFFUSION")
      case True
      from run uc obtain kfv where
        "Acell = fold (add_artificial_diffusion exact_arithmetic Wff kfv kc faces) [0..<?nf] A1"
        by (auto simp: mixed_cell_def Let_def True A1_def split: sum.splits if_splits option.splits)
      then show ?thesis using A1ok
        by (simp add: local_matrix_ok_def add_artificial_diffusion_loop)
    next
      case False
      from run uc have "Acell = A1"
        by (auto simp: mixed_cell_def Let_def False notdivk A1_def split: if_splits)
      then show ?thesis using A1ok by simp
    qed
  qed
qed

lemma grad_cell_ok:
  assumes run: "grad_cell exact_arithmetic kfv ktwin face_get_cells c faces Wff junk = Inr Acell"
  shows "local_matrix_ok (length faces) Acell"
proof -
  from run obtain kf where
    "Acell = assemble_rows exact_arithmetic (\<lambda>n m. elem Wff n m * kf n * kf m) (\<lambda>n rowsum. rowsum) True
               (length faces)
               \<lparr>NumRows = length faces + 1, NumCols = length faces + 1, elem = junk\<rparr>"
    by (auto simp: grad_cell_def Let_def split: sum.splits option.splits if_splits)
  then show ?thesis
    by (simp add: local_matrix_ok_def mirrored_rows_zero assemble_rows_NumRows
        assemble_rows_NumCols)
qed

lemma store_cell_loop:
  assumes "foreach [0..<k] (store_cell cell) mats = Inr mats'"
  shows "(\<forall>c < k. cell c = Inr (mats' c)) \<and> (\<forall>c \<ge> k. mats' c = mats c)"
  using assms
proof (induction k arbitrary: mats')
  case 0
  then show ?case by simp
next
  case (Suc k)
  from Suc.prems obtain mid where
    mid: "foreach [0..<k] (store_cell cell) mats = Inr mid"
    and last: "store_cell cell k mid = Inr mats'"
    by (auto simp: foreach_append split: sum.splits)
  from last obtain Acell where ck: "cell k = Inr Acell" and m': "mats' = mid(k := Acell)"
    by (auto simp: store_cell_def split: sum.splits)
  from Suc.IH [OF mid] have ih: "\<forall>c < k. cell c = Inr (mid c)" "\<forall>c \<ge> k. mid c = mats c"
    by simp_all
  show ?case using ih ck by (auto simp: m' less_Suc_eq)
qed

lemma Multiply_constant:
  assumes "local_matrix_ok nfaces A" and "i \<le> nfaces"
  shows "Multiply A (\<lambda>j. p) i = 0"
proof -
  have "Multiply A (\<lambda>j. p) i = (\<Sum>j \<le> nfaces. elem A i j * p)"
    using assms(1)
    by (simp add: Multiply_def local_matrix_ok_def interv_sum_list_conv_sum_set_nat
        atLeast0LessThan sum_atMost_split)
  also have "\<dots> = (\<Sum>j \<le> nfaces. elem A i j) * p"
    by (simp add: sum_distrib_right)
  also have "\<dots> = 0"
    using assms by (simp add: local_matrix_ok_def row_sums_zero_def)
  finally show ?thesis .
qed

lemma UpdateMatricesMixed_ok:
  assumes "UpdateMatricesMixed exact_arithmetic dbc upwind scaled_constraint k face_get_cells cell_get_faces
             ncells_owned Wff_cells junk mats = Inr mats'"
    and "c < ncells_owned"
  shows "local_matrix_ok (length (cell_get_faces c)) (mats' c)"
proof -
  from assms(1) obtain kcell kface ktwin where
    "foreach [0..<ncells_owned]
       (store_cell (\<lambda>c. mixed_cell exact_arithmetic dbc upwind scaled_constraint kcell kface ktwin
                          face_get_cells c (cell_get_faces c) (Wff_cells c) (junk c)))
       mats = Inr mats'"
    by (auto simp: UpdateMatricesMixed_def Let_def split: sum.splits)
  from store_cell_loop [OF this] assms(2)
  have "mixed_cell exact_arithmetic dbc upwind scaled_constraint kcell kface ktwin
          face_get_cells c (cell_get_faces c) (Wff_cells c) (junk c) = Inr (mats' c)"
    by simp
  then show ?thesis by (rule mixed_cell_ok)
qed

lemma UpdateMatricesMixedWithGrad_ok:
  assumes "UpdateMatricesMixedWithGrad exact_arithmetic dbc scaled_constraint k face_get_cells cell_get_faces
             ncells_owned Wff_cells junk mats = Inr mats'"
    and "c < ncells_owned"
  shows "local_matrix_ok (length (cell_get_faces c)) (mats' c)"
proof -
  from assms obtain kfv ktwin where
    "foreach [0..<ncells_owned]
       (store_cell (\<lambda>c. grad_cell exact_arithmetic kfv ktwin face_get_cells c
                          (cell_get_faces c) (Wff_cells c) (junk c)))
       mats = Inr mats'"
    by (auto simp: UpdateMatricesMixedWithGrad_def Let_def
        split: sum.splits option.splits if_splits)
  from store_cell_loop [OF this] assms(2)
  have "grad_cell exact_arithmetic kfv ktwin face_get_cells c (cell_get_faces c) (Wff_cells c) (junk c)
          = Inr (mats' c)"
    by simp
  then show ?thesis by (rule grad_cell_ok)
qed

lemma rows_then_columns_cell_row:
  assumes ct: "\<And>m x. colterm m x = x * cw m" and wt: "\<And>n r. weight n r = r * cw n"
  shows "cell_row_from_columns cw nfaces
           (column_sums exact_arithmetic colterm nfaces
              (assemble_rows exact_arithmetic entry weight False nfaces Acell0))"
proof -
  let ?B = "assemble_rows exact_arithmetic entry weight False nfaces Acell0"
  let ?C = "column_sums exact_arithmetic colterm nfaces ?B"
  have face: "elem ?C i j = entry i j" if "i < nfaces" "j < nfaces" for i j
    using that by (simp add: column_sums_elem assemble_rows_elem rows_filled_def)
  have col: "elem ?C nfaces j = - (\<Sum>m < nfaces. elem ?C m j * cw m)" if j: "j < nfaces" for j
  proof -
    have "(\<Sum>m < nfaces. colterm m (elem ?B m j)) = (\<Sum>m < nfaces. entry m j * cw m)"
      using j by (intro sum.cong) (auto simp: ct assemble_rows_elem rows_filled_def)
    moreover have "(\<Sum>m < nfaces. elem ?C m j * cw m) = (\<Sum>m < nfaces. entry m j * cw m)"
      using j by (intro sum.cong) (auto simp: face)
    ultimately show ?thesis using j by (simp add: column_sums_elem)
  qed
  have "(\<Sum>n < nfaces. (\<Sum>m < nfaces. elem ?C n m) * cw n)
          = (\<Sum>n < nfaces. (\<Sum>m < nfaces. entry n m) * cw n)"
    by (intro sum.cong refl arg_cong2 [where f = "(*)"]) (auto simp: face)
  then have diag: "elem ?C nfaces nfaces = (\<Sum>n < nfaces. (\<Sum>m < nfaces. elem ?C n m) * cw n)"
    by (simp add: column_sums_elem assemble_rows_elem wt)
  show ?thesis unfolding cell_row_from_columns_def using col diag by blast
qed

lemma mirrored_cell_row:
  "cell_row_from_rows nfaces
     (assemble_rows exact_arithmetic entry (\<lambda>n rowsum. rowsum) True nfaces Acell0)"
proof -
  let ?B = "assemble_rows exact_arithmetic entry (\<lambda>n rowsum. rowsum) True nfaces Acell0"
  have face: "elem ?B i j = entry i j" if "i < nfaces" "j < nfaces" for i j
    using that by (simp add: assemble_rows_elem rows_filled_def)
  have rowsum: "(\<Sum>m < nfaces. elem ?B j m) = (\<Sum>m < nfaces. entry j m)" if "j < nfaces" for j
    using that by (intro sum.cong) (auto simp: face)
  have row: "elem ?B nfaces j = - (\<Sum>m < nfaces. elem ?B j m)" if "j < nfaces" for j
    using that by (simp add: rowsum) (simp add: assemble_rows_elem rows_filled_def)
  have "(\<Sum>n < nfaces. \<Sum>m < nfaces. elem ?B n m) = (\<Sum>n < nfaces. \<Sum>m < nfaces. entry n m)"
    by (intro sum.cong refl) (auto simp: face)
  then have diag: "elem ?B nfaces nfaces = (\<Sum>n < nfaces. \<Sum>m < nfaces. elem ?B n m)"
    by (simp add: assemble_rows_elem)
  show ?thesis unfolding cell_row_from_rows_def using row diag by blast
qed

lemma sum_delta_below:
  "c < N \<Longrightarrow> (\<Sum>j < (N::nat). if P \<and> j = c then a else 0) = (if P then a else (0::real))"
  by (cases P) simp_all

lemma sum_delta_not_below:
  "(\<Sum>j < (N::nat). if j = N \<and> P j then a else (0::real)) = 0"
  "(\<Sum>j < (N::nat). if P j \<and> j = N then a else (0::real)) = 0"
  by (intro sum.neutral; simp)+

lemma add_artificial_diffusion_cell_row:
  assumes n: "n < length faces"
    and inv: "cell_row_from_columns (\<lambda>m. 1) (length faces) Acell"
  shows "cell_row_from_columns (\<lambda>m. 1) (length faces)
           (add_artificial_diffusion exact_arithmetic Wff kface kc faces n Acell)"
proof -
  let ?nf = "length faces"
  let ?A = "add_artificial_diffusion exact_arithmetic Wff kface kc faces n Acell"
  from add_artificial_diffusion_elem [OF n, of Wff kface kc Acell] obtain a where
    el: "\<forall>i j. elem ?A i j =
           elem Acell i j
           + (if i = n \<and> j = n then a else 0) - (if i = n \<and> j = ?nf then a else 0)
           - (if i = ?nf \<and> j = n then a else 0)
           + (if i = ?nf \<and> j = ?nf then a else 0)"
    by blast
  have face: "elem ?A i j = elem Acell i j + (if i = n \<and> j = n then a else 0)"
    if "i < ?nf" "j < ?nf" for i j
    using that by (simp add: el)
  have col: "elem ?A ?nf j = - (\<Sum>m < ?nf. elem ?A m j * 1)" if j: "j < ?nf" for j
  proof -
    have "(\<Sum>m < ?nf. elem ?A m j) =
            (\<Sum>m < ?nf. elem Acell m j + (if j = n \<and> m = n then a else 0))"
      using j by (intro sum.cong) (auto simp: face)
    also have "\<dots> = (\<Sum>m < ?nf. elem Acell m j) + (if j = n then a else 0)"
      using n by (simp add: sum.distrib sum_delta_below)
    finally have s: "(\<Sum>m < ?nf. elem ?A m j) = (\<Sum>m < ?nf. elem Acell m j) + (if j = n then a else 0)" .
    have ic: "elem Acell ?nf j = - (\<Sum>m < ?nf. elem Acell m j)"
      using inv j by (simp add: cell_row_from_columns_def)
    have e1: "elem ?A ?nf j = elem Acell ?nf j - (if j = n then a else 0)"
      using j n by (simp add: el)
    show ?thesis by (simp add: s e1 ic)
  qed
  have tot: "(\<Sum>i < ?nf. \<Sum>j < ?nf. elem ?A i j) = (\<Sum>i < ?nf. \<Sum>j < ?nf. elem Acell i j) + a"
  proof -
    have "(\<Sum>i < ?nf. \<Sum>j < ?nf. elem ?A i j) =
            (\<Sum>i < ?nf. (\<Sum>j < ?nf. elem Acell i j) + (if i = n then a else 0))"
    proof (intro sum.cong refl)
      fix i assume "i \<in> {..<?nf}"
      then have i: "i < ?nf" by simp
      have "(\<Sum>j < ?nf. elem ?A i j) =
              (\<Sum>j < ?nf. elem Acell i j + (if i = n \<and> j = n then a else 0))"
        using i by (intro sum.cong) (auto simp: face)
      also have "\<dots> = (\<Sum>j < ?nf. elem Acell i j) + (if i = n then a else 0)"
        using n by (simp add: sum.distrib sum_delta_below)
      finally show "(\<Sum>j < ?nf. elem ?A i j) =
              (\<Sum>j < ?nf. elem Acell i j) + (if i = n then a else 0)" .
    qed
    also have "\<dots> = (\<Sum>i < ?nf. \<Sum>j < ?nf. elem Acell i j) + a"
      using n sum_delta_below [of n ?nf True a] by (simp add: sum.distrib)
    finally show ?thesis .
  qed
  have id: "elem Acell ?nf ?nf = (\<Sum>i < ?nf. \<Sum>j < ?nf. elem Acell i j)"
    using inv by (simp add: cell_row_from_columns_def)
  have e2: "elem ?A ?nf ?nf = elem Acell ?nf ?nf + a"
    using n by (simp add: el)
  have diag: "elem ?A ?nf ?nf = (\<Sum>i < ?nf. (\<Sum>j < ?nf. elem ?A i j) * 1)"
    by (simp add: tot e2 id)
  show ?thesis unfolding cell_row_from_columns_def using col diag by blast
qed

lemma add_artificial_diffusion_cell_row_loop:
  assumes "k \<le> length faces" and "cell_row_from_columns (\<lambda>m. 1) (length faces) Acell"
  shows "cell_row_from_columns (\<lambda>m. 1) (length faces)
           (fold (add_artificial_diffusion exact_arithmetic Wff kface kc faces) [0..<k] Acell)"
  using assms(1)
proof (induction k)
  case 0
  then show ?case using assms(2) by simp
next
  case (Suc k)
  then show ?case by (simp add: add_artificial_diffusion_cell_row)
qed

lemma upwind_coefficients_weight:
  assumes "upwind \<noteq> OPERATOR_UPWIND_AMANZI_DIVK"
    and "upwind \<noteq> OPERATOR_UPWIND_AMANZI_ARTIFICIAL_DIFFUSION"
    and uc: "upwind_coefficients upwind (case k of None \<Rightarrow> None | Some kk \<Rightarrow> comp_cell kk)
               kface ktwin face_get_cells c faces = Inr (kc, kf)"
    and fl: "upwind = OPERATOR_UPWIND_FLUX \<longrightarrow> (\<exists>kk. k = Some kk \<and> kface = comp_face kk)"
  shows "kf = upwind_weight upwind k c faces"
proof (cases "upwind = OPERATOR_UPWIND_FLUX")
  case True
  with fl obtain kk where k: "k = Some kk" and kf: "kface = comp_face kk" by blast
  show ?thesis
    using uc True k kf
    by (cases "comp_face kk")
       (auto simp: upwind_coefficients_def upwind_weight_def fun_eq_iff Let_def)
next
  case notflux: False
  show ?thesis
  proof (cases "upwind = OPERATOR_UPWIND_NONE")
    case True
    show ?thesis
    proof (cases k)
      case None
      then show ?thesis using uc True
        by (auto simp: upwind_coefficients_def upwind_weight_def fun_eq_iff Let_def)
    next
      case (Some kk)
      then show ?thesis using uc True
        by (cases "comp_cell kk")
           (auto simp: upwind_coefficients_def upwind_weight_def fun_eq_iff Let_def)
    qed
  next
    case False
    then show ?thesis using uc notflux assms(1,2)
      by (auto simp: upwind_coefficients_def upwind_weight_def fun_eq_iff Let_def)
  qed
qed

lemma mixed_cell_cell_row:
  assumes run: "mixed_cell exact_arithmetic dbc upwind scaled_constraint kcell kface ktwin
                  face_get_cells c faces Wff junk = Inr Acell"
  shows "(upwind \<noteq> OPERATOR_UPWIND_AMANZI_DIVK \<and> \<not> scaled_constraint
            \<longrightarrow> cell_row_from_columns (\<lambda>m. 1) (length faces) Acell)
       \<and> (upwind \<noteq> OPERATOR_UPWIND_AMANZI_DIVK
          \<and> upwind \<noteq> OPERATOR_UPWIND_AMANZI_ARTIFICIAL_DIFFUSION \<and> scaled_constraint
            \<longrightarrow> (\<exists>kc kf. upwind_coefficients upwind kcell kface ktwin face_get_cells c faces
                            = Inr (kc, kf)
                        \<and> cell_row_from_columns kf (length faces) Acell))
       \<and> (upwind = OPERATOR_UPWIND_AMANZI_DIVK \<longrightarrow> cell_row_from_rows (length faces) Acell)"
proof -
  let ?nf = "length faces"
  let ?A0 = "\<lparr>NumRows = ?nf + 1, NumCols = ?nf + 1, elem = junk\<rparr>"
  from run obtain kc kf where
    uc: "upwind_coefficients upwind kcell kface ktwin face_get_cells c faces = Inr (kc, kf)"
    by (cases "upwind_coefficients upwind kcell kface ktwin face_get_cells c faces")
       (auto simp: mixed_cell_def Let_def)
  define A1 where "A1 =
    (if \<not> scaled_constraint then
       column_sums exact_arithmetic (\<lambda>m x. x) ?nf
         (assemble_rows exact_arithmetic (\<lambda>n m. elem Wff n m * kf n) (\<lambda>n rowsum. rowsum)
            False ?nf ?A0)
     else
       column_sums exact_arithmetic (\<lambda>m x. x * kf m) ?nf
         (assemble_rows exact_arithmetic (\<lambda>n m. elem Wff n m) (\<lambda>n rowsum. rowsum * kf n)
            False ?nf ?A0))"
  have unscaled: "cell_row_from_columns (\<lambda>m. 1) ?nf A1" if "\<not> scaled_constraint"
  proof -
    have "cell_row_from_columns (\<lambda>m. 1) ?nf (column_sums exact_arithmetic (\<lambda>m x. x) ?nf
         (assemble_rows exact_arithmetic (\<lambda>n m. elem Wff n m * kf n) (\<lambda>n rowsum. rowsum)
            False ?nf ?A0))"
      by (rule rows_then_columns_cell_row [where cw = "\<lambda>m. 1"]) simp_all
    then show ?thesis using that by (simp add: A1_def)
  qed
  have scaled: "cell_row_from_columns kf ?nf A1" if "scaled_constraint"
  proof -
    have "cell_row_from_columns kf ?nf (column_sums exact_arithmetic (\<lambda>m x. x * kf m) ?nf
         (assemble_rows exact_arithmetic (\<lambda>n m. elem Wff n m) (\<lambda>n rowsum. rowsum * kf n)
            False ?nf ?A0))"
      by (rule rows_then_columns_cell_row [where cw = kf]) simp_all
    then show ?thesis using that by (simp add: A1_def)
  qed
  have a: "upwind \<noteq> OPERATOR_UPWIND_AMANZI_DIVK \<and> \<not> scaled_constraint
            \<longrightarrow> cell_row_from_columns (\<lambda>m. 1) ?nf Acell"
  proof (intro impI, elim conjE)
    assume notdivk: "upwind \<noteq> OPERATOR_UPWIND_AMANZI_DIVK" and ns: "\<not> scaled_constraint"
    show "cell_row_from_columns (\<lambda>m. 1) ?nf Acell"
    proof (cases "upwind = OPERATOR_UPWIND_AMANZI_ARTIFICIAL_DIFFUSION")
      case True
      from run uc obtain kfv where
        "Acell = fold (add_artificial_diffusion exact_arithmetic Wff kfv kc faces) [0..<?nf] A1"
        by (auto simp: mixed_cell_def Let_def True A1_def split: sum.splits if_splits option.splits)
      then show ?thesis using unscaled [OF ns]
        by (simp add: add_artificial_diffusion_cell_row_loop)
    next
      case False
      from run uc have "Acell = A1"
        by (auto simp: mixed_cell_def Let_def False notdivk A1_def split: if_splits)
      then show ?thesis using unscaled [OF ns] by simp
    qed
  qed
  have b: "upwind \<noteq> OPERATOR_UPWIND_AMANZI_DIVK
          \<and> upwind \<noteq> OPERATOR_UPWIND_AMANZI_ARTIFICIAL_DIFFUSION \<and> scaled_constraint
            \<longrightarrow> (\<exists>kc kf. upwind_coefficients upwind kcell kface ktwin face_get_cells c faces
                            = Inr (kc, kf)
                        \<and> cell_row_from_columns kf ?nf Acell)"
  proof (intro impI, elim conjE)
    assume notdivk: "upwind \<noteq> OPERATOR_UPWIND_AMANZI_DIVK"
      and notart: "upwind \<noteq> OPERATOR_UPWIND_AMANZI_ARTIFICIAL_DIFFUSION"
      and sc: "scaled_constraint"
    from run uc have "Acell = A1"
      by (auto simp: mixed_cell_def Let_def notart notdivk A1_def split: if_splits)
    then show "\<exists>kc kf. upwind_coefficients upwind kcell kface ktwin face_get_cells c faces
                            = Inr (kc, kf)
                        \<and> cell_row_from_columns kf ?nf Acell"
      using uc scaled [OF sc] by blast
  qed
  have d: "upwind = OPERATOR_UPWIND_AMANZI_DIVK \<longrightarrow> cell_row_from_rows ?nf Acell"
  proof
    assume divk: "upwind = OPERATOR_UPWIND_AMANZI_DIVK"
    from run uc have "Acell = assemble_rows exact_arithmetic
                               (\<lambda>n m. elem Wff n m * kf n * kf m / kc)
                               (\<lambda>n rowsum. rowsum) True ?nf ?A0"
      by (auto simp: mixed_cell_def Let_def divk split: sum.splits if_splits)
    then show "cell_row_from_rows ?nf Acell" by (simp add: mirrored_cell_row)
  qed
  show ?thesis using a b d by blast
qed

lemma grad_cell_cell_row:
  assumes run: "grad_cell exact_arithmetic kfv ktwin face_get_cells c faces Wff junk = Inr Acell"
  shows "cell_row_from_rows (length faces) Acell"
proof -
  from run obtain kf where
    "Acell = assemble_rows exact_arithmetic (\<lambda>n m. elem Wff n m * kf n * kf m)
               (\<lambda>n rowsum. rowsum) True (length faces)
               \<lparr>NumRows = length faces + 1, NumCols = length faces + 1, elem = junk\<rparr>"
    by (auto simp: grad_cell_def Let_def split: sum.splits option.splits if_splits)
  then show ?thesis by (simp add: mirrored_cell_row)
qed

lemma UpdateMatricesMixed_cell_row:
  assumes run: "UpdateMatricesMixed exact_arithmetic dbc upwind scaled_constraint k face_get_cells
             cell_get_faces ncells_owned Wff_cells junk mats = Inr mats'"
    and c: "c < ncells_owned"
  shows "(upwind \<noteq> OPERATOR_UPWIND_AMANZI_DIVK \<and> \<not> scaled_constraint
            \<longrightarrow> cell_row_from_columns (\<lambda>m. 1) (length (cell_get_faces c)) (mats' c))
       \<and> (upwind \<noteq> OPERATOR_UPWIND_AMANZI_DIVK
          \<and> upwind \<noteq> OPERATOR_UPWIND_AMANZI_ARTIFICIAL_DIFFUSION \<and> scaled_constraint
            \<longrightarrow> cell_row_from_columns (upwind_weight upwind k c (cell_get_faces c))
                  (length (cell_get_faces c)) (mats' c))
       \<and> (upwind = OPERATOR_UPWIND_AMANZI_DIVK
            \<longrightarrow> cell_row_from_rows (length (cell_get_faces c)) (mats' c))"
proof -
  let ?kcell = "case k of None \<Rightarrow> None | Some kk \<Rightarrow> comp_cell kk"
  let ?ktwin = "case k of None \<Rightarrow> None | Some kk \<Rightarrow> comp_twin kk"
  from run obtain kface where
    loop: "foreach [0..<ncells_owned]
       (store_cell (\<lambda>c. mixed_cell exact_arithmetic dbc upwind scaled_constraint ?kcell kface
                          ?ktwin face_get_cells c (cell_get_faces c) (Wff_cells c) (junk c)))
       mats = Inr mats'"
    and kface: "upwind = OPERATOR_UPWIND_FLUX \<longrightarrow> (\<exists>kk. k = Some kk \<and> kface = comp_face kk)"
    by (auto simp: UpdateMatricesMixed_def Let_def split: sum.splits option.splits if_splits)
  from store_cell_loop [OF loop] c
  have cell: "mixed_cell exact_arithmetic dbc upwind scaled_constraint ?kcell kface ?ktwin
          face_get_cells c (cell_get_faces c) (Wff_cells c) (junk c) = Inr (mats' c)"
    by simp
  note cr = mixed_cell_cell_row [OF cell]
  have b: "upwind \<noteq> OPERATOR_UPWIND_AMANZI_DIVK
          \<and> upwind \<noteq> OPERATOR_UPWIND_AMANZI_ARTIFICIAL_DIFFUSION \<and> scaled_constraint
            \<longrightarrow> cell_row_from_columns (upwind_weight upwind k c (cell_get_faces c))
                  (length (cell_get_faces c)) (mats' c)"
  proof (intro impI, elim conjE)
    assume h: "upwind \<noteq> OPERATOR_UPWIND_AMANZI_DIVK"
      "upwind \<noteq> OPERATOR_UPWIND_AMANZI_ARTIFICIAL_DIFFUSION" "scaled_constraint"
    with cr obtain kc kf where
      uc: "upwind_coefficients upwind ?kcell kface ?ktwin face_get_cells c (cell_get_faces c)
             = Inr (kc, kf)"
      and row: "cell_row_from_columns kf (length (cell_get_faces c)) (mats' c)"
      by blast
    have "kf = upwind_weight upwind k c (cell_get_faces c)"
      using h(1) h(2) uc kface by (rule upwind_coefficients_weight)
    then show "cell_row_from_columns (upwind_weight upwind k c (cell_get_faces c))
                  (length (cell_get_faces c)) (mats' c)"
      using row by simp
  qed
  show ?thesis using cr b by blast
qed

lemma UpdateMatricesMixedWithGrad_cell_row:
  assumes "UpdateMatricesMixedWithGrad exact_arithmetic dbc scaled_constraint k face_get_cells
             cell_get_faces ncells_owned Wff_cells junk mats = Inr mats'"
    and "c < ncells_owned"
  shows "cell_row_from_rows (length (cell_get_faces c)) (mats' c)"
proof -
  from assms obtain kfv ktwin where
    "foreach [0..<ncells_owned]
       (store_cell (\<lambda>c. grad_cell exact_arithmetic kfv ktwin face_get_cells c
                          (cell_get_faces c) (Wff_cells c) (junk c)))
       mats = Inr mats'"
    by (auto simp: UpdateMatricesMixedWithGrad_def Let_def
        split: sum.splits option.splits if_splits)
  from store_cell_loop [OF this] assms(2)
  have "grad_cell exact_arithmetic kfv ktwin face_get_cells c (cell_get_faces c) (Wff_cells c)
          (junk c) = Inr (mats' c)"
    by simp
  then show ?thesis by (rule grad_cell_cell_row)
qed

text \<open>
  The cell row of the matrix of a cell with two faces, for the upwind by the flux without
  scaling, whatever the rounding.
\<close>

lemma flux_two_faces:
  assumes "UpdateMatricesMixed rnd True OPERATOR_UPWIND_FLUX False
       (Some \<lparr>comp_cell = None, comp_face = Some kfv, comp_twin = None, comp_grad = None\<rparr>)
       face_get_cells (\<lambda>c. [0, 1]) 1 (\<lambda>c. \<lparr>NumRows = 2, NumCols = 2, elem = w\<rparr>) junk mats
     = Inr mats'"
  shows "elem (mats' 0) 2 0 = - rnd (rnd (rnd (w 0 0 * kfv 0)) + rnd (w 1 0 * kfv 1))"
    and "elem (mats' 0) 2 1 = - rnd (rnd (rnd (w 0 1 * kfv 0)) + rnd (w 1 1 * kfv 1))"
    and "elem (mats' 0) 2 2 =
           rnd (rnd (rnd (rnd (rnd (w 0 0 * kfv 0)) + rnd (w 0 1 * kfv 0)))
                + rnd (rnd (rnd (w 1 0 * kfv 1)) + rnd (w 1 1 * kfv 1)))"
proof -
  have u2: "[0..<2] = [0, Suc 0]" by (simp add: upt_rec)
  have m: "mats' 0 =
     column_sums rnd (\<lambda>m x. x) 2
       (assemble_rows rnd (\<lambda>n m. rnd (w n m * kfv ([0, 1] ! n))) (\<lambda>n rowsum. rowsum)
          False 2 \<lparr>NumRows = 3, NumCols = 3, elem = junk 0\<rparr>)"
    using assms
    by (auto simp: UpdateMatricesMixed_def store_cell_def mixed_cell_def
        upwind_coefficients_def Let_def numeral_2_eq_2 numeral_3_eq_3)
  show "elem (mats' 0) 2 0 = - rnd (rnd (rnd (w 0 0 * kfv 0)) + rnd (w 1 0 * kfv 1))"
    unfolding m
    by (simp add: column_sums_def column_sum_def assemble_rows_def assemble_row_def
        row_entries_def row_entry_def Let_def u2)
  show "elem (mats' 0) 2 1 = - rnd (rnd (rnd (w 0 1 * kfv 0)) + rnd (w 1 1 * kfv 1))"
    unfolding m
    by (simp add: column_sums_def column_sum_def assemble_rows_def assemble_row_def
        row_entries_def row_entry_def Let_def u2)
  show "elem (mats' 0) 2 2 =
           rnd (rnd (rnd (rnd (rnd (w 0 0 * kfv 0)) + rnd (w 0 1 * kfv 0)))
                + rnd (rnd (rnd (w 1 0 * kfv 1)) + rnd (w 1 1 * kfv 1)))"
    unfolding m
    by (simp add: column_sums_def column_sum_def assemble_rows_def assemble_row_def
        row_entries_def row_entry_def Let_def u2)
qed

text \<open>
  The roundings of the example below.  With \<open>\<epsilon> = 2\<^sup>-\<^sup>5\<^sup>3\<close>, half the distance between 1
  and the next double: the numbers \<open>1\<close>, \<open>\<epsilon>\<close>, \<open>3\<epsilon>\<close>, \<open>4\<epsilon>\<close>, \<open>6\<epsilon>\<close> and \<open>1 + 6\<epsilon>\<close> are
  doubles, \<open>1 + \<epsilon>\<close> and \<open>1 + 3\<epsilon>\<close> lie halfway between two doubles and are rounded to
  \<open>1\<close> and to \<open>1 + 4\<epsilon>\<close>.
\<close>

lemma round_to_double_doubles:
  "round_to_double 1 = 1"
  "round_to_double (1 / 2 ^ 53) = 1 / 2 ^ 53"
  "round_to_double (3 / 2 ^ 53) = 3 / 2 ^ 53"
  "round_to_double (4 / 2 ^ 53) = 4 / 2 ^ 53"
  "round_to_double (6 / 2 ^ 53) = 6 / 2 ^ 53"
  "round_to_double (1 + 6 / 2 ^ 53) = 1 + 6 / 2 ^ 53"
proof -
  have "round_to_double (of_int 4503599627370496 / 2 ^ 52) = of_int 4503599627370496 / 2 ^ 52"
    by (rule round_to_double_exact) simp_all
  then show "round_to_double 1 = 1" by simp
  have "round_to_double (of_int 4503599627370496 / 2 ^ 105) = of_int 4503599627370496 / 2 ^ 105"
    by (rule round_to_double_exact) simp_all
  then show "round_to_double (1 / 2 ^ 53) = 1 / 2 ^ 53" by simp
  have "round_to_double (of_int 6755399441055744 / 2 ^ 104) = of_int 6755399441055744 / 2 ^ 104"
    by (rule round_to_double_exact) simp_all
  then show "round_to_double (3 / 2 ^ 53) = 3 / 2 ^ 53" by simp
  have "round_to_double (of_int 4503599627370496 / 2 ^ 103) = of_int 4503599627370496 / 2 ^ 103"
    by (rule round_to_double_exact) simp_all
  then show "round_to_double (4 / 2 ^ 53) = 4 / 2 ^ 53" by simp
  have "round_to_double (of_int 6755399441055744 / 2 ^ 103) = of_int 6755399441055744 / 2 ^ 103"
    by (rule round_to_double_exact) simp_all
  then show "round_to_double (6 / 2 ^ 53) = 6 / 2 ^ 53" by simp
  have "round_to_double (of_int 4503599627370499 / 2 ^ 52) = of_int 4503599627370499 / 2 ^ 52"
    by (rule round_to_double_exact) simp_all
  then show "round_to_double (1 + 6 / 2 ^ 53) = 1 + 6 / 2 ^ 53" by simp
qed

lemma round_to_double_ties:
  "round_to_double (1 + 1 / 2 ^ 53) = 1"
  "round_to_double (1 + 3 / 2 ^ 53) = 1 + 4 / 2 ^ 53"
proof -
  have "round_to_double (of_int 9007199254740993 / 2 ^ 53) =
      of_int (round_half_even (of_int 9007199254740993 / 2 ^ 1)) * 2 ^ 1 / 2 ^ 53"
    by (rule round_to_double_dyadic) simp_all
  also have "round_half_even (of_int 9007199254740993 / 2 ^ 1) = 4503599627370496"
    by (simp add: round_half_even_def Let_def)
  finally show "round_to_double (1 + 1 / 2 ^ 53) = 1" by simp
  have "round_to_double (of_int 9007199254740995 / 2 ^ 53) =
      of_int (round_half_even (of_int 9007199254740995 / 2 ^ 1)) * 2 ^ 1 / 2 ^ 53"
    by (rule round_to_double_dyadic) simp_all
  also have "round_half_even (of_int 9007199254740995 / 2 ^ 1) = 4503599627370498"
    by (simp add: round_half_even_def Let_def)
  finally show "round_to_double (1 + 3 / 2 ^ 53) = 1 + 4 / 2 ^ 53" by simp
qed

text \<open>
  Claim C9, as stated, fails twice, for a cell with two faces and the upwind by the flux.

  \<^item> In double arithmetic the rows do not sum exactly to zero.  The matrix \<open>Wff\<close> has the
    entries \<open>1, \<epsilon>, \<epsilon>, \<epsilon>\<close> with \<open>\<epsilon> = 2\<^sup>-\<^sup>5\<^sup>3\<close> (it is symmetric and positive definite), the
    coefficient is 1 on the first face and 3 on the second, and the constraint is not
    scaled.  The column sums \<open>1 + 3\<epsilon>\<close> and \<open>\<epsilon> + 3\<epsilon>\<close> are rounded to \<open>1 + 4\<epsilon>\<close> and \<open>4\<epsilon>\<close>,
    the sum of the row sums is \<open>1 + 6\<epsilon>\<close>: the cell row stored is
    \<open>-(1 + 4\<epsilon>), -4\<epsilon>, 1 + 6\<epsilon>\<close>, and the sum of these three doubles is \<open>-2\<epsilon>\<close>.

  \<^item> In exact arithmetic, with the scaled constraint, the entries of the cell row are not
    the negated column sums and the diagonal entry is not the sum of the entries of the
    face block.  For \<open>Wff\<close> with the entries \<open>2, -1, -1, 2\<close> and the coefficients 3 and 2,
    both column sums are 1 and the sum of all entries is 2; the cell row is \<open>-4, -1, 5\<close>.
\<close>

theorem UpdateMatricesMixed_rows_counterexample:
  "(\<exists>mats'.
      UpdateMatricesMixed round_to_double True OPERATOR_UPWIND_FLUX False
        (Some \<lparr>comp_cell = None, comp_face = Some (\<lambda>f. if f = 0 then 1 else 3),
                comp_twin = None, comp_grad = None\<rparr>)
        (\<lambda>f. [0]) (\<lambda>c. [0, 1]) 1
        (\<lambda>c. \<lparr>NumRows = 2, NumCols = 2,
              elem = (\<lambda>i j. if i = 0 \<and> j = 0 then 1 else 1 / 2 ^ 53)\<rparr>)
        (\<lambda>c i j. 0) (\<lambda>c. \<lparr>NumRows = 0, NumCols = 0, elem = (\<lambda>i j. 0)\<rparr>) = Inr mats'
    \<and> elem (mats' 0) 2 0 = - (1 + 4 / 2 ^ 53)
    \<and> elem (mats' 0) 2 1 = - (4 / 2 ^ 53)
    \<and> elem (mats' 0) 2 2 = 1 + 6 / 2 ^ 53
    \<and> (\<Sum>j \<le> 2. elem (mats' 0) 2 j) = - (2 / 2 ^ 53)
    \<and> (\<Sum>j \<le> 2. elem (mats' 0) 2 j) \<noteq> 0)
   \<and> (\<exists>mats'.
      UpdateMatricesMixed exact_arithmetic True OPERATOR_UPWIND_FLUX True
        (Some \<lparr>comp_cell = None, comp_face = Some (\<lambda>f. if f = 0 then 3 else 2),
                comp_twin = None, comp_grad = None\<rparr>)
        (\<lambda>f. [0]) (\<lambda>c. [0, 1]) 1
        (\<lambda>c. \<lparr>NumRows = 2, NumCols = 2, elem = (\<lambda>i j. if i = j then 2 else - 1)\<rparr>)
        (\<lambda>c i j. 0) (\<lambda>c. \<lparr>NumRows = 0, NumCols = 0, elem = (\<lambda>i j. 0)\<rparr>) = Inr mats'
    \<and> elem (mats' 0) 2 0 = - 4 \<and> (\<Sum>m < 2. elem (mats' 0) m 0) = 1
    \<and> elem (mats' 0) 2 1 = - 1 \<and> (\<Sum>m < 2. elem (mats' 0) m 1) = 1
    \<and> elem (mats' 0) 2 2 = 5 \<and> (\<Sum>n < 2. \<Sum>m < 2. elem (mats' 0) n m) = 2)"
proof -
  define w :: "nat \<Rightarrow> nat \<Rightarrow> real" where "w = (\<lambda>i j. if i = 0 \<and> j = 0 then 1 else 1 / 2 ^ 53)"
  define kfv :: "nat \<Rightarrow> real" where "kfv = (\<lambda>f. if f = 0 then 1 else 3)"
  let ?run = "UpdateMatricesMixed round_to_double True OPERATOR_UPWIND_FLUX False
        (Some \<lparr>comp_cell = None, comp_face = Some kfv, comp_twin = None, comp_grad = None\<rparr>)
        (\<lambda>f. [0]) (\<lambda>c. [0, 1]) 1 (\<lambda>c. \<lparr>NumRows = 2, NumCols = 2, elem = w\<rparr>)
        (\<lambda>c i j. 0) (\<lambda>c. \<lparr>NumRows = 0, NumCols = 0, elem = (\<lambda>i j. 0)\<rparr>)"
  have "\<exists>mats'. ?run = Inr mats'"
    by (simp add: UpdateMatricesMixed_def store_cell_def mixed_cell_def
        upwind_coefficients_def Let_def)
  then obtain mats' where run: "?run = Inr mats'" by blast
  have v: "w 0 0 = 1" "w 0 1 = 1 / 2 ^ 53" "w 1 0 = 1 / 2 ^ 53" "w 1 1 = 1 / 2 ^ 53"
    "kfv 0 = 1" "kfv 1 = 3"
    by (simp_all add: w_def kfv_def)
  have p: "(1::real) * 1 = 1" "(1::real) / 2 ^ 53 * 1 = 1 / 2 ^ 53"
    "(1::real) / 2 ^ 53 * 3 = 3 / 2 ^ 53" "(1::real) / 2 ^ 53 + 3 / 2 ^ 53 = 4 / 2 ^ 53"
    "(3::real) / 2 ^ 53 + 3 / 2 ^ 53 = 6 / 2 ^ 53"
    by simp_all
  note e = flux_two_faces [OF run]
  have a: "elem (mats' 0) 2 0 = - (1 + 4 / 2 ^ 53)"
    unfolding e(1) by (simp only: v p round_to_double_doubles round_to_double_ties)
  have b: "elem (mats' 0) 2 1 = - (4 / 2 ^ 53)"
    unfolding e(2) by (simp only: v p round_to_double_doubles round_to_double_ties)
  have c: "elem (mats' 0) 2 2 = 1 + 6 / 2 ^ 53"
    unfolding e(3) by (simp only: v p round_to_double_doubles round_to_double_ties)
  have l3: "{..2::nat} = {0, 1, 2}" by auto
  have s: "(\<Sum>j \<le> 2. elem (mats' 0) 2 j) = - (2 / 2 ^ 53)"
    using a b c by (simp add: l3)
  have first: "\<exists>mats'. ?run = Inr mats'
    \<and> elem (mats' 0) 2 0 = - (1 + 4 / 2 ^ 53)
    \<and> elem (mats' 0) 2 1 = - (4 / 2 ^ 53)
    \<and> elem (mats' 0) 2 2 = 1 + 6 / 2 ^ 53
    \<and> (\<Sum>j \<le> 2. elem (mats' 0) 2 j) = - (2 / 2 ^ 53)
    \<and> (\<Sum>j \<le> 2. elem (mats' 0) 2 j) \<noteq> 0"
    using run a b c s by auto
  let ?k = "Some \<lparr>comp_cell = None, comp_face = Some (\<lambda>f::nat. if f = 0 then 3 else (2::real)),
                comp_twin = None, comp_grad = None\<rparr>"
  let ?W = "\<lambda>c::nat. \<lparr>NumRows = 2, NumCols = 2,
                elem = (\<lambda>i j::nat. if i = j then 2 else - (1::real))\<rparr>"
  let ?run2 = "UpdateMatricesMixed exact_arithmetic True OPERATOR_UPWIND_FLUX True ?k
        (\<lambda>f. [0]) (\<lambda>c. [0, 1]) 1 ?W
        (\<lambda>c i j. 0) (\<lambda>c. \<lparr>NumRows = 0, NumCols = 0, elem = (\<lambda>i j. 0)\<rparr>)"
  have "\<exists>mats'. ?run2 = Inr mats'"
    by (simp add: UpdateMatricesMixed_def store_cell_def mixed_cell_def
        upwind_coefficients_def Let_def)
  then obtain mats2 where run2: "?run2 = Inr mats2" by blast
  have m: "mats2 0 =
     column_sums exact_arithmetic (\<lambda>m x. x * (if [0, 1] ! m = (0::nat) then 3 else 2)) 2
       (assemble_rows exact_arithmetic (\<lambda>n m. if n = m then 2 else - 1)
          (\<lambda>n rowsum. rowsum * (if [0, 1] ! n = (0::nat) then 3 else 2))
          False 2 \<lparr>NumRows = 3, NumCols = 3, elem = (\<lambda>i j. 0)\<rparr>)"
    using run2
    by (auto simp: UpdateMatricesMixed_def store_cell_def mixed_cell_def
        upwind_coefficients_def Let_def numeral_2_eq_2 numeral_3_eq_3)
  have l2: "{..<2::nat} = {0, 1}" by auto
  have vals: "elem (mats2 0) 0 0 = 2" "elem (mats2 0) 0 1 = - 1"
    "elem (mats2 0) 1 0 = - 1" "elem (mats2 0) 1 1 = 2"
    "elem (mats2 0) 2 0 = - 4" "elem (mats2 0) 2 1 = - 1" "elem (mats2 0) 2 2 = 5"
    unfolding m
    by (simp_all add: column_sums_elem assemble_rows_elem rows_filled_def l2)
  have sums: "(\<Sum>m < 2. elem (mats2 0) m 0) = 1" "(\<Sum>m < 2. elem (mats2 0) m 1) = 1"
    "(\<Sum>n < 2. \<Sum>m < 2. elem (mats2 0) n m) = 2"
    using vals by (simp_all add: l2)
  have second: "\<exists>mats'. ?run2 = Inr mats'
    \<and> elem (mats' 0) 2 0 = - 4 \<and> (\<Sum>m < 2. elem (mats' 0) m 0) = 1
    \<and> elem (mats' 0) 2 1 = - 1 \<and> (\<Sum>m < 2. elem (mats' 0) m 1) = 1
    \<and> elem (mats' 0) 2 2 = 5 \<and> (\<Sum>n < 2. \<Sum>m < 2. elem (mats' 0) n m) = 2"
    using run2 vals sums by blast
  show ?thesis
    using first second unfolding w_def kfv_def by blast
qed

text \<open>
  Claim C9, amended.  In exact arithmetic, whatever the upwind method and the scaling, the
  local matrix that UpdateMatricesMixed\_ or UpdateMatricesMixedWithGrad\_ stores for an
  owned cell with \<open>nfaces\<close> faces has dimension \<open>nfaces + 1\<close>, each of its rows sums to
  zero, the entry of a face row in the cell column is minus the sum of the entries of the
  row in the face block, and the matrix maps every constant vector to zero.  The cell
  row is built in three ways:

  \<^item> without divk and without scaling, its entries are the negated column sums of the face
    block and its diagonal entry is the sum of all entries of the face block;

  \<^item> without divk and artificial diffusion, with scaling, its entries are the negated
    column sums of the face block with row \<open>m\<close> weighted by \<open>kf[m]\<close>, and its diagonal
    entry is the sum of the row sums of the face block, each weighted by \<open>kf[n]\<close>;

  \<^item> for divk and in UpdateMatricesMixedWithGrad\_, its entries are the negated row sums
    of the face block (the cell row mirrors the cell column), and its diagonal entry is
    the sum of all entries of the face block.

  In double arithmetic each of these sums is rounded, and a row need not sum to zero
  exactly.
\<close>

theorem UpdateMatricesMixed_rows_sum_to_zero:
  "((UpdateMatricesMixed exact_arithmetic dbc upwind scaled_constraint k face_get_cells
        cell_get_faces ncells_owned Wff_cells junk mats = Inr mats'
     \<or> UpdateMatricesMixedWithGrad exact_arithmetic dbc scaled_constraint k face_get_cells
        cell_get_faces ncells_owned Wff_cells junk mats = Inr mats')
    \<longrightarrow> (\<forall>c < ncells_owned.
          NumRows (mats' c) = length (cell_get_faces c) + 1
        \<and> NumCols (mats' c) = length (cell_get_faces c) + 1
        \<and> (\<forall>i \<le> length (cell_get_faces c).
              (\<Sum>j \<le> length (cell_get_faces c). elem (mats' c) i j) = 0)
        \<and> (\<forall>i < length (cell_get_faces c).
              elem (mats' c) i (length (cell_get_faces c)) =
                - (\<Sum>j < length (cell_get_faces c). elem (mats' c) i j))
        \<and> (\<forall>i \<le> length (cell_get_faces c). \<forall>p. Multiply (mats' c) (\<lambda>j. p) i = 0)))
   \<and> (UpdateMatricesMixed exact_arithmetic dbc upwind scaled_constraint k face_get_cells
        cell_get_faces ncells_owned Wff_cells junk mats = Inr mats'
      \<and> upwind \<noteq> OPERATOR_UPWIND_AMANZI_DIVK \<and> \<not> scaled_constraint
    \<longrightarrow> (\<forall>c < ncells_owned.
          (\<forall>j < length (cell_get_faces c).
              elem (mats' c) (length (cell_get_faces c)) j =
                - (\<Sum>m < length (cell_get_faces c). elem (mats' c) m j))
        \<and> elem (mats' c) (length (cell_get_faces c)) (length (cell_get_faces c)) =
            (\<Sum>n < length (cell_get_faces c).
               \<Sum>m < length (cell_get_faces c). elem (mats' c) n m)))
   \<and> (UpdateMatricesMixed exact_arithmetic dbc upwind scaled_constraint k face_get_cells
        cell_get_faces ncells_owned Wff_cells junk mats = Inr mats'
      \<and> upwind \<noteq> OPERATOR_UPWIND_AMANZI_DIVK
      \<and> upwind \<noteq> OPERATOR_UPWIND_AMANZI_ARTIFICIAL_DIFFUSION \<and> scaled_constraint
    \<longrightarrow> (\<forall>c < ncells_owned.
          (\<forall>j < length (cell_get_faces c).
              elem (mats' c) (length (cell_get_faces c)) j =
                - (\<Sum>m < length (cell_get_faces c).
                     elem (mats' c) m j * upwind_weight upwind k c (cell_get_faces c) m))
        \<and> elem (mats' c) (length (cell_get_faces c)) (length (cell_get_faces c)) =
            (\<Sum>n < length (cell_get_faces c).
               (\<Sum>m < length (cell_get_faces c). elem (mats' c) n m)
               * upwind_weight upwind k c (cell_get_faces c) n)))
   \<and> ((UpdateMatricesMixed exact_arithmetic dbc upwind scaled_constraint k face_get_cells
        cell_get_faces ncells_owned Wff_cells junk mats = Inr mats'
        \<and> upwind = OPERATOR_UPWIND_AMANZI_DIVK)
      \<or> UpdateMatricesMixedWithGrad exact_arithmetic dbc scaled_constraint k face_get_cells
        cell_get_faces ncells_owned Wff_cells junk mats = Inr mats'
    \<longrightarrow> (\<forall>c < ncells_owned.
          (\<forall>j < length (cell_get_faces c).
              elem (mats' c) (length (cell_get_faces c)) j =
                - (\<Sum>m < length (cell_get_faces c). elem (mats' c) j m))
        \<and> elem (mats' c) (length (cell_get_faces c)) (length (cell_get_faces c)) =
            (\<Sum>n < length (cell_get_faces c).
               \<Sum>m < length (cell_get_faces c). elem (mats' c) n m)))"
proof -
  let ?mixed = "UpdateMatricesMixed exact_arithmetic dbc upwind scaled_constraint k
        face_get_cells cell_get_faces ncells_owned Wff_cells junk mats = Inr mats'"
  let ?grad = "UpdateMatricesMixedWithGrad exact_arithmetic dbc scaled_constraint k
        face_get_cells cell_get_faces ncells_owned Wff_cells junk mats = Inr mats'"
  have a: "(?mixed \<or> ?grad)
    \<longrightarrow> (\<forall>c < ncells_owned.
          NumRows (mats' c) = length (cell_get_faces c) + 1
        \<and> NumCols (mats' c) = length (cell_get_faces c) + 1
        \<and> (\<forall>i \<le> length (cell_get_faces c).
              (\<Sum>j \<le> length (cell_get_faces c). elem (mats' c) i j) = 0)
        \<and> (\<forall>i < length (cell_get_faces c).
              elem (mats' c) i (length (cell_get_faces c)) =
                - (\<Sum>j < length (cell_get_faces c). elem (mats' c) i j))
        \<and> (\<forall>i \<le> length (cell_get_faces c). \<forall>p. Multiply (mats' c) (\<lambda>j. p) i = 0))"
  proof (intro impI allI)
    fix c
    assume run: "?mixed \<or> ?grad" and c: "c < ncells_owned"
    let ?nf = "length (cell_get_faces c)"
    have ok: "local_matrix_ok ?nf (mats' c)"
      using run
    proof
      assume ?mixed
      then show ?thesis using c by (rule UpdateMatricesMixed_ok)
    next
      assume ?grad
      then show ?thesis using c by (rule UpdateMatricesMixedWithGrad_ok)
    qed
    have rows: "\<forall>i \<le> ?nf. (\<Sum>j \<le> ?nf. elem (mats' c) i j) = 0"
      using ok by (simp add: local_matrix_ok_def row_sums_zero_def)
    have cellcol: "\<forall>i < ?nf. elem (mats' c) i ?nf = - (\<Sum>j < ?nf. elem (mats' c) i j)"
    proof (intro allI impI)
      fix i assume "i < ?nf"
      then have "(\<Sum>j \<le> ?nf. elem (mats' c) i j) = 0" using rows by simp
      then show "elem (mats' c) i ?nf = - (\<Sum>j < ?nf. elem (mats' c) i j)"
        by (simp add: sum_atMost_split)
    qed
    have null: "\<forall>i \<le> ?nf. \<forall>p. Multiply (mats' c) (\<lambda>j. p) i = 0"
      using ok Multiply_constant by blast
    show "NumRows (mats' c) = ?nf + 1 \<and> NumCols (mats' c) = ?nf + 1
          \<and> (\<forall>i \<le> ?nf. (\<Sum>j \<le> ?nf. elem (mats' c) i j) = 0)
          \<and> (\<forall>i < ?nf. elem (mats' c) i ?nf = - (\<Sum>j < ?nf. elem (mats' c) i j))
          \<and> (\<forall>i \<le> ?nf. \<forall>p. Multiply (mats' c) (\<lambda>j. p) i = 0)"
      using ok rows cellcol null by (simp add: local_matrix_ok_def)
  qed
  have b: "?mixed \<and> upwind \<noteq> OPERATOR_UPWIND_AMANZI_DIVK \<and> \<not> scaled_constraint
    \<longrightarrow> (\<forall>c < ncells_owned.
          (\<forall>j < length (cell_get_faces c).
              elem (mats' c) (length (cell_get_faces c)) j =
                - (\<Sum>m < length (cell_get_faces c). elem (mats' c) m j))
        \<and> elem (mats' c) (length (cell_get_faces c)) (length (cell_get_faces c)) =
            (\<Sum>n < length (cell_get_faces c).
               \<Sum>m < length (cell_get_faces c). elem (mats' c) n m))"
  proof (intro impI allI, elim conjE)
    fix c
    assume run: ?mixed and h: "upwind \<noteq> OPERATOR_UPWIND_AMANZI_DIVK" "\<not> scaled_constraint"
      and c: "c < ncells_owned"
    from UpdateMatricesMixed_cell_row [OF run c] h
    have "cell_row_from_columns (\<lambda>m. 1) (length (cell_get_faces c)) (mats' c)" by blast
    then show "(\<forall>j < length (cell_get_faces c).
              elem (mats' c) (length (cell_get_faces c)) j =
                - (\<Sum>m < length (cell_get_faces c). elem (mats' c) m j))
        \<and> elem (mats' c) (length (cell_get_faces c)) (length (cell_get_faces c)) =
            (\<Sum>n < length (cell_get_faces c).
               \<Sum>m < length (cell_get_faces c). elem (mats' c) n m)"
      by (simp add: cell_row_from_columns_def)
  qed
  have s: "?mixed \<and> upwind \<noteq> OPERATOR_UPWIND_AMANZI_DIVK
      \<and> upwind \<noteq> OPERATOR_UPWIND_AMANZI_ARTIFICIAL_DIFFUSION \<and> scaled_constraint
    \<longrightarrow> (\<forall>c < ncells_owned.
          (\<forall>j < length (cell_get_faces c).
              elem (mats' c) (length (cell_get_faces c)) j =
                - (\<Sum>m < length (cell_get_faces c).
                     elem (mats' c) m j * upwind_weight upwind k c (cell_get_faces c) m))
        \<and> elem (mats' c) (length (cell_get_faces c)) (length (cell_get_faces c)) =
            (\<Sum>n < length (cell_get_faces c).
               (\<Sum>m < length (cell_get_faces c). elem (mats' c) n m)
               * upwind_weight upwind k c (cell_get_faces c) n))"
  proof (intro impI allI, elim conjE)
    fix c
    assume run: ?mixed and h: "upwind \<noteq> OPERATOR_UPWIND_AMANZI_DIVK"
      "upwind \<noteq> OPERATOR_UPWIND_AMANZI_ARTIFICIAL_DIFFUSION" "scaled_constraint"
      and c: "c < ncells_owned"
    from UpdateMatricesMixed_cell_row [OF run c] h
    have "cell_row_from_columns (upwind_weight upwind k c (cell_get_faces c))
            (length (cell_get_faces c)) (mats' c)" by blast
    then show "(\<forall>j < length (cell_get_faces c).
              elem (mats' c) (length (cell_get_faces c)) j =
                - (\<Sum>m < length (cell_get_faces c).
                     elem (mats' c) m j * upwind_weight upwind k c (cell_get_faces c) m))
        \<and> elem (mats' c) (length (cell_get_faces c)) (length (cell_get_faces c)) =
            (\<Sum>n < length (cell_get_faces c).
               (\<Sum>m < length (cell_get_faces c). elem (mats' c) n m)
               * upwind_weight upwind k c (cell_get_faces c) n)"
      by (simp add: cell_row_from_columns_def)
  qed
  have d: "(?mixed \<and> upwind = OPERATOR_UPWIND_AMANZI_DIVK) \<or> ?grad
    \<longrightarrow> (\<forall>c < ncells_owned.
          (\<forall>j < length (cell_get_faces c).
              elem (mats' c) (length (cell_get_faces c)) j =
                - (\<Sum>m < length (cell_get_faces c). elem (mats' c) j m))
        \<and> elem (mats' c) (length (cell_get_faces c)) (length (cell_get_faces c)) =
            (\<Sum>n < length (cell_get_faces c).
               \<Sum>m < length (cell_get_faces c). elem (mats' c) n m))"
  proof (intro impI allI)
    fix c
    assume run: "(?mixed \<and> upwind = OPERATOR_UPWIND_AMANZI_DIVK) \<or> ?grad"
      and c: "c < ncells_owned"
    have "cell_row_from_rows (length (cell_get_faces c)) (mats' c)"
      using run
    proof
      assume "?mixed \<and> upwind = OPERATOR_UPWIND_AMANZI_DIVK"
      then show ?thesis using UpdateMatricesMixed_cell_row [OF _ c] by blast
    next
      assume ?grad
      then show ?thesis using c by (rule UpdateMatricesMixedWithGrad_cell_row)
    qed
    then show "(\<forall>j < length (cell_get_faces c).
              elem (mats' c) (length (cell_get_faces c)) j =
                - (\<Sum>m < length (cell_get_faces c). elem (mats' c) j m))
        \<and> elem (mats' c) (length (cell_get_faces c)) (length (cell_get_faces c)) =
            (\<Sum>n < length (cell_get_faces c).
               \<Sum>m < length (cell_get_faces c). elem (mats' c) n m)"
      by (simp add: cell_row_from_rows_def)
  qed
  show ?thesis using a b s d by blast
qed

theorem UpdateMatricesMixed_rows_sum_to_zero_witness:
  "(\<exists>mats'. UpdateMatricesMixed exact_arithmetic True OPERATOR_UPWIND_FLUX False
       (Some \<lparr>comp_cell = None, comp_face = Some (\<lambda>f. real f + 1), comp_twin = None,
               comp_grad = None\<rparr>)
       (\<lambda>f. [0]) (\<lambda>c. [0, 1]) 1
       (\<lambda>c. \<lparr>NumRows = 2, NumCols = 2, elem = (\<lambda>i j. real (2 * i + j + 1))\<rparr>)
       (\<lambda>c i j. 99)
       (\<lambda>c. \<lparr>NumRows = 0, NumCols = 0, elem = (\<lambda>i j. 0)\<rparr>) = Inr mats'
     \<and> NumRows (mats' 0) = 3
     \<and> (\<Sum>j \<le> 2. elem (mats' 0) 0 j) = 0
     \<and> (\<Sum>j \<le> 2. elem (mats' 0) 2 j) = 0
     \<and> Multiply (mats' 0) (\<lambda>j. 5) 2 = 0
     \<and> elem (mats' 0) 2 1 = - (\<Sum>m < 2. elem (mats' 0) m 1))
   \<and> (\<exists>mats'. UpdateMatricesMixed exact_arithmetic True OPERATOR_UPWIND_FLUX True
       (Some \<lparr>comp_cell = None, comp_face = Some (\<lambda>f. if f = 0 then 3 else 2),
               comp_twin = None, comp_grad = None\<rparr>)
       (\<lambda>f. [0]) (\<lambda>c. [0, 1]) 1
       (\<lambda>c. \<lparr>NumRows = 2, NumCols = 2, elem = (\<lambda>i j. if i = j then 2 else - 1)\<rparr>)
       (\<lambda>c i j. 0)
       (\<lambda>c. \<lparr>NumRows = 0, NumCols = 0, elem = (\<lambda>i j. 0)\<rparr>) = Inr mats'
     \<and> elem (mats' 0) 2 0 = - (elem (mats' 0) 0 0 * 3 + elem (mats' 0) 1 0 * 2))
   \<and> (\<exists>mats'. UpdateMatricesMixedWithGrad exact_arithmetic True False
       (Some \<lparr>comp_cell = Some (\<lambda>c. 1), comp_face = Some (\<lambda>f. real f + 1),
               comp_twin = None, comp_grad = Some (\<lambda>i c. 0)\<rparr>)
       (\<lambda>f. [0]) (\<lambda>c. [0, 1]) 1
       (\<lambda>c. \<lparr>NumRows = 2, NumCols = 2, elem = (\<lambda>i j. real (2 * i + j + 1))\<rparr>)
       (\<lambda>c i j. 99)
       (\<lambda>c. \<lparr>NumRows = 0, NumCols = 0, elem = (\<lambda>i j. 0)\<rparr>) = Inr mats'
     \<and> elem (mats' 0) 2 1 = - (\<Sum>m < 2. elem (mats' 0) 1 m))"
proof -
  let ?m0 = "\<lambda>c::nat. \<lparr>NumRows = 0, NumCols = 0, elem = (\<lambda>i j. 0::real)\<rparr>"
  let ?W = "\<lambda>c::nat. \<lparr>NumRows = 2, NumCols = 2, elem = (\<lambda>i j. real (2 * i + j + 1))\<rparr>"
  let ?k1 = "Some \<lparr>comp_cell = None, comp_face = Some (\<lambda>f::nat. real f + 1), comp_twin = None,
               comp_grad = None\<rparr>"
  let ?run1 = "UpdateMatricesMixed exact_arithmetic True OPERATOR_UPWIND_FLUX False ?k1
       (\<lambda>f. [0]) (\<lambda>c. [0, 1]) 1 ?W (\<lambda>c i j. 99) ?m0"
  have "\<exists>mats'. ?run1 = Inr mats'"
    by (simp add: UpdateMatricesMixed_def store_cell_def mixed_cell_def
        upwind_coefficients_def Let_def)
  then obtain mats1 where run1: "?run1 = Inr mats1" by blast
  note th1 = UpdateMatricesMixed_rows_sum_to_zero [where mats' = mats1, THEN conjunct1,
      rule_format, OF disjI1, OF run1, of 0]
  have c0: "(0::nat) < 1" by simp
  have l: "(1::nat) < length [0, 1::nat]" by simp
  have nd: "OPERATOR_UPWIND_FLUX \<noteq> OPERATOR_UPWIND_AMANZI_DIVK"
    "OPERATOR_UPWIND_FLUX \<noteq> OPERATOR_UPWIND_AMANZI_ARTIFICIAL_DIFFUSION" by simp_all
  note th2 = UpdateMatricesMixed_rows_sum_to_zero [where mats' = mats1, THEN conjunct2,
      THEN conjunct1, rule_format, OF conjI, OF run1 conjI, OF nd(1) _ c0]
  have a1: "NumRows (mats1 0) = 3" using th1 by simp
  have a2: "(\<Sum>j \<le> 2. elem (mats1 0) 0 j) = 0"
    using th1 [THEN conjunct2, THEN conjunct2, THEN conjunct1, rule_format, of 0]
    by (simp add: numeral_2_eq_2)
  have a3: "(\<Sum>j \<le> 2. elem (mats1 0) 2 j) = 0"
    using th1 [THEN conjunct2, THEN conjunct2, THEN conjunct1, rule_format, of 2]
    by (simp add: numeral_2_eq_2)
  have a4: "Multiply (mats1 0) (\<lambda>j. 5) 2 = 0"
    using th1 [THEN conjunct2, THEN conjunct2, THEN conjunct2, THEN conjunct2, rule_format, of 2 5]
    by simp
  have a5: "elem (mats1 0) 2 1 = - (\<Sum>m < 2. elem (mats1 0) m 1)"
    using th2 [THEN conjunct1, rule_format, OF _ l] by (simp add: numeral_2_eq_2)
  have first: "\<exists>mats'. ?run1 = Inr mats'
     \<and> NumRows (mats' 0) = 3
     \<and> (\<Sum>j \<le> 2. elem (mats' 0) 0 j) = 0
     \<and> (\<Sum>j \<le> 2. elem (mats' 0) 2 j) = 0
     \<and> Multiply (mats' 0) (\<lambda>j. 5) 2 = 0
     \<and> elem (mats' 0) 2 1 = - (\<Sum>m < 2. elem (mats' 0) m 1)"
    using run1 a1 a2 a3 a4 a5 by blast
  let ?k2 = "Some \<lparr>comp_cell = None, comp_face = Some (\<lambda>f::nat. if f = 0 then 3 else (2::real)),
               comp_twin = None, comp_grad = None\<rparr>"
  let ?W2 = "\<lambda>c::nat. \<lparr>NumRows = 2, NumCols = 2,
               elem = (\<lambda>i j::nat. if i = j then 2 else - (1::real))\<rparr>"
  let ?run2 = "UpdateMatricesMixed exact_arithmetic True OPERATOR_UPWIND_FLUX True ?k2
       (\<lambda>f. [0]) (\<lambda>c. [0, 1]) 1 ?W2 (\<lambda>c i j. 0) ?m0"
  have "\<exists>mats'. ?run2 = Inr mats'"
    by (simp add: UpdateMatricesMixed_def store_cell_def mixed_cell_def
        upwind_coefficients_def Let_def)
  then obtain mats2 where run2: "?run2 = Inr mats2" by blast
  note th3 = UpdateMatricesMixed_rows_sum_to_zero [where mats' = mats2, THEN conjunct2,
      THEN conjunct2, THEN conjunct1, rule_format, OF conjI, OF run2 conjI, OF nd(1) conjI,
      OF nd(2) TrueI c0]
  have l0: "(0::nat) < length [0, 1::nat]" by simp
  have l2: "{..<2::nat} = {0, 1}" by auto
  have b1: "elem (mats2 0) 2 0 = - (elem (mats2 0) 0 0 * 3 + elem (mats2 0) 1 0 * 2)"
    using th3 [THEN conjunct1, rule_format, OF l0]
    by (simp add: upwind_weight_def l2 numeral_2_eq_2)
  have second: "\<exists>mats'. ?run2 = Inr mats'
     \<and> elem (mats' 0) 2 0 = - (elem (mats' 0) 0 0 * 3 + elem (mats' 0) 1 0 * 2)"
    using run2 b1 by blast
  let ?k3 = "Some \<lparr>comp_cell = Some (\<lambda>c::nat. 1::real), comp_face = Some (\<lambda>f::nat. real f + 1),
               comp_twin = None, comp_grad = Some (\<lambda>(i::nat) (c::nat). 0::real)\<rparr>"
  let ?run3 = "UpdateMatricesMixedWithGrad exact_arithmetic True False ?k3
       (\<lambda>f. [0]) (\<lambda>c. [0, 1]) 1 ?W (\<lambda>c i j. 99) ?m0"
  have "\<exists>mats'. ?run3 = Inr mats'"
    by (simp add: UpdateMatricesMixedWithGrad_def ASSERT_def store_cell_def grad_cell_def Let_def)
  then obtain mats3 where run3: "?run3 = Inr mats3" by blast
  note th4 = UpdateMatricesMixed_rows_sum_to_zero [where mats' = mats3, THEN conjunct2,
      THEN conjunct2, THEN conjunct2, rule_format, OF disjI2, OF run3 c0]
  have c1: "elem (mats3 0) 2 1 = - (\<Sum>m < 2. elem (mats3 0) 1 m)"
    using th4 [THEN conjunct1, rule_format, OF l] by (simp add: numeral_2_eq_2)
  have third: "\<exists>mats'. ?run3 = Inr mats'
     \<and> elem (mats' 0) 2 1 = - (\<Sum>m < 2. elem (mats' 0) 1 m)"
    using run3 c1 by blast
  show ?thesis using first second third by blast
qed

section \<open>OperatorDiffusionMFD: CreateMassMatrices\_ and UpdateMatricesNodal\_\<close>

text \<open>The discretization methods \<open>InitDiffusion_\<close> can store in \<open>mfd_primary_\<close> and
  \<open>mfd_secondary_\<close>.\<close>

datatype mfd_method =
    DIFFUSION_HEXAHEDRA_MONOTONE
  | DIFFUSION_OPTIMIZED_FOR_MONOTONICITY
  | DIFFUSION_TPFA
  | DIFFUSION_OPTIMIZED_FOR_SPARSITY
  | DIFFUSION_SUPPORT_OPERATOR
  | DIFFUSION_POLYHEDRA_SCALED

text \<open>
  The status a routine of the discretization library returns is an integer; the sources
  compare it with two named constants, and every other value is \<open>ELEMENTAL_MATRIX_OTHER\<close>.
\<close>

datatype elemental_status =
    WHETSTONE_ELEMENTAL_MATRIX_OK
  | WHETSTONE_ELEMENTAL_MATRIX_FAILED
  | ELEMENTAL_MATRIX_OTHER int

text \<open>
  The routines of \<open>WhetStone::MFD3D_Diffusion\<close> that the two functions call.  The library is
  an external collaborator: \<open>mfd r c K W\<close> is the status routine \<open>r\<close> returns for cell \<open>c\<close>
  and tensor \<open>K\<close> together with the matrix it leaves in its output argument, which held \<open>W\<close>.
\<close>

datatype mfd_routine =
    MassMatrixInverseSurface
  | MassMatrixInverseMMatrixHex
  | MassMatrixInverseMMatrix
  | MassMatrixInverseOptimizedScaled
  | MassMatrixInverseTPFA
  | MassMatrixInverseSO
  | MassMatrixInverseScaled
  | StiffnessMatrixMMatrix
  | StiffnessMatrix

type_synonym 'k mfd_library =
  "mfd_routine \<Rightarrow> nat \<Rightarrow> 'k \<Rightarrow> DenseMatrix \<Rightarrow> elemental_status \<times> DenseMatrix"

definition mat_scale :: "DenseMatrix \<Rightarrow> real \<Rightarrow> DenseMatrix" where
  "mat_scale A s = A\<lparr>elem := (\<lambda>i j. elem A i j * s)\<rparr>"

text \<open>
  The first \<open>if\<close> chain of CreateMassMatrices\_ tries the primary method when it is one of
  the two monotone ones, and makes the secondary method the current one.
\<close>

definition try_primary ::
  "'k mfd_library \<Rightarrow> mfd_method \<Rightarrow> mfd_method \<Rightarrow> nat \<Rightarrow> 'k \<Rightarrow> DenseMatrix
     \<Rightarrow> mfd_method \<times> elemental_status \<times> DenseMatrix" where
  "try_primary mfd mfd_primary mfd_secondary c Kc Wff =
     (let method = mfd_primary; ok = WHETSTONE_ELEMENTAL_MATRIX_FAILED in
      if method = DIFFUSION_HEXAHEDRA_MONOTONE then
        (mfd_secondary, mfd MassMatrixInverseMMatrixHex c Kc Wff)
      else if method = DIFFUSION_OPTIMIZED_FOR_MONOTONICITY then
        (mfd_secondary, mfd MassMatrixInverseMMatrix c Kc Wff)
      else (method, ok, Wff))"

text \<open>The second chain runs the current method when the status is not OK.\<close>

definition try_current ::
  "'k mfd_library \<Rightarrow> nat \<Rightarrow> 'k \<Rightarrow> mfd_method \<times> elemental_status \<times> DenseMatrix
     \<Rightarrow> elemental_status \<times> DenseMatrix" where
  "try_current mfd c Kc = (\<lambda>(method, ok, Wff).
     if ok \<noteq> WHETSTONE_ELEMENTAL_MATRIX_OK then
       (if method = DIFFUSION_OPTIMIZED_FOR_SPARSITY then mfd MassMatrixInverseOptimizedScaled c Kc Wff
        else if method = DIFFUSION_TPFA then mfd MassMatrixInverseTPFA c Kc Wff
        else if method = DIFFUSION_SUPPORT_OPERATOR then mfd MassMatrixInverseSO c Kc Wff
        else if method = DIFFUSION_POLYHEDRA_SCALED then mfd MassMatrixInverseScaled c Kc Wff
        else (ok, Wff))
     else (ok, Wff))"

text \<open>
  The body of the loop over the owned cells of CreateMassMatrices\_.  \<open>Wff0\<close> is the freshly
  allocated matrix; \<open>rho\<close> and \<open>mu\<close> are the density and viscosity of the cell (the scalars
  \<open>rho_\<close> and \<open>mu_\<close>, or the entries of the two cell vectors).  The source scales the matrix
  and stores it in \<open>Wff_cells_[c]\<close> before it tests the status; the exception ends the
  function and the model keeps no matrix then.  A quotient \<open>rho / mu\<close> with \<open>mu = 0\<close> is not a
  real number, and raises no exception in the source.
\<close>

definition mass_matrix_cell ::
  "'k mfd_library \<Rightarrow> bool \<Rightarrow> mfd_method \<Rightarrow> mfd_method \<Rightarrow> real \<Rightarrow> real \<Rightarrow> nat \<Rightarrow> 'k
     \<Rightarrow> DenseMatrix \<Rightarrow> error + DenseMatrix" where
  "mass_matrix_cell mfd surface_mesh mfd_primary mfd_secondary rho mu c Kc Wff0 =
     (let (ok, Wff) =
            (if surface_mesh then mfd MassMatrixInverseSurface c Kc Wff0
             else try_current mfd c Kc (try_primary mfd mfd_primary mfd_secondary c Kc Wff0)) in
      if ok = WHETSTONE_ELEMENTAL_MATRIX_FAILED
        then Inl (FatalError ''OperatorDiffusion: unexpected failure in WhetStone.'')
      else if mu = 0 then Inl DivisionByZero
      else Inr (mat_scale Wff (rho / mu)))"

definition CreateMassMatrices ::
  "'k mfd_library \<Rightarrow> bool \<Rightarrow> mfd_method \<Rightarrow> mfd_method \<Rightarrow> (nat \<Rightarrow> real) \<Rightarrow> (nat \<Rightarrow> real)
     \<Rightarrow> (nat \<Rightarrow> 'k) \<Rightarrow> (nat \<Rightarrow> nat list) \<Rightarrow> nat \<Rightarrow> (nat \<Rightarrow> nat \<Rightarrow> nat \<Rightarrow> real)
     \<Rightarrow> (nat \<Rightarrow> DenseMatrix) \<Rightarrow> error + (nat \<Rightarrow> DenseMatrix)" where
  "CreateMassMatrices mfd surface_mesh mfd_primary mfd_secondary rho mu K cell_get_faces
       ncells_owned junk Wff_cells =
     foreach [0..<ncells_owned]
       (store_cell (\<lambda>c. let nfaces = length (cell_get_faces c) in
          mass_matrix_cell mfd surface_mesh mfd_primary mfd_secondary (rho c) (mu c) c (K c)
            \<lparr>NumRows = nfaces, NumCols = nfaces, elem = junk c\<rparr>))
       Wff_cells"

text \<open>
  The body of the loop of UpdateMatricesNodal\_.  The variable \<open>method\<close> of the source is
  assigned and never read; the second attempt is always \<open>StiffnessMatrix\<close>.
\<close>

definition stiffness_matrix_cell ::
  "'k mfd_library \<Rightarrow> mfd_method \<Rightarrow> mfd_method \<Rightarrow> nat \<Rightarrow> 'k \<Rightarrow> DenseMatrix
     \<Rightarrow> error + DenseMatrix" where
  "stiffness_matrix_cell mfd mfd_primary mfd_secondary c K Acell0 =
     (let method = mfd_primary;
          (ok, Acell) =
            (if method = DIFFUSION_OPTIMIZED_FOR_MONOTONICITY
             then mfd StiffnessMatrixMMatrix c K Acell0
             else mfd StiffnessMatrix c K Acell0);
          (ok, Acell) =
            (if ok \<noteq> WHETSTONE_ELEMENTAL_MATRIX_OK then mfd StiffnessMatrix c K Acell
             else (ok, Acell)) in
      if ok = WHETSTONE_ELEMENTAL_MATRIX_FAILED
        then Inl (FatalError ''Stiffness_MFD: unexpected failure of LAPACK in WhetStone.'')
        else Inr Acell)"

definition UpdateMatricesNodal ::
  "bool \<Rightarrow> bool \<Rightarrow> 'k mfd_library \<Rightarrow> mfd_method \<Rightarrow> mfd_method \<Rightarrow> (nat \<Rightarrow> 'k)
     \<Rightarrow> (nat \<Rightarrow> nat list) \<Rightarrow> nat \<Rightarrow> (nat \<Rightarrow> nat \<Rightarrow> nat \<Rightarrow> real)
     \<Rightarrow> (nat \<Rightarrow> DenseMatrix) \<Rightarrow> error + (nat \<Rightarrow> DenseMatrix)" where
  "UpdateMatricesNodal dbc scaled_constraint mfd mfd_primary mfd_secondary K cell_get_nodes
       ncells_owned junk mats =
     (case ASSERT dbc (\<not> scaled_constraint) of
        Inl e \<Rightarrow> Inl e
      | Inr _ \<Rightarrow>
          foreach [0..<ncells_owned]
            (store_cell (\<lambda>c. let nnodes = length (cell_get_nodes c) in
               stiffness_matrix_cell mfd mfd_primary mfd_secondary c (K c)
                 \<lparr>NumRows = nnodes, NumCols = nnodes, elem = junk c\<rparr>))
            mats)"

text \<open>The routine CreateMassMatrices\_ runs for a method.\<close>

definition routine_of :: "mfd_method \<Rightarrow> mfd_routine" where
  "routine_of method =
     (case method of
        DIFFUSION_HEXAHEDRA_MONOTONE \<Rightarrow> MassMatrixInverseMMatrixHex
      | DIFFUSION_OPTIMIZED_FOR_MONOTONICITY \<Rightarrow> MassMatrixInverseMMatrix
      | DIFFUSION_TPFA \<Rightarrow> MassMatrixInverseTPFA
      | DIFFUSION_OPTIMIZED_FOR_SPARSITY \<Rightarrow> MassMatrixInverseOptimizedScaled
      | DIFFUSION_SUPPORT_OPERATOR \<Rightarrow> MassMatrixInverseSO
      | DIFFUSION_POLYHEDRA_SCALED \<Rightarrow> MassMatrixInverseScaled)"

definition monotone_method :: "mfd_method \<Rightarrow> bool" where
  "monotone_method method \<longleftrightarrow>
     method = DIFFUSION_HEXAHEDRA_MONOTONE \<or> method = DIFFUSION_OPTIMIZED_FOR_MONOTONICITY"

text \<open>A library in which the two-point flux approximation fails and every other routine
  succeeds, leaving the matrix as it is.\<close>

definition mfd_tpfa_fails :: "unit mfd_library" where
  "mfd_tpfa_fails r c K W =
     (if r = MassMatrixInverseTPFA then (WHETSTONE_ELEMENTAL_MATRIX_FAILED, W)
      else (WHETSTONE_ELEMENTAL_MATRIX_OK, W))"

text \<open>A library in which the routine for optimized monotonicity reports the status 1,
  the support-operator routine succeeds with the matrix of twos, and all others fail.\<close>

definition mfd_monotone_fails :: "unit mfd_library" where
  "mfd_monotone_fails r c K W =
     (if r = MassMatrixInverseMMatrix then (ELEMENTAL_MATRIX_OTHER 1, W)
      else if r = MassMatrixInverseSO
        then (WHETSTONE_ELEMENTAL_MATRIX_OK, W\<lparr>elem := (\<lambda>i j. 2)\<rparr>)
      else (WHETSTONE_ELEMENTAL_MATRIX_FAILED, W))"

text \<open>
  Claim C2, as stated, fails: with the primary method two-point flux approximation and the
  secondary method support operator, a failure of the primary routine raises the fatal error
  although the routine of the secondary method reports success; the secondary is not tried.
\<close>

theorem mass_matrix_no_fallback_counterexample:
  "mass_matrix_cell mfd_tpfa_fails False DIFFUSION_TPFA DIFFUSION_SUPPORT_OPERATOR 1 1 0 ()
       \<lparr>NumRows = 2, NumCols = 2, elem = (\<lambda>i j. 0)\<rparr>
     = Inl (FatalError ''OperatorDiffusion: unexpected failure in WhetStone.'')
   \<and> fst (mfd_tpfa_fails (routine_of DIFFUSION_SUPPORT_OPERATOR) 0 ()
            \<lparr>NumRows = 2, NumCols = 2, elem = (\<lambda>i j. 0)\<rparr>) = WHETSTONE_ELEMENTAL_MATRIX_OK"
  by (simp add: mass_matrix_cell_def try_current_def try_primary_def mfd_tpfa_fails_def
      routine_of_def Let_def)

text \<open>
  Claim C2, amended.  On a mesh that is not a surface mesh: when the primary method is one
  of the two monotone ones and its routine reports a status other than OK, the matrix of the
  cell is recomputed with the routine of the secondary method (itself not a monotone one);
  when the primary method is any other one, its routine is the only one run.  In the nodal
  update a status other than OK is followed by the routine StiffnessMatrix, whatever the
  secondary method.  In each case the fatal error is raised exactly when the last routine
  run reports the status FAILED, and otherwise the matrix that routine left is kept.
\<close>

theorem mass_matrix_fallback:
  fixes mfd :: "'k mfd_library"
  shows
  "(monotone_method mfd_primary \<and> \<not> monotone_method mfd_secondary \<longrightarrow>
      (let first = mfd (routine_of mfd_primary) c Kc Wff0;
           final = (if fst first = WHETSTONE_ELEMENTAL_MATRIX_OK then first
                    else mfd (routine_of mfd_secondary) c Kc (snd first));
           result = mass_matrix_cell mfd False mfd_primary mfd_secondary rho mu c Kc Wff0
       in (result = Inl (FatalError ''OperatorDiffusion: unexpected failure in WhetStone.'')
             \<longleftrightarrow> fst final = WHETSTONE_ELEMENTAL_MATRIX_FAILED)
        \<and> (fst final \<noteq> WHETSTONE_ELEMENTAL_MATRIX_FAILED \<and> mu \<noteq> 0
             \<longrightarrow> result = Inr (mat_scale (snd final) (rho / mu)))))
   \<and> (\<not> monotone_method mfd_primary \<longrightarrow>
      (let final = mfd (routine_of mfd_primary) c Kc Wff0;
           result = mass_matrix_cell mfd False mfd_primary mfd_secondary rho mu c Kc Wff0
       in (result = Inl (FatalError ''OperatorDiffusion: unexpected failure in WhetStone.'')
             \<longleftrightarrow> fst final = WHETSTONE_ELEMENTAL_MATRIX_FAILED)
        \<and> (fst final \<noteq> WHETSTONE_ELEMENTAL_MATRIX_FAILED \<and> mu \<noteq> 0
             \<longrightarrow> result = Inr (mat_scale (snd final) (rho / mu)))))
   \<and> (let first = mfd (if mfd_primary = DIFFUSION_OPTIMIZED_FOR_MONOTONICITY
                        then StiffnessMatrixMMatrix else StiffnessMatrix) c Kc Wff0;
           final = (if fst first = WHETSTONE_ELEMENTAL_MATRIX_OK then first
                    else mfd StiffnessMatrix c Kc (snd first));
           result = stiffness_matrix_cell mfd mfd_primary mfd_secondary c Kc Wff0
       in (result = Inl (FatalError ''Stiffness_MFD: unexpected failure of LAPACK in WhetStone.'')
             \<longleftrightarrow> fst final = WHETSTONE_ELEMENTAL_MATRIX_FAILED)
        \<and> (fst final \<noteq> WHETSTONE_ELEMENTAL_MATRIX_FAILED \<longrightarrow> result = Inr (snd final)))"
proof (intro conjI impI)
  assume h: "monotone_method mfd_primary \<and> \<not> monotone_method mfd_secondary"
  show "let first = mfd (routine_of mfd_primary) c Kc Wff0;
           final = (if fst first = WHETSTONE_ELEMENTAL_MATRIX_OK then first
                    else mfd (routine_of mfd_secondary) c Kc (snd first));
           result = mass_matrix_cell mfd False mfd_primary mfd_secondary rho mu c Kc Wff0
       in (result = Inl (FatalError ''OperatorDiffusion: unexpected failure in WhetStone.'')
             \<longleftrightarrow> fst final = WHETSTONE_ELEMENTAL_MATRIX_FAILED)
        \<and> (fst final \<noteq> WHETSTONE_ELEMENTAL_MATRIX_FAILED \<and> mu \<noteq> 0
             \<longrightarrow> result = Inr (mat_scale (snd final) (rho / mu)))"
    using h
    by (cases mfd_primary; cases mfd_secondary)
       (auto simp: monotone_method_def routine_of_def mass_matrix_cell_def try_current_def
          try_primary_def Let_def split: prod.splits)
next
  assume h: "\<not> monotone_method mfd_primary"
  show "let final = mfd (routine_of mfd_primary) c Kc Wff0;
           result = mass_matrix_cell mfd False mfd_primary mfd_secondary rho mu c Kc Wff0
       in (result = Inl (FatalError ''OperatorDiffusion: unexpected failure in WhetStone.'')
             \<longleftrightarrow> fst final = WHETSTONE_ELEMENTAL_MATRIX_FAILED)
        \<and> (fst final \<noteq> WHETSTONE_ELEMENTAL_MATRIX_FAILED \<and> mu \<noteq> 0
             \<longrightarrow> result = Inr (mat_scale (snd final) (rho / mu)))"
    using h
    by (cases mfd_primary)
       (auto simp: monotone_method_def routine_of_def mass_matrix_cell_def try_current_def
          try_primary_def Let_def split: prod.splits)
next
  show "let first = mfd (if mfd_primary = DIFFUSION_OPTIMIZED_FOR_MONOTONICITY
                        then StiffnessMatrixMMatrix else StiffnessMatrix) c Kc Wff0;
           final = (if fst first = WHETSTONE_ELEMENTAL_MATRIX_OK then first
                    else mfd StiffnessMatrix c Kc (snd first));
           result = stiffness_matrix_cell mfd mfd_primary mfd_secondary c Kc Wff0
       in (result = Inl (FatalError ''Stiffness_MFD: unexpected failure of LAPACK in WhetStone.'')
             \<longleftrightarrow> fst final = WHETSTONE_ELEMENTAL_MATRIX_FAILED)
        \<and> (fst final \<noteq> WHETSTONE_ELEMENTAL_MATRIX_FAILED \<longrightarrow> result = Inr (snd final))"
    by (auto simp: stiffness_matrix_cell_def Let_def split: prod.splits)
qed

theorem mass_matrix_fallback_witness:
  "mass_matrix_cell mfd_monotone_fails False DIFFUSION_OPTIMIZED_FOR_MONOTONICITY
       DIFFUSION_SUPPORT_OPERATOR 1 2 0 () \<lparr>NumRows = 2, NumCols = 2, elem = (\<lambda>i j. 0)\<rparr>
     = Inr \<lparr>NumRows = 2, NumCols = 2, elem = (\<lambda>i j. 1)\<rparr>
   \<and> mass_matrix_cell mfd_monotone_fails False DIFFUSION_TPFA
       DIFFUSION_SUPPORT_OPERATOR 1 2 0 () \<lparr>NumRows = 2, NumCols = 2, elem = (\<lambda>i j. 0)\<rparr>
     = Inl (FatalError ''OperatorDiffusion: unexpected failure in WhetStone.'')
   \<and> stiffness_matrix_cell mfd_monotone_fails DIFFUSION_TPFA
       DIFFUSION_SUPPORT_OPERATOR 0 () \<lparr>NumRows = 2, NumCols = 2, elem = (\<lambda>i j. 0)\<rparr>
     = Inl (FatalError ''Stiffness_MFD: unexpected failure of LAPACK in WhetStone.'')"
proof -
  let ?W = "\<lparr>NumRows = 2, NumCols = 2, elem = (\<lambda>i j. 0::real)\<rparr>"
  have m: "monotone_method DIFFUSION_OPTIMIZED_FOR_MONOTONICITY
           \<and> \<not> monotone_method DIFFUSION_SUPPORT_OPERATOR"
    by (simp add: monotone_method_def)
  have n: "\<not> monotone_method DIFFUSION_TPFA" by (simp add: monotone_method_def)
  note a = mass_matrix_fallback [where mfd = mfd_monotone_fails
      and mfd_primary = DIFFUSION_OPTIMIZED_FOR_MONOTONICITY
      and mfd_secondary = DIFFUSION_SUPPORT_OPERATOR and rho = 1 and mu = 2 and c = 0
      and Kc = "()" and ?Wff0.0 = ?W, THEN conjunct1, rule_format, OF m]
  note b = mass_matrix_fallback [where mfd = mfd_monotone_fails
      and mfd_primary = DIFFUSION_TPFA
      and mfd_secondary = DIFFUSION_SUPPORT_OPERATOR and rho = 1 and mu = 2 and c = 0
      and Kc = "()" and ?Wff0.0 = ?W, THEN conjunct2, THEN conjunct1, rule_format, OF n]
  note c = mass_matrix_fallback [where mfd = mfd_monotone_fails
      and mfd_primary = DIFFUSION_TPFA
      and mfd_secondary = DIFFUSION_SUPPORT_OPERATOR and rho = 1 and mu = 2 and c = 0
      and Kc = "()" and ?Wff0.0 = ?W, THEN conjunct2, THEN conjunct2]
  have "mass_matrix_cell mfd_monotone_fails False DIFFUSION_OPTIMIZED_FOR_MONOTONICITY
       DIFFUSION_SUPPORT_OPERATOR 1 2 0 () ?W
     = Inr \<lparr>NumRows = 2, NumCols = 2, elem = (\<lambda>i j. 1)\<rparr>"
    using a by (simp add: Let_def routine_of_def mfd_monotone_fails_def mat_scale_def)
  moreover have "mass_matrix_cell mfd_monotone_fails False DIFFUSION_TPFA
       DIFFUSION_SUPPORT_OPERATOR 1 2 0 () ?W
     = Inl (FatalError ''OperatorDiffusion: unexpected failure in WhetStone.'')"
    using b by (simp add: Let_def routine_of_def mfd_monotone_fails_def)
  moreover have "stiffness_matrix_cell mfd_monotone_fails DIFFUSION_TPFA
       DIFFUSION_SUPPORT_OPERATOR 0 () ?W
     = Inl (FatalError ''Stiffness_MFD: unexpected failure of LAPACK in WhetStone.'')"
    using c by (simp add: Let_def mfd_monotone_fails_def)
  ultimately show ?thesis by blast
qed

section \<open>OperatorDiffusionMFD: UpdateMatricesTPFA\_\<close>

text \<open>
  The reciprocal \<open>1.0 / x\<close>.  For \<open>x = 0\<close> the floating-point quotient is an infinity, not
  a real number: the model records that the division was evaluated at zero.
\<close>

definition reciprocal :: "real \<Rightarrow> error + real" where
  "reciprocal x = (if x = 0 then Inl DivisionByZero else Inr (1 / x))"

text \<open>The statement \<open>Ttmp[0][f] += 1.0 / Mff(n, n)\<close> for the local face \<open>n\<close>.\<close>

definition accumulate_face ::
  "DenseMatrix \<Rightarrow> nat list \<Rightarrow> nat \<Rightarrow> (nat \<Rightarrow> real) \<Rightarrow> error + (nat \<Rightarrow> real)" where
  "accumulate_face Mff faces n Ttmp =
     (let f = faces ! n in
      case reciprocal (elem Mff n n) of
        Inl e \<Rightarrow> Inl e
      | Inr r \<Rightarrow> Inr (Ttmp(f := Ttmp f + r)))"

text \<open>
  The body of the first loop, over the owned cells.  \<open>isZero\<close> is the test of the tensor
  class, \<open>K c\<close> the tensor of the cell (the unit tensor when no tensors were set), and the
  matrix \<open>Mff\<close> is what \<open>MassMatrixInverseTPFA\<close> leaves in its output argument; its status
  is not looked at.
\<close>

definition accumulate_cell ::
  "('k \<Rightarrow> bool) \<Rightarrow> 'k mfd_library \<Rightarrow> (nat \<Rightarrow> 'k) \<Rightarrow> (nat \<Rightarrow> nat list) \<Rightarrow> (nat \<Rightarrow> nat \<Rightarrow> nat \<Rightarrow> real)
     \<Rightarrow> nat \<Rightarrow> (nat \<Rightarrow> real) \<Rightarrow> error + (nat \<Rightarrow> real)" where
  "accumulate_cell isZero mfd K cell_get_faces junk c Ttmp =
     (let Kc = K c in
      if isZero Kc then Inr Ttmp
      else
        (let faces = cell_get_faces c; nfaces = length faces;
             Mff = snd (mfd MassMatrixInverseTPFA c Kc
                          \<lparr>NumRows = nfaces, NumCols = nfaces, elem = junk c\<rparr>)
         in foreach [0..<nfaces] (accumulate_face Mff faces) Ttmp))"

text \<open>The body of the second loop, over the owned faces.\<close>

definition face_matrix ::
  "(nat \<Rightarrow> real) \<Rightarrow> (nat \<Rightarrow> nat list) \<Rightarrow> (nat \<Rightarrow> nat \<Rightarrow> nat \<Rightarrow> real) \<Rightarrow> nat \<Rightarrow> error + DenseMatrix" where
  "face_matrix Ttmp face_get_cells junk f =
     (let cells = face_get_cells f; ncells = length cells;
          Aface = \<lparr>NumRows = ncells, NumCols = ncells, elem = junk f\<rparr> in
      if Ttmp f = 0 then Inr (Aface\<lparr>elem := (\<lambda>i j. 0)\<rparr>)
      else if ncells = 2 then
        (case reciprocal (Ttmp f) of
           Inl e \<Rightarrow> Inl e
         | Inr coef \<Rightarrow>
             Inr (mat_set (mat_set (mat_set (mat_set Aface 0 0 coef) 1 1 coef) 0 1 (- coef))
                    1 0 (- coef)))
      else
        (case reciprocal (Ttmp f) of
           Inl e \<Rightarrow> Inl e
         | Inr coef \<Rightarrow> Inr (mat_set Aface 0 0 coef)))"

text \<open>
  UpdateMatricesTPFA\_.  \<open>GatherGhostedToMaster\<close> between the loops adds what other
  processes accumulated for the faces of this one; the model is that of one process.
\<close>

definition UpdateMatricesTPFA ::
  "('k \<Rightarrow> bool) \<Rightarrow> 'k mfd_library \<Rightarrow> (nat \<Rightarrow> 'k) \<Rightarrow> (nat \<Rightarrow> nat list) \<Rightarrow> (nat \<Rightarrow> nat list)
     \<Rightarrow> nat \<Rightarrow> nat \<Rightarrow> (nat \<Rightarrow> nat \<Rightarrow> nat \<Rightarrow> real) \<Rightarrow> (nat \<Rightarrow> nat \<Rightarrow> nat \<Rightarrow> real)
     \<Rightarrow> (nat \<Rightarrow> DenseMatrix) \<Rightarrow> error + (nat \<Rightarrow> DenseMatrix)" where
  "UpdateMatricesTPFA isZero mfd K cell_get_faces face_get_cells ncells_owned nfaces_owned
       junk_cell junk_face mats =
     (case foreach [0..<ncells_owned]
             (accumulate_cell isZero mfd K cell_get_faces junk_cell) (\<lambda>f. 0) of
        Inl e \<Rightarrow> Inl e
      | Inr Ttmp \<Rightarrow>
          foreach [0..<nfaces_owned] (store_cell (face_matrix Ttmp face_get_cells junk_face)) mats)"

lemma accumulate_face_loop:
  "((\<exists>n < k. elem Mff n n = 0)
      \<longrightarrow> foreach [0..<k] (accumulate_face Mff faces) T = Inl DivisionByZero)
   \<and> ((\<forall>n < k. elem Mff n n \<noteq> 0)
      \<longrightarrow> (\<exists>T'. foreach [0..<k] (accumulate_face Mff faces) T = Inr T'))"
proof (induction k)
  case 0
  then show ?case by simp
next
  case (Suc k)
  show ?case
  proof (cases "\<exists>n < k. elem Mff n n = 0")
    case True
    then have "foreach [0..<k] (accumulate_face Mff faces) T = Inl DivisionByZero"
      using Suc by blast
    then have "foreach [0..<Suc k] (accumulate_face Mff faces) T = Inl DivisionByZero"
      by (simp add: foreach_append)
    moreover have "\<exists>n < Suc k. elem Mff n n = 0" using True less_SucI by blast
    ultimately show ?thesis by blast
  next
    case False
    then have "\<forall>n < k. elem Mff n n \<noteq> 0" by blast
    then obtain T' where run: "foreach [0..<k] (accumulate_face Mff faces) T = Inr T'"
      using Suc by blast
    show ?thesis
    proof (cases "elem Mff k k = 0")
      case True
      then have "\<exists>n < Suc k. elem Mff n n = 0" by blast
      moreover have "foreach [0..<Suc k] (accumulate_face Mff faces) T = Inl DivisionByZero"
        using True by (simp add: foreach_append run accumulate_face_def reciprocal_def)
      ultimately show ?thesis by blast
    next
      case nz: False
      have "\<forall>n < Suc k. elem Mff n n \<noteq> 0" using False nz by (auto simp: less_Suc_eq)
      moreover have "\<exists>T''. foreach [0..<Suc k] (accumulate_face Mff faces) T = Inr T''"
        using nz by (simp add: foreach_append run accumulate_face_def reciprocal_def Let_def)
      ultimately show ?thesis by blast
    qed
  qed
qed

text \<open>A cell whose tensor is not zero and whose matrix has a zero on the diagonal.\<close>

definition zero_diagonal_cell ::
  "('k \<Rightarrow> bool) \<Rightarrow> 'k mfd_library \<Rightarrow> (nat \<Rightarrow> 'k) \<Rightarrow> (nat \<Rightarrow> nat list) \<Rightarrow> (nat \<Rightarrow> nat \<Rightarrow> nat \<Rightarrow> real)
     \<Rightarrow> nat \<Rightarrow> bool" where
  "zero_diagonal_cell isZero mfd K cell_get_faces junk c \<longleftrightarrow>
     \<not> isZero (K c) \<and>
     (\<exists>n < length (cell_get_faces c).
        elem (snd (mfd MassMatrixInverseTPFA c (K c)
               \<lparr>NumRows = length (cell_get_faces c), NumCols = length (cell_get_faces c),
                elem = junk c\<rparr>)) n n = 0)"

lemma accumulate_cell_cases:
  "(zero_diagonal_cell isZero mfd K cell_get_faces junk c
      \<longrightarrow> accumulate_cell isZero mfd K cell_get_faces junk c T = Inl DivisionByZero)
   \<and> (\<not> zero_diagonal_cell isZero mfd K cell_get_faces junk c
      \<longrightarrow> (\<exists>T'. accumulate_cell isZero mfd K cell_get_faces junk c T = Inr T'))"
proof (cases "isZero (K c)")
  case True
  then show ?thesis by (simp add: zero_diagonal_cell_def accumulate_cell_def)
next
  case False
  let ?faces = "cell_get_faces c"
  let ?Mff = "snd (mfd MassMatrixInverseTPFA c (K c)
               \<lparr>NumRows = length ?faces, NumCols = length ?faces, elem = junk c\<rparr>)"
  from accumulate_face_loop [of "length ?faces" ?Mff ?faces T] False
  show ?thesis by (auto simp: zero_diagonal_cell_def accumulate_cell_def Let_def)
qed

lemma accumulate_cell_loop:
  "((\<exists>c < k. zero_diagonal_cell isZero mfd K cell_get_faces junk c)
      \<longrightarrow> foreach [0..<k] (accumulate_cell isZero mfd K cell_get_faces junk) T
            = Inl DivisionByZero)
   \<and> ((\<forall>c < k. \<not> zero_diagonal_cell isZero mfd K cell_get_faces junk c)
      \<longrightarrow> (\<exists>T'. foreach [0..<k] (accumulate_cell isZero mfd K cell_get_faces junk) T = Inr T'))"
proof (induction k)
  case 0
  then show ?case by simp
next
  case (Suc k)
  show ?case
  proof (cases "\<exists>c < k. zero_diagonal_cell isZero mfd K cell_get_faces junk c")
    case True
    then have "foreach [0..<k] (accumulate_cell isZero mfd K cell_get_faces junk) T
                 = Inl DivisionByZero"
      using Suc by blast
    then have "foreach [0..<Suc k] (accumulate_cell isZero mfd K cell_get_faces junk) T
                 = Inl DivisionByZero"
      by (simp add: foreach_append)
    moreover have "\<exists>c < Suc k. zero_diagonal_cell isZero mfd K cell_get_faces junk c"
      using True less_SucI by blast
    ultimately show ?thesis by blast
  next
    case False
    then have "\<forall>c < k. \<not> zero_diagonal_cell isZero mfd K cell_get_faces junk c" by blast
    then obtain T' where
      run: "foreach [0..<k] (accumulate_cell isZero mfd K cell_get_faces junk) T = Inr T'"
      using Suc by blast
    show ?thesis
    proof (cases "zero_diagonal_cell isZero mfd K cell_get_faces junk k")
      case True
      then have "\<exists>c < Suc k. zero_diagonal_cell isZero mfd K cell_get_faces junk c" by blast
      moreover have "accumulate_cell isZero mfd K cell_get_faces junk k T' = Inl DivisionByZero"
        using accumulate_cell_cases [of isZero mfd K cell_get_faces junk k T'] True by simp
      then have "foreach [0..<Suc k] (accumulate_cell isZero mfd K cell_get_faces junk) T
                 = Inl DivisionByZero"
        by (simp add: foreach_append run)
      ultimately show ?thesis by blast
    next
      case nz: False
      have "\<forall>c < Suc k. \<not> zero_diagonal_cell isZero mfd K cell_get_faces junk c"
        using False nz by (auto simp: less_Suc_eq)
      moreover obtain T'' where "accumulate_cell isZero mfd K cell_get_faces junk k T' = Inr T''"
        using accumulate_cell_cases [of isZero mfd K cell_get_faces junk k T'] nz by blast
      then have "\<exists>T''. foreach [0..<Suc k] (accumulate_cell isZero mfd K cell_get_faces junk) T
                   = Inr T''"
        by (simp add: foreach_append run)
      ultimately show ?thesis by blast
    qed
  qed
qed

lemma face_matrix_returns: "\<exists>Aface. face_matrix T face_get_cells junk f = Inr Aface"
  by (simp add: face_matrix_def reciprocal_def Let_def)

lemma face_loop_returns:
  "\<exists>mats'. foreach [0..<k] (store_cell (face_matrix T face_get_cells junk)) mats = Inr mats'"
proof (induction k)
  case 0
  then show ?case by simp
next
  case (Suc k)
  then obtain mid where
    run: "foreach [0..<k] (store_cell (face_matrix T face_get_cells junk)) mats = Inr mid"
    by blast
  obtain Aface where "face_matrix T face_get_cells junk k = Inr Aface"
    using face_matrix_returns by blast
  then have "store_cell (face_matrix T face_get_cells junk) k mid = Inr (mid(k := Aface))"
    by (simp add: store_cell_def)
  then show ?case by (simp add: foreach_append run)
qed

text \<open>
  A library for cells that are unit squares with faces 0 and 1 normal to the x axis and
  faces 2 and 3 normal to the y axis, and for diagonal tensors \<open>(kx, ky)\<close>: the diagonal
  entry of a face is the component of the tensor along the normal of the face, times the
  area of the face over its distance to the centre of the cell.
\<close>

definition mfd_unit_square :: "(real \<times> real) mfd_library" where
  "mfd_unit_square r c K W =
     (WHETSTONE_ELEMENTAL_MATRIX_OK,
      W\<lparr>elem := (\<lambda>i j. if i = j then 2 * (if i < 2 then fst K else snd K) else 0)\<rparr>)"

text \<open>
  Claim C3, as stated, fails: for the tensor \<open>(1, 0)\<close>, which is not zero, the cell is not
  skipped and the reciprocal \<open>1.0 / Mff(n, n)\<close> is evaluated at the zero diagonal entry of the
  faces normal to the y axis.
\<close>

theorem UpdateMatricesTPFA_division_by_zero_counterexample:
  "UpdateMatricesTPFA (\<lambda>K. K = (0, 0)) mfd_unit_square (\<lambda>c. (1, 0))
       (\<lambda>c. [0, 1, 2, 3]) (\<lambda>f. [0]) 1 4 (\<lambda>c i j. 0) (\<lambda>f i j. 0)
       (\<lambda>f. \<lparr>NumRows = 0, NumCols = 0, elem = (\<lambda>i j. 0)\<rparr>)
     = Inl DivisionByZero"
proof -
  have "zero_diagonal_cell (\<lambda>K. K = (0, 0)) mfd_unit_square (\<lambda>c. (1, 0))
          (\<lambda>c. [0, 1, 2, 3]) (\<lambda>c i j. 0) 0"
    unfolding zero_diagonal_cell_def
    by (intro conjI exI [of _ 2]) (simp_all add: mfd_unit_square_def)
  then have "\<exists>c < 1. zero_diagonal_cell (\<lambda>K. K = (0, 0)) mfd_unit_square (\<lambda>c. (1, 0))
          (\<lambda>c. [0, 1, 2, 3]) (\<lambda>c i j. 0) c"
    by simp
  then have "foreach [0..<1]
      (accumulate_cell (\<lambda>K. K = (0, 0)) mfd_unit_square (\<lambda>c. (1, 0)) (\<lambda>c. [0, 1, 2, 3])
         (\<lambda>c i j. 0)) (\<lambda>f. 0) = Inl DivisionByZero"
    using accumulate_cell_loop by blast
  then show ?thesis by (simp add: UpdateMatricesTPFA_def)
qed

text \<open>
  Claim C3, amended.  In the TPFA matrix update a cell whose tensor is exactly zero
  contributes nothing to the accumulated values, and an owned face whose accumulated value
  \<open>T\<close> is exactly zero gets the zero matrix; for every other face the reciprocal \<open>1 / T\<close> is
  taken of a value that is not zero.  So the second loop never divides by zero.  The first
  loop takes the reciprocal of every diagonal entry of the matrix \<open>MassMatrixInverseTPFA\<close>
  returns for a cell whose tensor is not zero: the update divides by zero exactly when one
  of these entries is zero, and returns the matrices of all owned faces otherwise.
\<close>

theorem UpdateMatricesTPFA_divisions:
  fixes mfd :: "'k mfd_library"
  shows
  "(isZero (K c) \<longrightarrow> accumulate_cell isZero mfd K cell_get_faces junk_cell c T = Inr T)
   \<and> (T f = 0 \<longrightarrow> face_matrix T face_get_cells junk_face f =
         Inr \<lparr>NumRows = length (face_get_cells f), NumCols = length (face_get_cells f),
              elem = (\<lambda>i j. 0)\<rparr>)
   \<and> (T f \<noteq> 0 \<longrightarrow> (\<exists>Aface. face_matrix T face_get_cells junk_face f = Inr Aface
                              \<and> elem Aface 0 0 = 1 / T f))
   \<and> (\<exists>mats'. foreach [0..<nfaces_owned] (store_cell (face_matrix T face_get_cells junk_face))
                 mats = Inr mats')
   \<and> (UpdateMatricesTPFA isZero mfd K cell_get_faces face_get_cells ncells_owned nfaces_owned
         junk_cell junk_face mats = Inl DivisionByZero
       \<longleftrightarrow> (\<exists>c < ncells_owned. zero_diagonal_cell isZero mfd K cell_get_faces junk_cell c))
   \<and> ((\<forall>c < ncells_owned. \<not> zero_diagonal_cell isZero mfd K cell_get_faces junk_cell c)
       \<longrightarrow> (\<exists>mats'. UpdateMatricesTPFA isZero mfd K cell_get_faces face_get_cells ncells_owned
                      nfaces_owned junk_cell junk_face mats = Inr mats'))"
proof -
  let ?run = "UpdateMatricesTPFA isZero mfd K cell_get_faces face_get_cells ncells_owned
                nfaces_owned junk_cell junk_face mats"
  let ?bad = "\<exists>c < ncells_owned. zero_diagonal_cell isZero mfd K cell_get_faces junk_cell c"
  have a: "isZero (K c) \<longrightarrow> accumulate_cell isZero mfd K cell_get_faces junk_cell c T = Inr T"
    by (simp add: accumulate_cell_def)
  have b: "T f = 0 \<longrightarrow> face_matrix T face_get_cells junk_face f =
         Inr \<lparr>NumRows = length (face_get_cells f), NumCols = length (face_get_cells f),
              elem = (\<lambda>i j. 0)\<rparr>"
    by (simp add: face_matrix_def Let_def)
  have c: "T f \<noteq> 0 \<longrightarrow> (\<exists>Aface. face_matrix T face_get_cells junk_face f = Inr Aface
                              \<and> elem Aface 0 0 = 1 / T f)"
    by (simp add: face_matrix_def Let_def reciprocal_def)
  have d: "\<exists>mats'. foreach [0..<nfaces_owned] (store_cell (face_matrix T face_get_cells junk_face))
                 mats = Inr mats'"
    by (rule face_loop_returns)
  have bad: "?bad \<Longrightarrow> ?run = Inl DivisionByZero"
  proof -
    assume ?bad
    then have "foreach [0..<ncells_owned]
        (accumulate_cell isZero mfd K cell_get_faces junk_cell) (\<lambda>f. 0) = Inl DivisionByZero"
      using accumulate_cell_loop by blast
    then show "?run = Inl DivisionByZero" by (simp add: UpdateMatricesTPFA_def)
  qed
  have good: "\<not> ?bad \<Longrightarrow> \<exists>mats'. ?run = Inr mats'"
  proof -
    assume "\<not> ?bad"
    then have "\<forall>c < ncells_owned. \<not> zero_diagonal_cell isZero mfd K cell_get_faces junk_cell c"
      by blast
    then obtain T' where "foreach [0..<ncells_owned]
        (accumulate_cell isZero mfd K cell_get_faces junk_cell) (\<lambda>f. 0) = Inr T'"
      using accumulate_cell_loop by blast
    then show "\<exists>mats'. ?run = Inr mats'"
      using face_loop_returns [of nfaces_owned T' face_get_cells junk_face mats]
      by (simp add: UpdateMatricesTPFA_def)
  qed
  have e: "?run = Inl DivisionByZero \<longleftrightarrow> ?bad"
    using bad good by (cases ?bad) auto
  have f: "(\<forall>c < ncells_owned. \<not> zero_diagonal_cell isZero mfd K cell_get_faces junk_cell c)
       \<longrightarrow> (\<exists>mats'. ?run = Inr mats')"
    using good by blast
  show ?thesis using a b c d e f by blast
qed

theorem UpdateMatricesTPFA_divisions_witness:
  "accumulate_cell (\<lambda>K. K = (0, 0)) mfd_unit_square (\<lambda>c. if c = 0 then (1, 1) else (0, 0))
       (\<lambda>c. if c = 0 then [0, 1, 2, 3] else [1, 4, 5, 6]) (\<lambda>c i j. 0) 1 (\<lambda>f. 7) = Inr (\<lambda>f. 7)
   \<and> face_matrix (\<lambda>f. 0) (\<lambda>f. [0, 1]) (\<lambda>f i j. 9) 4
       = Inr \<lparr>NumRows = 2, NumCols = 2, elem = (\<lambda>i j. 0)\<rparr>
   \<and> (\<exists>Aface. face_matrix (\<lambda>f. 4) (\<lambda>f. [0, 1]) (\<lambda>f i j. 9) 1 = Inr Aface
                \<and> elem Aface 0 0 = 1 / 4)
   \<and> (\<exists>mats'. UpdateMatricesTPFA (\<lambda>K. K = (0, 0)) mfd_unit_square
         (\<lambda>c. if c = 0 then (1, 1) else (0, 0))
         (\<lambda>c. if c = 0 then [0, 1, 2, 3] else [1, 4, 5, 6])
         (\<lambda>f. if f = 1 then [0, 1] else [0]) 2 7 (\<lambda>c i j. 0) (\<lambda>f i j. 0)
         (\<lambda>f. \<lparr>NumRows = 0, NumCols = 0, elem = (\<lambda>i j. 0)\<rparr>) = Inr mats')"
proof -
  let ?isZero = "\<lambda>K::real \<times> real. K = (0, 0)"
  let ?K = "\<lambda>c::nat. if c = 0 then (1, 1) else (0, 0::real)"
  let ?cgf = "\<lambda>c::nat. if c = 0 then [0, 1, 2, 3] else [1, 4, 5, 6::nat]"
  let ?fgc = "\<lambda>f::nat. if f = 1 then [0, 1] else [0::nat]"
  let ?m0 = "\<lambda>f::nat. \<lparr>NumRows = 0, NumCols = 0, elem = (\<lambda>i j. 0::real)\<rparr>"
  have z: "?isZero (?K 1)" by simp
  have nobad: "\<forall>c < 2. \<not> zero_diagonal_cell ?isZero mfd_unit_square ?K ?cgf (\<lambda>c i j. 0) c"
    by (auto simp: zero_diagonal_cell_def mfd_unit_square_def)
  note a = UpdateMatricesTPFA_divisions [where isZero = ?isZero and mfd = mfd_unit_square
      and K = ?K and cell_get_faces = ?cgf and junk_cell = "\<lambda>c i j. 0" and c = 1
      and T = "\<lambda>f. 7", THEN conjunct1, rule_format, OF z]
  note b = UpdateMatricesTPFA_divisions [where T = "\<lambda>f. 0" and f = 4
      and face_get_cells = "\<lambda>f. [0, 1]" and junk_face = "\<lambda>f i j. 9",
      THEN conjunct2, THEN conjunct1, rule_format, OF refl]
  have nz: "(\<lambda>f::nat. 4::real) 1 \<noteq> 0" by simp
  note c = UpdateMatricesTPFA_divisions [where T = "\<lambda>f. 4" and f = 1
      and face_get_cells = "\<lambda>f. [0, 1]" and junk_face = "\<lambda>f i j. 9",
      THEN conjunct2, THEN conjunct2, THEN conjunct1, rule_format, OF nz]
  note d = UpdateMatricesTPFA_divisions [where isZero = ?isZero and mfd = mfd_unit_square
      and K = ?K and cell_get_faces = ?cgf and junk_cell = "\<lambda>c i j. 0"
      and face_get_cells = ?fgc and ncells_owned = 2 and nfaces_owned = 7
      and junk_face = "\<lambda>f i j. 0" and mats = ?m0,
      THEN conjunct2, THEN conjunct2, THEN conjunct2, THEN conjunct2, THEN conjunct2,
      THEN mp, OF nobad]
  show ?thesis using a b c d by simp
qed

section \<open>Richards\_PK: Advance and CalculateFlowDt\<close>

datatype FLOW_STATUS =
    FLOW_STATUS_INIT
  | FLOW_STATUS_STEADY_STATE_INIT
  | FLOW_STATUS_TRANSIENT_STATE_INIT
  | FLOW_STATUS_TRANSIENT_STATE_COMPLETE

text \<open>The value of \<open>ti_method\<close>: one of the three constants Advance compares it with, or
  any other integer.\<close>

datatype time_integration =
    FLOW_TIME_INTEGRATION_PICARD
  | FLOW_TIME_INTEGRATION_BDF1
  | FLOW_TIME_INTEGRATION_BDF2
  | FLOW_TIME_INTEGRATION_OTHER int

text \<open>
  The members of the process kernel that Advance and CalculateFlowDt read or write.  The
  solution vector is of a type \<open>'u\<close> and the state of a time integrator object of a type
  \<open>'d\<close>; the pointers \<open>bdf1_dae\<close> and \<open>bdf2_dae\<close> are null (\<open>None\<close>) or point to an
  object.  The other members of the kernel (the matrix and the preconditioner, the relative
  permeabilities, the boundary data) are the field \<open>internals\<close>, of a type \<open>'m\<close>.
  \<open>num_itrs\<close> counts the steps; the model counts in the integers and does not bound it,
  and nothing that is proved of Advance below depends on more than its being zero or not.
\<close>

text \<open>(The member \<open>flow_status_\<close> is the field \<open>flow_status\<close>.)\<close>

record ('u, 'd, 'm) Richards_PK =
  flow_status :: FLOW_STATUS
  ti_method :: time_integration
  block_picard :: int
  num_itrs :: int
  dT :: real
  dTnext :: real
  T_physics :: real
  solution :: 'u
  bdf1_dae :: "'d option"
  bdf2_dae :: "'d option"
  internals :: 'm

text \<open>
  What Advance calls and the sources do not contain: the routines of the kernel
  \<open>AdvanceToSteadyState\<close> and \<open>PicardTimeStep\<close>, which work on the members, and the time
  integrators.  For an integrator, \<open>set_initial_state\<close> gives the new state of the
  object, \<open>step\<close> (the step, \<open>commit_solution\<close> and the statistics) the new state of the
  object, the new solution and the next step size, \<open>most_recent_time\<close> its time.

  \<open>ComputeUDot(T, u, udot)\<close> and \<open>update_precon(T, u, dT, ierr)\<close> take the solution as a
  constant reference.  The body of the first is a sequence of calls of routines that the
  sources do not contain (the assembly of the matrix from \<open>u\<close> and the residual); the
  second is not in the sources.  Both are taken to work on the other members only: from the
  time, the solution (and the step size) and the other members, each gives the other
  members after the call, \<open>ComputeUDot\<close> also the vector \<open>udot\<close>, or it does not return
  (an error).
\<close>

record ('u, 'd, 'm) collaborators =
  AdvanceToSteadyState :: "('u, 'd, 'm) Richards_PK \<Rightarrow> ('u, 'd, 'm) Richards_PK"
  PicardTimeStep :: "real \<Rightarrow> real \<Rightarrow> ('u, 'd, 'm) Richards_PK \<Rightarrow> ('u, 'd, 'm) Richards_PK"
  ComputeUDot :: "real \<Rightarrow> 'u \<Rightarrow> 'm \<Rightarrow> error + 'u \<times> 'm"
  update_precon :: "real \<Rightarrow> 'u \<Rightarrow> real \<Rightarrow> 'm \<Rightarrow> error + 'm"
  set_initial_state :: "'d \<Rightarrow> real \<Rightarrow> 'u \<Rightarrow> 'u \<Rightarrow> 'd"
  step :: "'d \<Rightarrow> real \<Rightarrow> 'u \<Rightarrow> 'd \<times> 'u \<times> real"
  most_recent_time :: "'d \<Rightarrow> real"

text \<open>\<open>CalculateFlowDt\<close>: the value returned and the members after the call.\<close>

definition CalculateFlowDt ::
  "('u, 'd, 'm) Richards_PK \<Rightarrow> real \<times> ('u, 'd, 'm) Richards_PK" where
  "CalculateFlowDt s =
     (let s' = (if ti_method s = FLOW_TIME_INTEGRATION_PICARD \<and> block_picard s = 1
                then s\<lparr>dT := dT s * 10000\<rparr> else s)
      in (dT s', s'))"

text \<open>
  The block \<open>if (num_itrs == 0) { ... }\<close> of Advance: \<open>ComputeUDot\<close>, the
  initialization for the method, \<open>update_precon\<close>.
\<close>

definition advance_initialize ::
  "('u, 'd, 'm) collaborators \<Rightarrow> real \<Rightarrow> ('u, 'd, 'm) Richards_PK
     \<Rightarrow> error + ('u, 'd, 'm) Richards_PK" where
  "advance_initialize env time s =
     (if num_itrs s = 0 then
        (case ComputeUDot env time (solution s) (internals s) of
           Inl e \<Rightarrow> Inl e
         | Inr (udot, m1) \<Rightarrow>
           (let s1 = s\<lparr>internals := m1\<rparr> in
            case
              (if ti_method s1 = FLOW_TIME_INTEGRATION_BDF2 then
                 (case bdf2_dae s1 of
                    None \<Rightarrow> Inl NullPointer
                  | Some d \<Rightarrow>
                      Inr (s1\<lparr>bdf2_dae := Some (set_initial_state env d time (solution s1) udot)\<rparr>))
               else if ti_method s1 = FLOW_TIME_INTEGRATION_BDF1 then
                 (case bdf1_dae s1 of
                    None \<Rightarrow> Inl NullPointer
                  | Some d \<Rightarrow>
                      Inr (s1\<lparr>bdf1_dae := Some (set_initial_state env d time (solution s1) udot)\<rparr>))
               else if ti_method s1 = FLOW_TIME_INTEGRATION_PICARD then
                 (if flow_status s1 = FLOW_STATUS_STEADY_STATE_INIT
                  then Inr ((AdvanceToSteadyState env s1)\<lparr>block_picard := 1\<rparr>)
                  else Inr s1)
               else Inr s1) of
              Inl e \<Rightarrow> Inl e
            | Inr s2 \<Rightarrow>
                (case update_precon env time (solution s2) (dT s2) (internals s2) of
                   Inl e \<Rightarrow> Inl e
                 | Inr m2 \<Rightarrow> Inr (s2\<lparr>internals := m2\<rparr>))))
      else Inr s)"

text \<open>The chain \<open>if (ti_method == ...) ... else if ...\<close> that performs the step.\<close>

definition advance_step ::
  "('u, 'd, 'm) collaborators \<Rightarrow> real \<Rightarrow> ('u, 'd, 'm) Richards_PK
     \<Rightarrow> error + ('u, 'd, 'm) Richards_PK" where
  "advance_step env time s =
     (if ti_method s = FLOW_TIME_INTEGRATION_BDF2 then
        (case bdf2_dae s of
           None \<Rightarrow> Inl NullPointer
         | Some d \<Rightarrow>
             (let (d', u', dTn) = step env d (dT s) (solution s)
              in Inr (s\<lparr>solution := u', dTnext := dTn, bdf2_dae := Some d',
                        T_physics := most_recent_time env d'\<rparr>)))
      else if ti_method s = FLOW_TIME_INTEGRATION_BDF1 then
        (case bdf1_dae s of
           None \<Rightarrow> Inl NullPointer
         | Some d \<Rightarrow>
             (let (d', u', dTn) = step env d (dT s) (solution s)
              in Inr (s\<lparr>solution := u', dTnext := dTn, bdf1_dae := Some d',
                        T_physics := most_recent_time env d'\<rparr>)))
      else if ti_method s = FLOW_TIME_INTEGRATION_PICARD then
        (if block_picard s = 0 then Inr (PicardTimeStep env time (dT s) s)
         else Inr (s\<lparr>dTnext := dT s\<rparr>))
      else Inr s)"

text \<open>
  \<open>Advance(dT_MPC)\<close>; \<open>fs_time\<close> is the value of \<open>FS->get_time()\<close>.  The result is the
  value returned and the members after the call.
\<close>

definition Advance ::
  "('u, 'd, 'm) collaborators \<Rightarrow> real \<Rightarrow> real \<Rightarrow> ('u, 'd, 'm) Richards_PK
     \<Rightarrow> error + int \<times> ('u, 'd, 'm) Richards_PK" where
  "Advance env fs_time dT_MPC s =
     (let s1 = s\<lparr>dT := dT_MPC\<rparr>;
          s2 = (if fs_time \<ge> 0 then s1\<lparr>T_physics := fs_time\<rparr> else s1);
          time = T_physics s2 in
      case advance_initialize env time s2 of
        Inl e \<Rightarrow> Inl e
      | Inr s3 \<Rightarrow>
          (case advance_step env time s3 of
             Inl e \<Rightarrow> Inl e
           | Inr s4 \<Rightarrow>
               Inr (0, s4\<lparr>num_itrs := num_itrs s4 + 1,
                          flow_status := FLOW_STATUS_TRANSIENT_STATE_COMPLETE\<rparr>)))"

text \<open>
  The members after the constructor and \<open>InitPK\<close>, before any of InitPicard,
  InitSteadyState and InitTransient: the status is INIT, \<open>block_picard\<close> is 1 and the
  integrator pointers are null.  The constructor and \<open>InitPK\<close> assign no value to
  \<open>ti_method\<close>, \<open>num_itrs\<close>, \<open>dT\<close> and \<open>dTnext\<close>; whatever these and the other members
  hold is an argument here.
\<close>

definition before_init ::
  "time_integration \<Rightarrow> int \<Rightarrow> real \<Rightarrow> real \<Rightarrow> real \<Rightarrow> 'u \<Rightarrow> 'm \<Rightarrow> ('u, 'd, 'm) Richards_PK" where
  "before_init ti n dt dtn tp u m =
     \<lparr>flow_status = FLOW_STATUS_INIT, ti_method = ti, block_picard = 1, num_itrs = n,
      dT = dt, dTnext = dtn, T_physics = tp, solution = u,
      bdf1_dae = None, bdf2_dae = None, internals = m\<rparr>"

text \<open>A sequence of calls of Advance, each with its time and its step size.\<close>

fun Advance_all ::
  "('u, 'd, 'm) collaborators \<Rightarrow> (real \<times> real) list \<Rightarrow> ('u, 'd, 'm) Richards_PK
     \<Rightarrow> error + ('u, 'd, 'm) Richards_PK" where
  "Advance_all env [] s = Inr s"
| "Advance_all env ((fs_time, dT_MPC) # calls) s =
     (case Advance env fs_time dT_MPC s of
        Inl e \<Rightarrow> Inl e
      | Inr (r, s') \<Rightarrow> Advance_all env calls s')"

text \<open>Collaborators that return and change nothing, for the examples.\<close>

definition idle :: "(nat, unit, unit) collaborators" where
  "idle = \<lparr>AdvanceToSteadyState = (\<lambda>s. s), PicardTimeStep = (\<lambda>t h s. s),
           ComputeUDot = (\<lambda>t u m. Inr (u, m)), update_precon = (\<lambda>t u h m. Inr m),
           set_initial_state = (\<lambda>d t u udot. d), step = (\<lambda>d h u. (d, u, h)),
           most_recent_time = (\<lambda>d. 0)\<rparr>"

lemma Advance_unfold:
  "Advance env fs_time dT_MPC s =
     (case advance_initialize env (if fs_time \<ge> 0 then fs_time else T_physics s)
             (s\<lparr>dT := dT_MPC, T_physics := (if fs_time \<ge> 0 then fs_time else T_physics s)\<rparr>) of
        Inl e \<Rightarrow> Inl e
      | Inr s3 \<Rightarrow>
          (case advance_step env (if fs_time \<ge> 0 then fs_time else T_physics s) s3 of
             Inl e \<Rightarrow> Inl e
           | Inr s4 \<Rightarrow>
               Inr (0, s4\<lparr>num_itrs := num_itrs s4 + 1,
                          flow_status := FLOW_STATUS_TRANSIENT_STATE_COMPLETE\<rparr>)))"
  by (simp add: Advance_def Let_def cong: sum.case_cong)

lemma advance_initialize_status:
  assumes "st \<noteq> FLOW_STATUS_STEADY_STATE_INIT" and "flow_status s \<noteq> FLOW_STATUS_STEADY_STATE_INIT"
  shows "advance_initialize env time (s\<lparr>flow_status := st\<rparr>) =
           (case advance_initialize env time s of
              Inl e \<Rightarrow> Inl e
            | Inr s3 \<Rightarrow> Inr (s3\<lparr>flow_status := st\<rparr>))"
proof (cases "num_itrs s = 0")
  case False
  then show ?thesis by (simp add: advance_initialize_def)
next
  case True
  show ?thesis
  proof (cases "ComputeUDot env time (solution s) (internals s)")
    case (Inl e)
    then show ?thesis using True by (simp add: advance_initialize_def)
  next
    case (Inr p)
    obtain udot m1 where p: "p = (udot, m1)" by (cases p)
    show ?thesis
      using True Inr p assms
      by (simp add: advance_initialize_def Let_def split: option.split sum.split)
  qed
qed

lemma advance_initialize_keeps:
  assumes "advance_initialize env time s = Inr s3"
    and "flow_status s \<noteq> FLOW_STATUS_STEADY_STATE_INIT"
  shows "ti_method s3 = ti_method s \<and> block_picard s3 = block_picard s"
proof (cases "num_itrs s = 0")
  case False
  then show ?thesis using assms by (simp add: advance_initialize_def)
next
  case True
  from assms(1) True obtain udot m1 where
    cu: "ComputeUDot env time (solution s) (internals s) = Inr (udot, m1)"
    by (cases "ComputeUDot env time (solution s) (internals s)")
       (auto simp: advance_initialize_def)
  show ?thesis
    using assms True cu
    by (auto simp: advance_initialize_def Let_def split: option.splits sum.splits if_splits)
qed

lemma advance_step_status:
  assumes "\<not> (ti_method s = FLOW_TIME_INTEGRATION_PICARD \<and> block_picard s = 0)"
  shows "advance_step env time (s\<lparr>flow_status := st\<rparr>) =
           (case advance_step env time s of
              Inl e \<Rightarrow> Inl e
            | Inr s4 \<Rightarrow> Inr (s4\<lparr>flow_status := st\<rparr>))"
  using assms
  by (auto simp: advance_step_def Let_def split: option.split prod.split)

lemma Advance_status:
  assumes st1: "st1 \<noteq> FLOW_STATUS_STEADY_STATE_INIT"
    and st2: "st2 \<noteq> FLOW_STATUS_STEADY_STATE_INIT"
    and blocked: "\<not> (ti_method s = FLOW_TIME_INTEGRATION_PICARD \<and> block_picard s = 0)"
  shows "Advance env fs_time dT_MPC (s\<lparr>flow_status := st1\<rparr>)
           = Advance env fs_time dT_MPC (s\<lparr>flow_status := st2\<rparr>)"
proof -
  define T where "T = (if fs_time \<ge> 0 then fs_time else T_physics s)"
  define s2 where "s2 = s\<lparr>flow_status := st2, dT := dT_MPC, T_physics := T\<rparr>"
  have f2: "flow_status s2 \<noteq> FLOW_STATUS_STEADY_STATE_INIT" using st2 by (simp add: s2_def)
  have t: "(if fs_time \<ge> 0 then fs_time else T_physics (s\<lparr>flow_status := st\<rparr>)) = T" for st
    by (simp add: T_def)
  have e1: "(s\<lparr>flow_status := st1\<rparr>)\<lparr>dT := dT_MPC, T_physics := T\<rparr> = s2\<lparr>flow_status := st1\<rparr>"
    by (simp add: s2_def)
  have e2: "(s\<lparr>flow_status := st2\<rparr>)\<lparr>dT := dT_MPC, T_physics := T\<rparr> = s2"
    by (simp add: s2_def)
  have u1: "Advance env fs_time dT_MPC (s\<lparr>flow_status := st1\<rparr>) =
     (case advance_initialize env T (s2\<lparr>flow_status := st1\<rparr>) of
        Inl e \<Rightarrow> Inl e
      | Inr s3 \<Rightarrow>
          (case advance_step env T s3 of
             Inl e \<Rightarrow> Inl e
           | Inr s4 \<Rightarrow>
               Inr (0, s4\<lparr>num_itrs := num_itrs s4 + 1,
                          flow_status := FLOW_STATUS_TRANSIENT_STATE_COMPLETE\<rparr>)))"
    by (simp only: Advance_unfold t e1)
  have u2: "Advance env fs_time dT_MPC (s\<lparr>flow_status := st2\<rparr>) =
     (case advance_initialize env T s2 of
        Inl e \<Rightarrow> Inl e
      | Inr s3 \<Rightarrow>
          (case advance_step env T s3 of
             Inl e \<Rightarrow> Inl e
           | Inr s4 \<Rightarrow>
               Inr (0, s4\<lparr>num_itrs := num_itrs s4 + 1,
                          flow_status := FLOW_STATUS_TRANSIENT_STATE_COMPLETE\<rparr>)))"
    by (simp only: Advance_unfold t e2)
  show ?thesis
  proof (cases "advance_initialize env T s2")
    case (Inl e)
    then show ?thesis
      unfolding u1 u2 advance_initialize_status [OF st1 f2] by simp
  next
    case (Inr s3)
    from advance_initialize_keeps [OF Inr f2] blocked
    have b3: "\<not> (ti_method s3 = FLOW_TIME_INTEGRATION_PICARD \<and> block_picard s3 = 0)"
      by (simp add: s2_def)
    show ?thesis
      unfolding u1 u2 advance_initialize_status [OF st1 f2] Inr
      by (cases "advance_step env T s3") (simp_all add: advance_step_status [OF b3])
  qed
qed

lemma advance_initialize_skip:
  "num_itrs s \<noteq> 0 \<Longrightarrow> advance_initialize env time s = Inr s"
  by (simp add: advance_initialize_def)

lemma advance_initialize_null:
  assumes "num_itrs s = 0" and "bdf1_dae s = None" and "bdf2_dae s = None"
    and "flow_status s \<noteq> FLOW_STATUS_STEADY_STATE_INIT"
    and "ComputeUDot env time (solution s) (internals s) = Inr (udot, m1)"
  shows "advance_initialize env time s =
     (if ti_method s = FLOW_TIME_INTEGRATION_BDF2 \<or> ti_method s = FLOW_TIME_INTEGRATION_BDF1
      then Inl NullPointer
      else (case update_precon env time (solution s) (dT s) m1 of
              Inl e \<Rightarrow> Inl e
            | Inr m2 \<Rightarrow> Inr (s\<lparr>internals := m2\<rparr>)))"
  using assms by (simp add: advance_initialize_def Let_def cong: sum.case_cong)

lemma advance_step_null:
  assumes "bdf1_dae s = None" and "bdf2_dae s = None" and "block_picard s \<noteq> 0"
  shows "advance_step env time s =
     (if ti_method s = FLOW_TIME_INTEGRATION_BDF2 \<or> ti_method s = FLOW_TIME_INTEGRATION_BDF1
      then Inl NullPointer
      else if ti_method s = FLOW_TIME_INTEGRATION_PICARD then Inr (s\<lparr>dTnext := dT s\<rparr>)
      else Inr s)"
  using assms by (simp add: advance_step_def)

lemma Advance_before_init_cases:
  fixes env :: "('u, 'd, 'm) collaborators"
  defines "T \<equiv> \<lambda>fs_time tp :: real. if fs_time \<ge> 0 then fs_time else tp"
  shows "(ti = FLOW_TIME_INTEGRATION_BDF1 \<or> ti = FLOW_TIME_INTEGRATION_BDF2)
       \<and> (n = 0 \<longrightarrow> (\<exists>udot m1. ComputeUDot env (T fs_time tp) u m = Inr (udot, m1)))
      \<longrightarrow> Advance env fs_time dT_MPC (before_init ti n dt dtn tp u m) = Inl NullPointer"
    and "ti \<noteq> FLOW_TIME_INTEGRATION_BDF1 \<and> ti \<noteq> FLOW_TIME_INTEGRATION_BDF2
       \<and> (n = 0 \<longrightarrow> (\<exists>udot m1 m2. ComputeUDot env (T fs_time tp) u m = Inr (udot, m1)
            \<and> update_precon env (T fs_time tp) u dT_MPC m1 = Inr m2))
      \<longrightarrow> (\<exists>s''. Advance env fs_time dT_MPC (before_init ti n dt dtn tp u m) = Inr (0, s'')
                 \<and> flow_status s'' = FLOW_STATUS_TRANSIENT_STATE_COMPLETE)"
proof -
  define s0 :: "('u, 'd, 'm) Richards_PK" where "s0 = before_init ti n dt dtn tp u m"
  define s2 where "s2 = s0\<lparr>dT := dT_MPC, T_physics := T fs_time tp\<rparr>"
  have s2: "num_itrs s2 = n" "bdf1_dae s2 = None" "bdf2_dae s2 = None" "block_picard s2 \<noteq> 0"
    "flow_status s2 \<noteq> FLOW_STATUS_STEADY_STATE_INIT" "ti_method s2 = ti"
    "solution s2 = u" "internals s2 = m" "dT s2 = dT_MPC"
    by (simp_all add: s2_def s0_def before_init_def)
  have u: "Advance env fs_time dT_MPC s0 =
     (case advance_initialize env (T fs_time tp) s2 of
        Inl e \<Rightarrow> Inl e
      | Inr s3 \<Rightarrow>
          (case advance_step env (T fs_time tp) s3 of
             Inl e \<Rightarrow> Inl e
           | Inr s4 \<Rightarrow>
               Inr (0, s4\<lparr>num_itrs := num_itrs s4 + 1,
                          flow_status := FLOW_STATUS_TRANSIENT_STATE_COMPLETE\<rparr>)))"
  proof -
    have "T_physics s0 = tp" by (simp add: s0_def before_init_def)
    then have "(if fs_time \<ge> 0 then fs_time else T_physics s0) = T fs_time tp"
      by (simp add: T_def)
    then show ?thesis by (simp only: Advance_unfold s2_def)
  qed
  show "(ti = FLOW_TIME_INTEGRATION_BDF1 \<or> ti = FLOW_TIME_INTEGRATION_BDF2)
       \<and> (n = 0 \<longrightarrow> (\<exists>udot m1. ComputeUDot env (T fs_time tp) u m = Inr (udot, m1)))
      \<longrightarrow> Advance env fs_time dT_MPC (before_init ti n dt dtn tp u m) = Inl NullPointer"
  proof (intro impI, elim conjE)
    assume bdf: "ti = FLOW_TIME_INTEGRATION_BDF1 \<or> ti = FLOW_TIME_INTEGRATION_BDF2"
      and cu: "n = 0 \<longrightarrow> (\<exists>udot m1. ComputeUDot env (T fs_time tp) u m = Inr (udot, m1))"
    show "Advance env fs_time dT_MPC (before_init ti n dt dtn tp u m) = Inl NullPointer"
    proof (cases "n = 0")
      case True
      with cu obtain udot m1 where "ComputeUDot env (T fs_time tp) u m = Inr (udot, m1)"
        by blast
      then have "advance_initialize env (T fs_time tp) s2 = Inl NullPointer"
        using advance_initialize_null [of s2 env "T fs_time tp" udot m1] s2 True bdf by auto
      then show ?thesis by (simp add: u [unfolded s0_def])
    next
      case False
      then have "advance_initialize env (T fs_time tp) s2 = Inr s2"
        using s2 by (simp add: advance_initialize_skip)
      moreover have "advance_step env (T fs_time tp) s2 = Inl NullPointer"
        using advance_step_null [of s2 env "T fs_time tp"] s2 bdf by auto
      ultimately show ?thesis by (simp add: u [unfolded s0_def])
    qed
  qed
  show "ti \<noteq> FLOW_TIME_INTEGRATION_BDF1 \<and> ti \<noteq> FLOW_TIME_INTEGRATION_BDF2
       \<and> (n = 0 \<longrightarrow> (\<exists>udot m1 m2. ComputeUDot env (T fs_time tp) u m = Inr (udot, m1)
            \<and> update_precon env (T fs_time tp) u dT_MPC m1 = Inr m2))
      \<longrightarrow> (\<exists>s''. Advance env fs_time dT_MPC (before_init ti n dt dtn tp u m) = Inr (0, s'')
                 \<and> flow_status s'' = FLOW_STATUS_TRANSIENT_STATE_COMPLETE)"
  proof (intro impI, elim conjE)
    assume nb: "ti \<noteq> FLOW_TIME_INTEGRATION_BDF1" "ti \<noteq> FLOW_TIME_INTEGRATION_BDF2"
      and cu: "n = 0 \<longrightarrow> (\<exists>udot m1 m2. ComputeUDot env (T fs_time tp) u m = Inr (udot, m1)
            \<and> update_precon env (T fs_time tp) u dT_MPC m1 = Inr m2)"
    have "\<exists>s3. advance_initialize env (T fs_time tp) s2 = Inr s3
            \<and> bdf1_dae s3 = None \<and> bdf2_dae s3 = None \<and> block_picard s3 \<noteq> 0
            \<and> ti_method s3 = ti"
    proof (cases "n = 0")
      case True
      with cu obtain udot m1 m2 where
        "ComputeUDot env (T fs_time tp) u m = Inr (udot, m1)"
        "update_precon env (T fs_time tp) u dT_MPC m1 = Inr m2"
        by blast
      then have "advance_initialize env (T fs_time tp) s2 = Inr (s2\<lparr>internals := m2\<rparr>)"
        using advance_initialize_null [of s2 env "T fs_time tp" udot m1] s2 True nb by auto
      then show ?thesis using s2 by simp
    next
      case False
      then have "advance_initialize env (T fs_time tp) s2 = Inr s2"
        using s2 by (simp add: advance_initialize_skip)
      then show ?thesis using s2 by simp
    qed
    then obtain s3 where
      i: "advance_initialize env (T fs_time tp) s2 = Inr s3"
      and s3: "bdf1_dae s3 = None" "bdf2_dae s3 = None" "block_picard s3 \<noteq> 0" "ti_method s3 = ti"
      by blast
    have "\<exists>s4. advance_step env (T fs_time tp) s3 = Inr s4"
      using advance_step_null [OF s3(1) s3(2) s3(3), of env "T fs_time tp"] s3(4) nb by auto
    then obtain s4 where st: "advance_step env (T fs_time tp) s3 = Inr s4" by blast
    show "\<exists>s''. Advance env fs_time dT_MPC (before_init ti n dt dtn tp u m) = Inr (0, s'')
                 \<and> flow_status s'' = FLOW_STATUS_TRANSIENT_STATE_COMPLETE"
      by (simp add: u [unfolded s0_def] i st)
  qed
qed

text \<open>
  Claim C5, as stated, fails: called before any of InitPicard, InitSteadyState and
  InitTransient, with the Picard method and a step counter that is not zero in the members
  that were never assigned, Advance returns 0 and sets the status to
  TRANSIENT\_STATE\_COMPLETE.
\<close>

theorem Advance_before_init_counterexample:
  "Advance idle 0 1 (before_init FLOW_TIME_INTEGRATION_PICARD 5 0 0 0 (0::nat) ())
     = Inr (0, \<lparr>flow_status = FLOW_STATUS_TRANSIENT_STATE_COMPLETE,
               ti_method = FLOW_TIME_INTEGRATION_PICARD, block_picard = 1, num_itrs = 6,
               dT = 1, dTnext = 1, T_physics = 0, solution = 0,
               bdf1_dae = None, bdf2_dae = None, internals = ()\<rparr>)"
  by (simp add: Advance_def advance_initialize_def advance_step_def before_init_def Let_def)

text \<open>
  Claim C5, amended.  Advance does not test whether one of InitPicard, InitSteadyState and
  InitTransient was called, and it has no error return: a call that returns returns 0 and
  leaves the status TRANSIENT\_STATE\_COMPLETE.  The status is read only to decide whether
  AdvanceToSteadyState runs, so that a call made before any of the three (status INIT,
  integrator pointers null) has the result of the same call made with any other status
  than STEADY\_STATE\_INIT.  What this call does depends on the members that were never
  assigned.  When the method is BDF1 or BDF2 the null integrator pointer is dereferenced,
  and in every other case the call returns 0; this supposes, when the step counter is zero,
  that the calls of ComputeUDot (in both cases) and of update\_precon (in the second),
  which Advance makes only then, return.
\<close>

theorem Advance_no_status_check:
  "(Advance env fs_time dT_MPC s = Inr (r, s')
      \<longrightarrow> r = 0 \<and> flow_status s' = FLOW_STATUS_TRANSIENT_STATE_COMPLETE)
   \<and> (st \<noteq> FLOW_STATUS_STEADY_STATE_INIT
      \<longrightarrow> Advance env fs_time dT_MPC ((before_init ti n dt dtn tp u m)\<lparr>flow_status := st\<rparr>)
            = Advance env fs_time dT_MPC (before_init ti n dt dtn tp u m))
   \<and> ((ti = FLOW_TIME_INTEGRATION_BDF1 \<or> ti = FLOW_TIME_INTEGRATION_BDF2)
       \<and> (n = 0 \<longrightarrow> (\<exists>udot m1.
              ComputeUDot env (if fs_time \<ge> 0 then fs_time else tp) u m = Inr (udot, m1)))
      \<longrightarrow> Advance env fs_time dT_MPC (before_init ti n dt dtn tp u m) = Inl NullPointer)
   \<and> (ti \<noteq> FLOW_TIME_INTEGRATION_BDF1 \<and> ti \<noteq> FLOW_TIME_INTEGRATION_BDF2
       \<and> (n = 0 \<longrightarrow> (\<exists>udot m1 m2.
              ComputeUDot env (if fs_time \<ge> 0 then fs_time else tp) u m = Inr (udot, m1)
            \<and> update_precon env (if fs_time \<ge> 0 then fs_time else tp) u dT_MPC m1 = Inr m2))
      \<longrightarrow> (\<exists>s''. Advance env fs_time dT_MPC (before_init ti n dt dtn tp u m) = Inr (0, s'')
                 \<and> flow_status s'' = FLOW_STATUS_TRANSIENT_STATE_COMPLETE))"
proof -
  have a: "Advance env fs_time dT_MPC s = Inr (r, s')
      \<longrightarrow> r = 0 \<and> flow_status s' = FLOW_STATUS_TRANSIENT_STATE_COMPLETE"
    by (auto simp: Advance_def Let_def split: sum.splits)
  have blocked: "\<not> (ti_method (before_init ti n dt dtn tp u m) = FLOW_TIME_INTEGRATION_PICARD
                    \<and> block_picard (before_init ti n dt dtn tp u m) = 0)"
    by (simp add: before_init_def)
  have same: "(before_init ti n dt dtn tp u m)\<lparr>flow_status := FLOW_STATUS_INIT\<rparr>
                = before_init ti n dt dtn tp u m"
    by (simp add: before_init_def)
  have b: "st \<noteq> FLOW_STATUS_STEADY_STATE_INIT
      \<longrightarrow> Advance env fs_time dT_MPC ((before_init ti n dt dtn tp u m)\<lparr>flow_status := st\<rparr>)
            = Advance env fs_time dT_MPC (before_init ti n dt dtn tp u m)"
    using Advance_status [OF _ _ blocked, of st FLOW_STATUS_INIT env fs_time dT_MPC]
    by (simp add: same)
  show ?thesis
    using a b Advance_before_init_cases [of ti n env fs_time tp u m dT_MPC dt dtn] by blast
qed

theorem Advance_no_status_check_witness:
  "Advance idle 0 1 (before_init FLOW_TIME_INTEGRATION_BDF2 0 0 0 0 (0::nat) ()) = Inl NullPointer
   \<and> (\<exists>s''. Advance idle 0 1 (before_init (FLOW_TIME_INTEGRATION_OTHER 7) 0 0 0 0 (0::nat) ())
                = Inr (0, s'')
            \<and> flow_status s'' = FLOW_STATUS_TRANSIENT_STATE_COMPLETE
            \<and> Advance idle 0 1
                ((before_init (FLOW_TIME_INTEGRATION_OTHER 7) 0 0 0 0 (0::nat) ())
                   \<lparr>flow_status := FLOW_STATUS_TRANSIENT_STATE_INIT\<rparr>) = Inr (0, s''))"
proof -
  note th = Advance_no_status_check [where env = idle and fs_time = 0 and dT_MPC = 1
      and dt = 0 and dtn = 0 and tp = 0 and u = "0::nat" and n = 0 and m = "()"]
  have b: "Advance idle 0 1 (before_init FLOW_TIME_INTEGRATION_BDF2 0 0 0 0 (0::nat) ())
             = Inl NullPointer"
    using th [where ti = FLOW_TIME_INTEGRATION_BDF2, THEN conjunct2, THEN conjunct2,
        THEN conjunct1]
    by (simp add: idle_def)
  obtain s'' where run: "Advance idle 0 1
        (before_init (FLOW_TIME_INTEGRATION_OTHER 7) 0 0 0 0 (0::nat) ()) = Inr (0, s'')"
    using th [where ti = "FLOW_TIME_INTEGRATION_OTHER 7", THEN conjunct2, THEN conjunct2,
        THEN conjunct2]
    by (auto simp: idle_def)
  have st: "flow_status s'' = FLOW_STATUS_TRANSIENT_STATE_COMPLETE"
    using th [where s = "before_init (FLOW_TIME_INTEGRATION_OTHER 7) 0 0 0 0 (0::nat) ()"
        and r = 0 and s' = s'' and ti = FLOW_TIME_INTEGRATION_PICARD, THEN conjunct1] run
    by simp
  have same: "Advance idle 0 1
                ((before_init (FLOW_TIME_INTEGRATION_OTHER 7) 0 0 0 0 (0::nat) ())
                   \<lparr>flow_status := FLOW_STATUS_TRANSIENT_STATE_INIT\<rparr>) = Inr (0, s'')"
    using th [where ti = "FLOW_TIME_INTEGRATION_OTHER 7"
        and st = FLOW_STATUS_TRANSIENT_STATE_INIT, THEN conjunct2, THEN conjunct1] run
    by simp
  show ?thesis using b run st same by blast
qed

lemma Advance_blocked:
  assumes "ti_method s = FLOW_TIME_INTEGRATION_PICARD" and "block_picard s = 1"
    and "num_itrs s \<noteq> 0"
  shows "Advance env fs_time dT_MPC s =
           Inr (0, s\<lparr>dT := dT_MPC,
                     T_physics := (if fs_time \<ge> 0 then fs_time else T_physics s),
                     dTnext := dT_MPC, num_itrs := num_itrs s + 1,
                     flow_status := FLOW_STATUS_TRANSIENT_STATE_COMPLETE\<rparr>)"
  using assms
  by (simp add: Advance_def advance_initialize_def advance_step_def Let_def)

lemma Advance_all_blocked:
  assumes "ti_method s = FLOW_TIME_INTEGRATION_PICARD" and "block_picard s = 1"
    and "num_itrs s > 0"
  shows "\<exists>s'. Advance_all env calls s = Inr s' \<and> solution s' = solution s
           \<and> ti_method s' = FLOW_TIME_INTEGRATION_PICARD \<and> block_picard s' = 1
           \<and> num_itrs s' = num_itrs s + int (length calls)
           \<and> (calls \<noteq> [] \<longrightarrow> dTnext s' = snd (last calls))"
  using assms
proof (induction calls arbitrary: s)
  case Nil
  then show ?case by simp
next
  case (Cons call calls)
  obtain fs_time dT_MPC where call: "call = (fs_time, dT_MPC)" by (cases call)
  let ?s1 = "s\<lparr>dT := dT_MPC,
                T_physics := (if fs_time \<ge> 0 then fs_time else T_physics s),
                dTnext := dT_MPC, num_itrs := num_itrs s + 1,
                flow_status := FLOW_STATUS_TRANSIENT_STATE_COMPLETE\<rparr>"
  have one: "Advance env fs_time dT_MPC s = Inr (0, ?s1)"
    using Cons.prems by (intro Advance_blocked) simp_all
  have "ti_method ?s1 = FLOW_TIME_INTEGRATION_PICARD" "block_picard ?s1 = 1" "num_itrs ?s1 > 0"
    using Cons.prems by simp_all
  from Cons.IH [OF this] obtain s' where
    rest: "Advance_all env calls ?s1 = Inr s'"
    and sol: "solution s' = solution ?s1"
    and inv: "ti_method s' = FLOW_TIME_INTEGRATION_PICARD" "block_picard s' = 1"
    and cnt: "num_itrs s' = num_itrs ?s1 + int (length calls)"
    and nxt: "calls \<noteq> [] \<longrightarrow> dTnext s' = snd (last calls)"
    by blast
  have run: "Advance_all env (call # calls) s = Inr s'"
    by (simp add: call one rest)
  have last: "dTnext s' = snd (last (call # calls))"
  proof (cases "calls = []")
    case True
    then have "s' = ?s1" using rest by simp
    then show ?thesis using True call by simp
  next
    case False
    then show ?thesis using nxt by simp
  qed
  show ?case using run sol inv cnt last by simp
qed

text \<open>
  Claim C8.  With the Picard method and the blocking flag set, CalculateFlowDt multiplies
  the stored step size by \<open>1e+4\<close>, stores and returns the product; in every other
  configuration it returns the stored step size and changes nothing.  In that
  configuration a call of Advance that is not the first one counted (\<open>num_itrs\<close> is not
  zero) returns 0, leaves the solution as it is and gives its own step size as the next
  step size, and so does every sequence of such calls.
\<close>

theorem Picard_blocked_pass_through:
  "(ti_method s = FLOW_TIME_INTEGRATION_PICARD \<and> block_picard s = 1
      \<longrightarrow> CalculateFlowDt s = (dT s * 10000, s\<lparr>dT := dT s * 10000\<rparr>))
   \<and> (\<not> (ti_method s = FLOW_TIME_INTEGRATION_PICARD \<and> block_picard s = 1)
      \<longrightarrow> CalculateFlowDt s = (dT s, s))
   \<and> (ti_method s = FLOW_TIME_INTEGRATION_PICARD \<and> block_picard s = 1 \<and> num_itrs s \<noteq> 0
      \<longrightarrow> (\<exists>s'. Advance env fs_time dT_MPC s = Inr (0, s')
                \<and> solution s' = solution s \<and> dTnext s' = dT_MPC
                \<and> ti_method s' = FLOW_TIME_INTEGRATION_PICARD \<and> block_picard s' = 1
                \<and> num_itrs s' = num_itrs s + 1))
   \<and> (ti_method s = FLOW_TIME_INTEGRATION_PICARD \<and> block_picard s = 1 \<and> num_itrs s > 0
      \<longrightarrow> (\<exists>s'. Advance_all env calls s = Inr s'
                \<and> solution s' = solution s
                \<and> (calls \<noteq> [] \<longrightarrow> dTnext s' = snd (last calls))))"
proof -
  have a: "ti_method s = FLOW_TIME_INTEGRATION_PICARD \<and> block_picard s = 1
      \<longrightarrow> CalculateFlowDt s = (dT s * 10000, s\<lparr>dT := dT s * 10000\<rparr>)"
    by (simp add: CalculateFlowDt_def Let_def)
  have b: "\<not> (ti_method s = FLOW_TIME_INTEGRATION_PICARD \<and> block_picard s = 1)
      \<longrightarrow> CalculateFlowDt s = (dT s, s)"
    by (simp add: CalculateFlowDt_def Let_def)
  have c: "ti_method s = FLOW_TIME_INTEGRATION_PICARD \<and> block_picard s = 1 \<and> num_itrs s \<noteq> 0
      \<longrightarrow> (\<exists>s'. Advance env fs_time dT_MPC s = Inr (0, s')
                \<and> solution s' = solution s \<and> dTnext s' = dT_MPC
                \<and> ti_method s' = FLOW_TIME_INTEGRATION_PICARD \<and> block_picard s' = 1
                \<and> num_itrs s' = num_itrs s + 1)"
    using Advance_blocked [of s env fs_time dT_MPC] by auto
  have d: "ti_method s = FLOW_TIME_INTEGRATION_PICARD \<and> block_picard s = 1 \<and> num_itrs s > 0
      \<longrightarrow> (\<exists>s'. Advance_all env calls s = Inr s'
                \<and> solution s' = solution s
                \<and> (calls \<noteq> [] \<longrightarrow> dTnext s' = snd (last calls)))"
    using Advance_all_blocked [of s env calls] by blast
  show ?thesis using a b c d by blast
qed

theorem Picard_blocked_pass_through_witness:
  "CalculateFlowDt
       \<lparr>flow_status = FLOW_STATUS_TRANSIENT_STATE_COMPLETE,
        ti_method = FLOW_TIME_INTEGRATION_PICARD, block_picard = 1, num_itrs = 1,
        dT = 2, dTnext = 2, T_physics = 0, solution = (42::nat),
        bdf1_dae = None, bdf2_dae = (None :: unit option), internals = ()\<rparr>
     = (20000,
        \<lparr>flow_status = FLOW_STATUS_TRANSIENT_STATE_COMPLETE,
         ti_method = FLOW_TIME_INTEGRATION_PICARD, block_picard = 1, num_itrs = 1,
         dT = 20000, dTnext = 2, T_physics = 0, solution = 42,
         bdf1_dae = None, bdf2_dae = None, internals = ()\<rparr>)
   \<and> fst (CalculateFlowDt
       \<lparr>flow_status = FLOW_STATUS_TRANSIENT_STATE_COMPLETE,
        ti_method = FLOW_TIME_INTEGRATION_BDF1, block_picard = 1, num_itrs = 1,
        dT = 2, dTnext = 2, T_physics = 0, solution = (42::nat),
        bdf1_dae = None, bdf2_dae = (None :: unit option), internals = ()\<rparr>) = 2
   \<and> (\<exists>s'. Advance_all idle [(1, 20000), (2, 3)]
       \<lparr>flow_status = FLOW_STATUS_TRANSIENT_STATE_COMPLETE,
        ti_method = FLOW_TIME_INTEGRATION_PICARD, block_picard = 1, num_itrs = 1,
        dT = 2, dTnext = 2, T_physics = 0, solution = (42::nat),
        bdf1_dae = None, bdf2_dae = None, internals = ()\<rparr> = Inr s'
       \<and> solution s' = 42 \<and> dTnext s' = 3)"
proof -
  let ?s = "\<lparr>flow_status = FLOW_STATUS_TRANSIENT_STATE_COMPLETE,
        ti_method = FLOW_TIME_INTEGRATION_PICARD, block_picard = 1, num_itrs = 1,
        dT = 2, dTnext = 2, T_physics = 0, solution = (42::nat),
        bdf1_dae = None, bdf2_dae = (None :: unit option), internals = ()\<rparr>"
  let ?t = "\<lparr>flow_status = FLOW_STATUS_TRANSIENT_STATE_COMPLETE,
        ti_method = FLOW_TIME_INTEGRATION_BDF1, block_picard = 1, num_itrs = 1,
        dT = 2, dTnext = 2, T_physics = 0, solution = (42::nat),
        bdf1_dae = None, bdf2_dae = (None :: unit option), internals = ()\<rparr>"
  have a: "CalculateFlowDt ?s = (dT ?s * 10000, ?s\<lparr>dT := dT ?s * 10000\<rparr>)"
    using Picard_blocked_pass_through [where s = ?s, THEN conjunct1] by simp
  have b: "CalculateFlowDt ?t = (dT ?t, ?t)"
    using Picard_blocked_pass_through [where s = ?t, THEN conjunct2, THEN conjunct1] by simp
  have d: "\<exists>s'. Advance_all idle [(1, 20000), (2, 3)] ?s = Inr s'
                \<and> solution s' = solution ?s
                \<and> ([(1, 20000), (2, 3::real)] \<noteq> [] \<longrightarrow> dTnext s' = snd (last [(1, 20000), (2, 3::real)]))"
    using Picard_blocked_pass_through [where s = ?s and env = idle
        and calls = "[(1, 20000), (2, 3)]",
        THEN conjunct2, THEN conjunct2, THEN conjunct2]
    by simp
  show ?thesis using a b d by simp
qed

section \<open>Richards\_PK: ImproveAlgebraicConsistency\<close>

text \<open>
  \<open>cell_get_face_adj_cell\<close> of the discretization library returns an \<open>int\<close>, and the source
  uses it as an index without a test; a read outside the vector is an error of the model.
\<close>

definition vec_get_int :: "real list \<Rightarrow> int \<Rightarrow> error + real" where
  "vec_get_int v i = (if 0 \<le> i \<and> nat i < length v then Inr (v ! nat i) else Inl OutOfRange)"

text \<open>The loop \<open>calculate min/max values\<close>: one neighbour.\<close>

definition min_max_neighbour ::
  "(nat \<Rightarrow> nat \<Rightarrow> int) \<Rightarrow> real list \<Rightarrow> nat \<Rightarrow> nat list \<Rightarrow> nat \<Rightarrow> real \<times> real \<Rightarrow> error + real \<times> real" where
  "min_max_neighbour cell_get_face_adj_cell ws c faces n = (\<lambda>(wsmin, wsmax).
     (let f = faces ! n; c2 = cell_get_face_adj_cell c f in
      case vec_get_int ws c2 of
        Inl e \<Rightarrow> Inl e
      | Inr w2 \<Rightarrow> Inr (min wsmin w2, max wsmax w2)))"

text \<open>
  The body of the loop over the owned cells.  \<open>flux_d\<close> is the distributed copy of the flux
  (the flux on the owned faces, the values of the owners on the others); the distributed
  copy \<open>ws_d\<close> of the saturation is built by the source and never read.  \<open>dt\<close> is the
  member \<open>dT\<close>; the quotient \<open>dT / (phi[c] * volume)\<close> is not a real number when the
  divisor is zero.
\<close>

definition improve_cell ::
  "(nat \<Rightarrow> nat list) \<Rightarrow> (nat \<Rightarrow> int list) \<Rightarrow> (nat \<Rightarrow> nat \<Rightarrow> int) \<Rightarrow> (nat \<Rightarrow> real) \<Rightarrow> (nat \<Rightarrow> real)
     \<Rightarrow> real \<Rightarrow> (nat \<Rightarrow> real) \<Rightarrow> real list \<Rightarrow> nat \<Rightarrow> real list \<Rightarrow> error + real list" where
  "improve_cell cell_get_faces cell_get_dirs cell_get_face_adj_cell phi cell_volume
       dt flux_d ws_prev c ws =
     (let faces = cell_get_faces c; dirs = cell_get_dirs c; nfaces = length faces in
      case vec_get ws c of
        Inl e \<Rightarrow> Inl e
      | Inr w0 \<Rightarrow>
      (case foreach [0..<nfaces] (min_max_neighbour cell_get_face_adj_cell ws c faces) (w0, w0) of
        Inl e \<Rightarrow> Inl e
      | Inr (wsmin, wsmax) \<Rightarrow>
      (case vec_get ws_prev c of
        Inl e \<Rightarrow> Inl e
      | Inr wp \<Rightarrow>
          if phi c * cell_volume c = 0 then Inl DivisionByZero
          else
            (let factor = dt / (phi c * cell_volume c);
                 w1 = fold (\<lambda>n w. w - factor * flux_d (faces ! n) * real_of_int (dirs ! n))
                        [0..<nfaces] wp;
                 w2 = max w1 wsmin;
                 w3 = min w2 wsmax
             in vec_set ws c w3))))"

definition ImproveAlgebraicConsistency ::
  "nat \<Rightarrow> nat \<Rightarrow> (nat \<Rightarrow> nat list) \<Rightarrow> (nat \<Rightarrow> int list) \<Rightarrow> (nat \<Rightarrow> nat \<Rightarrow> int) \<Rightarrow> (nat \<Rightarrow> real)
     \<Rightarrow> (nat \<Rightarrow> real) \<Rightarrow> real \<Rightarrow> (nat \<Rightarrow> real) \<Rightarrow> (nat \<Rightarrow> real) \<Rightarrow> real list \<Rightarrow> real list
     \<Rightarrow> error + real list" where
  "ImproveAlgebraicConsistency ncells_owned nfaces_owned cell_get_faces cell_get_dirs
       cell_get_face_adj_cell phi cell_volume dt flux ghost_flux ws_prev ws =
     (let flux_d = (\<lambda>f. if f < nfaces_owned then flux f else ghost_flux f)
      in foreach [0..<ncells_owned]
           (improve_cell cell_get_faces cell_get_dirs cell_get_face_adj_cell phi cell_volume
              dt flux_d ws_prev) ws)"

text \<open>
  A ring of four cells: face \<open>i\<close> lies between the cells \<open>i\<close> and \<open>i + 1\<close> (modulo 4), and
  cell \<open>c\<close> has the faces \<open>c - 1\<close> and \<open>c\<close> (modulo 4).
\<close>

definition ring_faces :: "nat \<Rightarrow> nat list" where
  "ring_faces c = [(c + 3) mod 4, c mod 4]"

definition ring_adj_cell :: "nat \<Rightarrow> nat \<Rightarrow> int" where
  "ring_adj_cell c f = (if f = c mod 4 then int ((c + 1) mod 4) else int ((c + 3) mod 4))"

text \<open>
  Claim C4 on the ring, with no flux and the saturations \<open>[0, 0, 0, 100]\<close> before the
  call: cell 1 and its neighbours, the cells 0 and 2, all hold 0 before the call, and cell
  1 holds 30 after it.  Cell 0 is updated first, to 50, and the bounds of cell 1 are taken
  from the updated value.
\<close>

theorem ImproveAlgebraicConsistency_in_place:
  "ImproveAlgebraicConsistency 4 4 ring_faces (\<lambda>c. [- 1, 1]) ring_adj_cell
       (\<lambda>c. 1) (\<lambda>c. 1) 1 (\<lambda>f. 0) (\<lambda>f. 0) [50, 30, 0, 100] [0, 0, 0, 100]
     = Inr [50, 30, 0, 100]
   \<and> \<not> (Min {0, 0, 0} \<le> [50, 30, 0, 100] ! 1 \<and> [50, 30, 0, 100] ! 1 \<le> Max {0, 0, (0::real)})"
proof -
  have u4: "[0..<4] = [0, 1, 2, 3]" and u2: "[0..<2] = [0, 1]"
    by (simp_all add: upt_rec)
  let ?cell = "improve_cell ring_faces (\<lambda>c. [- 1, 1]) ring_adj_cell (\<lambda>c. 1) (\<lambda>c. 1) 1
                 (\<lambda>f. if f < 4 then 0 else 0) [50, 30, 0, 100]"
  have c0: "?cell 0 [0, 0, 0, 100] = Inr [50, 0, 0, 100]"
    by (simp add: improve_cell_def min_max_neighbour_def vec_get_def vec_get_int_def
        vec_set_def ring_faces_def ring_adj_cell_def Let_def u2)
  have c1: "?cell 1 [50, 0, 0, 100] = Inr [50, 30, 0, 100]"
    by (simp add: improve_cell_def min_max_neighbour_def vec_get_def vec_get_int_def
        vec_set_def ring_faces_def ring_adj_cell_def Let_def u2)
  have c2: "?cell 2 [50, 30, 0, 100] = Inr [50, 30, 0, 100]"
    by (simp add: improve_cell_def min_max_neighbour_def vec_get_def vec_get_int_def
        vec_set_def ring_faces_def ring_adj_cell_def Let_def u2)
  have c3: "?cell 3 [50, 30, 0, 100] = Inr [50, 30, 0, 100]"
    by (simp add: improve_cell_def min_max_neighbour_def vec_get_def vec_get_int_def
        vec_set_def ring_faces_def ring_adj_cell_def Let_def u2)
  have "ImproveAlgebraicConsistency 4 4 ring_faces (\<lambda>c. [- 1, 1]) ring_adj_cell
       (\<lambda>c. 1) (\<lambda>c. 1) 1 (\<lambda>f. 0) (\<lambda>f. 0) [50, 30, 0, 100] [0, 0, 0, 100]
     = Inr [50, 30, 0, 100]"
    unfolding ImproveAlgebraicConsistency_def Let_def u4
    by (simp only: foreach.simps c0 c1 c2 c3 sum.case)
  then show ?thesis by simp
qed

section \<open>DG\_Modal: MassMatrix\<close>

text \<open>
  The claim about this function is about the bits of the entries, so the arithmetic is not
  taken to be exact here: the product of two doubles is \<open>mult x y\<close> for a function
  \<open>mult\<close> on the reals that is a parameter of the model.  Exact arithmetic is the instance
  \<open>(*)\<close>; IEEE arithmetic rounds the exact product (see \<open>double_mult\<close> below).

  The polynomial \<open>p\<close> of the function and its iterator are given by the number \<open>nrows\<close>
  of its monomials, the multi-index \<open>multi_index k\<close> of the monomial at position \<open>k\<close>
  (\<open>PolynomialPosition\<close>) and the position \<open>MonomialSetPosition\<close> of a multi-index among
  the monomials of its degree.  \<open>integrals n m\<close> is the entry of the table of integrals of
  monomials of the cell (the member \<open>integrals_[c]\<close> in the first overload of the function,
  the argument in the second).
\<close>

text \<open>
  The body of the two loops: for the positions \<open>k \<le> l\<close>,
  \<open>M(k, l) = K00 * integrals(n, p.MonomialSetPosition(multi_index)); M(l, k) = M(k, l);\<close>
  where \<open>multi_index\<close> is the sum of the multi-indices of the two monomials and \<open>n\<close> its
  degree.
\<close>

definition mass_entry ::
  "(real \<Rightarrow> real \<Rightarrow> real) \<Rightarrow> real \<Rightarrow> (nat \<Rightarrow> nat \<Rightarrow> real) \<Rightarrow> (nat \<Rightarrow> nat list) \<Rightarrow> (nat list \<Rightarrow> nat)
     \<Rightarrow> nat \<Rightarrow> nat \<Rightarrow> real" where
  "mass_entry mult K00 integrals multi_index MonomialSetPosition k l =
     (let idx = map2 (+) (multi_index k) (multi_index l);
          n = sum_list idx
      in mult K00 (integrals n (MonomialSetPosition idx)))"

definition assign_pair :: "(nat \<Rightarrow> nat \<Rightarrow> real) \<Rightarrow> nat \<Rightarrow> nat \<Rightarrow> DenseMatrix \<Rightarrow> DenseMatrix" where
  "assign_pair entry k l M =
     (let M1 = mat_set M k l (entry k l) in mat_set M1 l k (elem M1 k l))"

definition mass_loops :: "(nat \<Rightarrow> nat \<Rightarrow> real) \<Rightarrow> nat \<Rightarrow> DenseMatrix \<Rightarrow> DenseMatrix" where
  "mass_loops entry nrows M =
     fold (\<lambda>k M. fold (assign_pair entry k) [k..<nrows] M) [0..<nrows] M"

text \<open>
  \<open>Basis_Regularized::BilinearFormNaturalToMy\<close>: the scale of position \<open>n\<close> is
  \<open>monomial_scales_[m]\<close> for the degree \<open>m\<close> of its monomial, and every entry becomes
  \<open>A(i, k) * a[k] * a[i]\<close>, the products taken from the left.
\<close>

definition scale_entry ::
  "(real \<Rightarrow> real \<Rightarrow> real) \<Rightarrow> (nat \<Rightarrow> real) \<Rightarrow> nat \<Rightarrow> nat \<Rightarrow> DenseMatrix \<Rightarrow> DenseMatrix" where
  "scale_entry mult a k i A = mat_set A i k (mult (mult (elem A i k) (a k)) (a i))"

definition Regularized_BilinearFormNaturalToMy ::
  "(real \<Rightarrow> real \<Rightarrow> real) \<Rightarrow> (nat \<Rightarrow> real) \<Rightarrow> (nat \<Rightarrow> nat) \<Rightarrow> DenseMatrix \<Rightarrow> DenseMatrix" where
  "Regularized_BilinearFormNaturalToMy mult monomial_scales MonomialSetOrder A =
     (let nrows = NumRows A;
          a = (\<lambda>n. monomial_scales (MonomialSetOrder n))
      in fold (\<lambda>k A. fold (scale_entry mult a k) [0..<nrows] A) [0..<nrows] A)"

text \<open>
  MassMatrix: the matrix is reshaped (its entries are then whatever the memory holds),
  filled by the two loops and handed to the basis of the cell, a virtual call.  The function
  returns 0; the result of the model is the matrix.
\<close>

definition MassMatrix ::
  "(real \<Rightarrow> real \<Rightarrow> real) \<Rightarrow> (DenseMatrix \<Rightarrow> DenseMatrix) \<Rightarrow> real \<Rightarrow> (nat \<Rightarrow> nat \<Rightarrow> real) \<Rightarrow> nat
     \<Rightarrow> (nat \<Rightarrow> nat list) \<Rightarrow> (nat list \<Rightarrow> nat) \<Rightarrow> (nat \<Rightarrow> nat \<Rightarrow> real) \<Rightarrow> DenseMatrix" where
  "MassMatrix mult BilinearFormNaturalToMy K00 integrals nrows multi_index
       MonomialSetPosition junk =
     BilinearFormNaturalToMy
       (mass_loops (mass_entry mult K00 integrals multi_index MonomialSetPosition) nrows
          \<lparr>NumRows = nrows, NumCols = nrows, elem = junk\<rparr>)"

lemma assign_pair_elem:
  "elem (assign_pair entry k l M) i j =
     (if (i = k \<and> j = l) \<or> (i = l \<and> j = k) then entry k l else elem M i j)"
  unfolding assign_pair_def Let_def elem_mat_set
  by (simp split: if_split cong: conj_cong)

lemma assign_pair_dims [simp]:
  "NumRows (assign_pair entry k l M) = NumRows M" "NumCols (assign_pair entry k l M) = NumCols M"
  by (simp_all add: assign_pair_def Let_def)

lemma assign_row:
  "k \<le> j \<Longrightarrow>
   elem (fold (assign_pair entry k) [k..<j] M) i i' =
     (if (i = k \<and> k \<le> i' \<and> i' < j) \<or> (i' = k \<and> k \<le> i \<and> i < j)
      then entry k (max i i') else elem M i i')"
proof (induction j)
  case 0
  then show ?case by simp
next
  case (Suc j)
  show ?case
  proof (cases "k = Suc j")
    case True
    then show ?thesis by simp
  next
    case False
    with Suc.prems have kj: "k \<le> j" by simp
    have "[k..<Suc j] = [k..<j] @ [j]" using kj by simp
    then show ?thesis using Suc.IH [OF kj] kj
      by (auto simp: assign_pair_elem max_def)
  qed
qed

lemma assign_row_dims [simp]:
  "NumRows (fold (assign_pair entry k) xs M) = NumRows M"
  "NumCols (fold (assign_pair entry k) xs M) = NumCols M"
  by (induction xs arbitrary: M) simp_all

lemma mass_rows:
  "k \<le> nrows \<Longrightarrow>
   elem (fold (\<lambda>k M. fold (assign_pair entry k) [k..<nrows] M) [0..<k] M) i j =
     (if (i < k \<or> j < k) \<and> i < nrows \<and> j < nrows
      then entry (min i j) (max i j) else elem M i j)"
proof (induction k arbitrary: i j)
  case 0
  then show ?case by simp
next
  case (Suc k)
  then have kl: "k \<le> nrows" by simp
  show ?case
    using Suc.IH [OF kl] Suc.prems
    by (auto simp: assign_row min_def max_def)
qed

lemma mass_loops_elem:
  "elem (mass_loops entry nrows M) i j =
     (if i < nrows \<and> j < nrows then entry (min i j) (max i j) else elem M i j)"
  unfolding mass_loops_def by (subst mass_rows) auto

lemma mass_loops_dims [simp]:
  "NumRows (mass_loops entry nrows M) = NumRows M"
proof -
  have "NumRows (fold (\<lambda>k M. fold (assign_pair entry k) [k..<nrows] M) xs M) = NumRows M" for xs
    by (induction xs arbitrary: M) simp_all
  then show ?thesis by (simp add: mass_loops_def)
qed

lemma scale_entry_elem:
  "elem (scale_entry mult a k i A) i' k' =
     (if i' = i \<and> k' = k then mult (mult (elem A i k) (a k)) (a i) else elem A i' k')"
  by (simp add: scale_entry_def)

lemma scale_entry_dims [simp]:
  "NumRows (scale_entry mult a k i A) = NumRows A"
  by (simp add: scale_entry_def)

lemma scale_column:
  "elem (fold (scale_entry mult a k) [0..<j] A) i k' =
     (if k' = k \<and> i < j then mult (mult (elem A i k) (a k)) (a i) else elem A i k')"
proof (induction j arbitrary: i k')
  case 0
  then show ?case by simp
next
  case (Suc j)
  show ?case
  proof (cases "i = j \<and> k' = k")
    case True
    then show ?thesis by (simp add: scale_entry_elem Suc.IH)
  next
    case False
    then have "\<not> (i = j \<and> k' = k)" .
    then have "elem (fold (scale_entry mult a k) [0..<Suc j] A) i k' =
               elem (fold (scale_entry mult a k) [0..<j] A) i k'"
      by (auto simp: scale_entry_elem)
    also have "\<dots> = (if k' = k \<and> i < j then mult (mult (elem A i k) (a k)) (a i)
                       else elem A i k')"
      by (rule Suc.IH)
    also have "\<dots> = (if k' = k \<and> i < Suc j then mult (mult (elem A i k) (a k)) (a i)
                       else elem A i k')"
      using False by (cases "k' = k") (simp_all add: less_Suc_eq)
    finally show ?thesis .
  qed
qed

lemma scale_columns:
  "elem (fold (\<lambda>k A. fold (scale_entry mult a k) [0..<n] A) [0..<j] A) i k =
     (if k < j \<and> i < n then mult (mult (elem A i k) (a k)) (a i) else elem A i k)"
proof (induction j arbitrary: i k)
  case 0
  then show ?case by simp
next
  case (Suc j)
  show ?case
  proof (cases "k = j")
    case True
    then show ?thesis by (simp add: scale_column Suc.IH)
  next
    case False
    then show ?thesis by (simp add: scale_column Suc.IH less_Suc_eq)
  qed
qed

lemma Regularized_elem:
  "elem (Regularized_BilinearFormNaturalToMy mult monomial_scales MonomialSetOrder A) i k =
     (if k < NumRows A \<and> i < NumRows A
      then mult (mult (elem A i k) (monomial_scales (MonomialSetOrder k)))
             (monomial_scales (MonomialSetOrder i))
      else elem A i k)"
  by (simp add: Regularized_BilinearFormNaturalToMy_def Let_def scale_columns)

lemma MassMatrix_Regularized_elem:
  assumes "i < nrows" and "k < nrows"
  shows "elem (MassMatrix mult
             (Regularized_BilinearFormNaturalToMy mult monomial_scales MonomialSetOrder)
             K00 integrals nrows multi_index MonomialSetPosition junk) i k =
         mult (mult (mass_entry mult K00 integrals multi_index MonomialSetPosition
                       (min i k) (max i k))
                 (monomial_scales (MonomialSetOrder k)))
           (monomial_scales (MonomialSetOrder i))"
  using assms by (simp add: MassMatrix_def Regularized_elem mass_loops_elem)

subsection \<open>Multiplication of doubles\<close>

text \<open>
  The product of two doubles in IEEE 754 arithmetic is the exact product, rounded.
\<close>

definition double_mult :: "real \<Rightarrow> real \<Rightarrow> real" where
  "double_mult x y = round_to_double (x * y)"

text \<open>The four products of the example: \<open>(x * 9) * 3\<close> and \<open>(x * 3) * 9\<close> for the double
  \<open>x = 4503599627370503 / 2^60\<close>, and \<open>1 * x\<close>.\<close>

lemma double_mult_one:
  "double_mult 1 (4503599627370503 / 2 ^ 60) = 4503599627370503 / 2 ^ 60"
proof -
  have "round_to_double (of_int 4503599627370503 / 2 ^ 60) =
      of_int (round_half_even (of_int 4503599627370503 / 2 ^ 0)) * 2 ^ 0 / 2 ^ 60"
    by (rule round_to_double_dyadic) simp_all
  also have "round_half_even (of_int 4503599627370503 / 2 ^ 0) = 4503599627370503"
    by (simp add: round_half_even_def Let_def)
  finally show ?thesis by (simp add: double_mult_def)
qed

lemma double_mult_x9:
  "double_mult (4503599627370503 / 2 ^ 60) 9 = 40532396646334528 / 2 ^ 60"
proof -
  have "round_to_double (of_int 40532396646334527 / 2 ^ 60) =
      of_int (round_half_even (of_int 40532396646334527 / 2 ^ 3)) * 2 ^ 3 / 2 ^ 60"
    by (rule round_to_double_dyadic) simp_all
  also have "round_half_even (of_int 40532396646334527 / 2 ^ 3) = 5066549580791816"
    by (simp add: round_half_even_def Let_def)
  finally show ?thesis by (simp add: double_mult_def)
qed

lemma double_mult_x9_3:
  "double_mult (40532396646334528 / 2 ^ 60) 3 = 121597189939003584 / 2 ^ 60"
proof -
  have "round_to_double (of_int 121597189939003584 / 2 ^ 60) =
      of_int (round_half_even (of_int 121597189939003584 / 2 ^ 4)) * 2 ^ 4 / 2 ^ 60"
    by (rule round_to_double_dyadic) simp_all
  also have "round_half_even (of_int 121597189939003584 / 2 ^ 4) = 7599824371187724"
    by (simp add: round_half_even_def Let_def)
  finally show ?thesis by (simp add: double_mult_def)
qed

lemma double_mult_x3:
  "double_mult (4503599627370503 / 2 ^ 60) 3 = 13510798882111508 / 2 ^ 60"
proof -
  have "round_to_double (of_int 13510798882111509 / 2 ^ 60) =
      of_int (round_half_even (of_int 13510798882111509 / 2 ^ 1)) * 2 ^ 1 / 2 ^ 60"
    by (rule round_to_double_dyadic) simp_all
  also have "round_half_even (of_int 13510798882111509 / 2 ^ 1) = 6755399441055754"
    by (simp add: round_half_even_def Let_def)
  finally show ?thesis by (simp add: double_mult_def)
qed

lemma double_mult_x3_9:
  "double_mult (13510798882111508 / 2 ^ 60) 9 = 121597189939003568 / 2 ^ 60"
proof -
  have "round_to_double (of_int 121597189939003572 / 2 ^ 60) =
      of_int (round_half_even (of_int 121597189939003572 / 2 ^ 4)) * 2 ^ 4 / 2 ^ 60"
    by (rule round_to_double_dyadic) simp_all
  also have "round_half_even (of_int 121597189939003572 / 2 ^ 4) = 7599824371187723"
    by (simp add: round_half_even_def Let_def)
  finally show ?thesis by (simp add: double_mult_def)
qed

text \<open>
  The polynomials of degree at most 2 in two variables, in the order of the iterator:
  \<open>1, x, y, x\<^sup>2, xy, y\<^sup>2\<close>.  The position of a monomial among those of its degree is
  the exponent of \<open>y\<close>.
\<close>

definition quadratic_multi_index :: "nat \<Rightarrow> nat list" where
  "quadratic_multi_index k = [[0, 0], [1, 0], [0, 1], [2, 0], [1, 1], [0, 2]] ! k"

text \<open>
  Claim C6, as stated, fails for the matrix the function returns.  The cell has the
  regularized basis with the scales \<open>1, 3, 9\<close> (a cell of volume \<open>1/9\<close> in two dimensions),
  \<open>K00 = 1\<close>, and the integral of \<open>x\<^sup>3\<close> over the cell is the double
  \<open>4503599627370503 / 2\<^sup>6\<^sup>0\<close>.  The loops store this value in \<open>M(1,3)\<close> and in \<open>M(3,1)\<close>;
  the change of basis makes \<open>M(1,3) = (M(1,3) * 9) * 3\<close> and \<open>M(3,1) = (M(3,1) * 3) * 9\<close>, and
  the two roundings of each do not give the same double.
\<close>

theorem MassMatrix_not_bitwise_symmetric_counterexample:
  "elem (MassMatrix double_mult
           (Regularized_BilinearFormNaturalToMy double_mult (\<lambda>m. 3 ^ m)
              (\<lambda>n. sum_list (quadratic_multi_index n)))
           1 (\<lambda>n m. if n = 3 \<and> m = 0 then 4503599627370503 / 2 ^ 60 else 1)
           6 quadratic_multi_index (\<lambda>idx. idx ! 1) (\<lambda>i j. 0)) 1 3
   \<noteq> elem (MassMatrix double_mult
           (Regularized_BilinearFormNaturalToMy double_mult (\<lambda>m. 3 ^ m)
              (\<lambda>n. sum_list (quadratic_multi_index n)))
           1 (\<lambda>n m. if n = 3 \<and> m = 0 then 4503599627370503 / 2 ^ 60 else 1)
           6 quadratic_multi_index (\<lambda>idx. idx ! 1) (\<lambda>i j. 0)) 3 1"
proof -
  let ?integrals = "\<lambda>n m::nat. if n = 3 \<and> m = 0 then 4503599627370503 / 2 ^ 60 else (1::real)"
  let ?order = "\<lambda>n. sum_list (quadratic_multi_index n)"
  let ?M = "MassMatrix double_mult
           (Regularized_BilinearFormNaturalToMy double_mult (\<lambda>m. 3 ^ m) ?order)
           1 ?integrals 6 quadratic_multi_index (\<lambda>idx. idx ! 1) (\<lambda>i j. 0)"
  have sc: "(3::real) ^ ?order 1 = 3" "(3::real) ^ ?order 3 = 9"
    by (simp_all add: quadratic_multi_index_def)
  have "mass_entry double_mult 1 ?integrals quadratic_multi_index (\<lambda>idx. idx ! 1) 1 3
          = double_mult 1 (4503599627370503 / 2 ^ 60)"
    by (simp add: mass_entry_def quadratic_multi_index_def Let_def del: power_numeral)
  then have entry:
    "mass_entry double_mult 1 ?integrals quadratic_multi_index (\<lambda>idx. idx ! 1)
       (min 1 3) (max 1 3) = 4503599627370503 / 2 ^ 60"
    "mass_entry double_mult 1 ?integrals quadratic_multi_index (\<lambda>idx. idx ! 1)
       (min 3 1) (max 3 1) = 4503599627370503 / 2 ^ 60"
    by (simp_all only: double_mult_one min_def max_def, simp_all del: power_numeral)
  have l: "(1::nat) < 6" "(3::nat) < 6" by simp_all
  note e13 = MassMatrix_Regularized_elem [where nrows = 6 and i = 1 and k = 3, OF l]
  note e31 = MassMatrix_Regularized_elem [where nrows = 6 and i = 3 and k = 1, OF l(2) l(1)]
  have a: "elem ?M 1 3 = 121597189939003584 / 2 ^ 60"
    by (simp only: e13 entry sc double_mult_x9 double_mult_x9_3)
  have b: "elem ?M 3 1 = 121597189939003568 / 2 ^ 60"
    by (simp only: e31 entry sc double_mult_x3 double_mult_x3_9)
  show ?thesis unfolding a b by simp
qed

text \<open>
  Claim C6, amended.  The matrix the two loops of MassMatrix assemble (the result for a
  basis whose change of basis is the identity) is symmetric whatever the rounding of the
  products: the entry for \<open>k \<le> l\<close> is computed once and copied to \<open>M(l, k)\<close>.  The matrix
  returned by the function has gone through \<open>BilinearFormNaturalToMy\<close> of the basis of the
  cell.  For the regularized basis the entries \<open>M(k, l)\<close> and \<open>M(l, k)\<close> are equal when the
  two monomials have the same scale, and the whole matrix is symmetric when the order of two
  successive multiplications by scales does not matter, as in exact arithmetic.
\<close>

theorem MassMatrix_symmetry:
  "(\<forall>k < nrows. \<forall>l < nrows.
      elem (MassMatrix mult (\<lambda>M. M) K00 integrals nrows multi_index MonomialSetPosition junk) k l
    = elem (MassMatrix mult (\<lambda>M. M) K00 integrals nrows multi_index MonomialSetPosition junk) l k)
   \<and> (\<forall>k < nrows. \<forall>l < nrows.
        monomial_scales (MonomialSetOrder k) = monomial_scales (MonomialSetOrder l) \<longrightarrow>
        elem (MassMatrix mult
                (Regularized_BilinearFormNaturalToMy mult monomial_scales MonomialSetOrder)
                K00 integrals nrows multi_index MonomialSetPosition junk) k l
      = elem (MassMatrix mult
                (Regularized_BilinearFormNaturalToMy mult monomial_scales MonomialSetOrder)
                K00 integrals nrows multi_index MonomialSetPosition junk) l k)
   \<and> ((\<forall>x a b. mult (mult x a) b = mult (mult x b) a) \<longrightarrow>
       (\<forall>k < nrows. \<forall>l < nrows.
        elem (MassMatrix mult
                (Regularized_BilinearFormNaturalToMy mult monomial_scales MonomialSetOrder)
                K00 integrals nrows multi_index MonomialSetPosition junk) k l
      = elem (MassMatrix mult
                (Regularized_BilinearFormNaturalToMy mult monomial_scales MonomialSetOrder)
                K00 integrals nrows multi_index MonomialSetPosition junk) l k))"
proof -
  have mm: "min k l = min l k" "max k l = max l k" for k l :: nat
    by (simp_all add: min.commute max.commute)
  have a: "\<forall>k < nrows. \<forall>l < nrows.
      elem (MassMatrix mult (\<lambda>M. M) K00 integrals nrows multi_index MonomialSetPosition junk) k l
    = elem (MassMatrix mult (\<lambda>M. M) K00 integrals nrows multi_index MonomialSetPosition junk) l k"
    by (simp add: MassMatrix_def mass_loops_elem mm [of _ _])
  have b: "\<forall>k < nrows. \<forall>l < nrows.
        monomial_scales (MonomialSetOrder k) = monomial_scales (MonomialSetOrder l) \<longrightarrow>
        elem (MassMatrix mult
                (Regularized_BilinearFormNaturalToMy mult monomial_scales MonomialSetOrder)
                K00 integrals nrows multi_index MonomialSetPosition junk) k l
      = elem (MassMatrix mult
                (Regularized_BilinearFormNaturalToMy mult monomial_scales MonomialSetOrder)
                K00 integrals nrows multi_index MonomialSetPosition junk) l k"
  proof (intro allI impI)
    fix k l assume "k < nrows" "l < nrows"
      and "monomial_scales (MonomialSetOrder k) = monomial_scales (MonomialSetOrder l)"
    then show "elem (MassMatrix mult
                (Regularized_BilinearFormNaturalToMy mult monomial_scales MonomialSetOrder)
                K00 integrals nrows multi_index MonomialSetPosition junk) k l
      = elem (MassMatrix mult
                (Regularized_BilinearFormNaturalToMy mult monomial_scales MonomialSetOrder)
                K00 integrals nrows multi_index MonomialSetPosition junk) l k"
      by (simp add: MassMatrix_Regularized_elem mm [of k l])
  qed
  have c: "(\<forall>x a b. mult (mult x a) b = mult (mult x b) a) \<longrightarrow>
       (\<forall>k < nrows. \<forall>l < nrows.
        elem (MassMatrix mult
                (Regularized_BilinearFormNaturalToMy mult monomial_scales MonomialSetOrder)
                K00 integrals nrows multi_index MonomialSetPosition junk) k l
      = elem (MassMatrix mult
                (Regularized_BilinearFormNaturalToMy mult monomial_scales MonomialSetOrder)
                K00 integrals nrows multi_index MonomialSetPosition junk) l k)"
  proof (intro allI impI)
    fix k l assume rc: "\<forall>x a b. mult (mult x a) b = mult (mult x b) a"
      and "k < nrows" "l < nrows"
    then show "elem (MassMatrix mult
                (Regularized_BilinearFormNaturalToMy mult monomial_scales MonomialSetOrder)
                K00 integrals nrows multi_index MonomialSetPosition junk) k l
      = elem (MassMatrix mult
                (Regularized_BilinearFormNaturalToMy mult monomial_scales MonomialSetOrder)
                K00 integrals nrows multi_index MonomialSetPosition junk) l k"
      using rc [rule_format, of _ "monomial_scales (MonomialSetOrder l)"
                  "monomial_scales (MonomialSetOrder k)"]
      by (simp add: MassMatrix_Regularized_elem mm [of k l])
  qed
  show ?thesis using a b c by blast
qed

theorem MassMatrix_symmetry_witness:
  "elem (MassMatrix (*)
           (Regularized_BilinearFormNaturalToMy (*) (\<lambda>m. 3 ^ m)
              (\<lambda>n. sum_list (quadratic_multi_index n)))
           1 (\<lambda>n m. if n = 3 \<and> m = 0 then 4503599627370503 / 2 ^ 60 else 1)
           6 quadratic_multi_index (\<lambda>idx. idx ! 1) (\<lambda>i j. 0)) 1 3
   = elem (MassMatrix (*)
           (Regularized_BilinearFormNaturalToMy (*) (\<lambda>m. 3 ^ m)
              (\<lambda>n. sum_list (quadratic_multi_index n)))
           1 (\<lambda>n m. if n = 3 \<and> m = 0 then 4503599627370503 / 2 ^ 60 else 1)
           6 quadratic_multi_index (\<lambda>idx. idx ! 1) (\<lambda>i j. 0)) 3 1
   \<and> elem (MassMatrix double_mult
           (Regularized_BilinearFormNaturalToMy double_mult (\<lambda>m. 3 ^ m)
              (\<lambda>n. sum_list (quadratic_multi_index n)))
           1 (\<lambda>n m. if n = 3 \<and> m = 0 then 4503599627370503 / 2 ^ 60 else 1)
           6 quadratic_multi_index (\<lambda>idx. idx ! 1) (\<lambda>i j. 0)) 1 2
   = elem (MassMatrix double_mult
           (Regularized_BilinearFormNaturalToMy double_mult (\<lambda>m. 3 ^ m)
              (\<lambda>n. sum_list (quadratic_multi_index n)))
           1 (\<lambda>n m. if n = 3 \<and> m = 0 then 4503599627370503 / 2 ^ 60 else 1)
           6 quadratic_multi_index (\<lambda>idx. idx ! 1) (\<lambda>i j. 0)) 2 1
   \<and> elem (MassMatrix double_mult (\<lambda>M. M)
           1 (\<lambda>n m. if n = 3 \<and> m = 0 then 4503599627370503 / 2 ^ 60 else 1)
           6 quadratic_multi_index (\<lambda>idx. idx ! 1) (\<lambda>i j. 0)) 1 3
   = elem (MassMatrix double_mult (\<lambda>M. M)
           1 (\<lambda>n m. if n = 3 \<and> m = 0 then 4503599627370503 / 2 ^ 60 else 1)
           6 quadratic_multi_index (\<lambda>idx. idx ! 1) (\<lambda>i j. 0)) 3 1"
proof -
  have exact: "\<forall>x a b::real. x * a * b = x * b * a" by simp
  have same: "(3::real) ^ sum_list (quadratic_multi_index 1) = 3 ^ sum_list (quadratic_multi_index 2)"
    by (simp add: quadratic_multi_index_def)
  have l1: "(1::nat) < 6" and l2: "(2::nat) < 6" and l3: "(3::nat) < 6" by simp_all
  note c = MassMatrix_symmetry [where mult = "(*)" and nrows = 6,
      THEN conjunct2, THEN conjunct2, THEN mp, OF exact, rule_format, OF l1 l3]
  note b = MassMatrix_symmetry [where mult = double_mult and nrows = 6
      and monomial_scales = "\<lambda>m. 3 ^ m"
      and MonomialSetOrder = "\<lambda>n. sum_list (quadratic_multi_index n)",
      THEN conjunct2, THEN conjunct1, rule_format, OF l1 l2 same]
  note a = MassMatrix_symmetry [where mult = double_mult and nrows = 6,
      THEN conjunct1, rule_format, OF l1 l3]
  show ?thesis using a b c by blast
qed

end
